theory Spec2Isabelle
  imports Complex_Main "HOL-Library.AList"
begin

section \<open>Geometry transform (modules.py, OCR trainer)\<close>

text \<open>
  Coordinates are Python floats in the source (the columns of \<^verbatim>\<open>LabeledBox\<close>, the
  coordinates of \<^verbatim>\<open>fitz.Rect\<close>). They are modelled as reals: every property below
  compares the very expression the source computes, so rounding does not enter.
  A page rotation is a Python int.
\<close>

text \<open>
  \<^verbatim>\<open>transform_visual_to_pdf_coords(self, x, y, w, h, page_width, page_height, rotation)\<close>:
  an if/elif chain on the rotation whose final \<^verbatim>\<open>else\<close> returns the input.
\<close>

definition transform_visual_to_pdf_coords ::
  "real \<Rightarrow> real \<Rightarrow> real \<Rightarrow> real \<Rightarrow> real \<Rightarrow> real \<Rightarrow> int \<Rightarrow> real \<times> real \<times> real \<times> real" where
  "transform_visual_to_pdf_coords x y w h page_width page_height rotation =
     (if rotation = 0 then (x, y, w, h)
      else if rotation = 90 then (y, page_width - x - w, h, w)
      else if rotation = 180 then (page_width - x - w, page_height - y - h, w, h)
      else if rotation = 270 then (page_height - y - h, x, h, w)
      else (x, y, w, h))"

text \<open>
  What PyMuPDF reports for a loaded page and \<^verbatim>\<open>render_current_page\<close> reads:
  \<^verbatim>\<open>page.rect.width\<close>, \<^verbatim>\<open>page.rect.height\<close> (the page rectangle in the visual
  orientation, already rotated) and \<^verbatim>\<open>page.rotation\<close>.
\<close>

record page_view =
  rect_width :: real
  rect_height :: real
  view_rotation :: int

type_synonym page_key = "nat \<times> nat"

text \<open>The two dictionaries of the trainer widget, keyed by (pdf index, page index).\<close>

record trainer_state =
  page_rotations :: "page_key \<rightharpoonup> int"
  page_dimensions :: "page_key \<rightharpoonup> real \<times> real"

text \<open>
  The bookkeeping of \<^verbatim>\<open>render_current_page\<close>:
  \<^verbatim>\<open>self.page_rotations[key] = page.rotation\<close> and
  \<^verbatim>\<open>self.page_dimensions[key] = (page.rect.width, page.rect.height)\<close>.
\<close>

definition render_current_page :: "page_key \<Rightarrow> page_view \<Rightarrow> trainer_state \<Rightarrow> trainer_state" where
  "render_current_page key page s =
     s\<lparr>page_rotations := (page_rotations s)(key \<mapsto> view_rotation page),
       page_dimensions := (page_dimensions s)(key \<mapsto> (rect_width page, rect_height page))\<rparr>"

datatype py_error = ZeroDivisionError

text \<open>
  The coordinate part of \<^verbatim>\<open>_save_box_to_db\<close>: the canvas rectangle of the box is
  divided by the canvas scale, the rotation and the dimensions are looked up with
  \<^verbatim>\<open>dict.get\<close> (defaults \<^verbatim>\<open>0\<close> and \<^verbatim>\<open>(0, 0)\<close>, also when no key is given), and the
  result of the transform is what is stored. Dividing by a zero scale raises.
\<close>

definition save_box_coords ::
  "trainer_state \<Rightarrow> real \<Rightarrow> real \<times> real \<times> real \<times> real \<Rightarrow> page_key option
     \<Rightarrow> py_error + real \<times> real \<times> real \<times> real" where
  "save_box_coords s scale box_rect key =
     (case box_rect of (bx, by, bw, bh) \<Rightarrow>
        if scale = 0 then Inl ZeroDivisionError
        else
          let vis_x = bx / scale; vis_y = by / scale;
              vis_w = bw / scale; vis_h = bh / scale;
              rotation = (case key of None \<Rightarrow> 0
                          | Some k \<Rightarrow> (case page_rotations s k of None \<Rightarrow> 0 | Some r \<Rightarrow> r));
              page_dims = (case key of None \<Rightarrow> (0, 0)
                           | Some k \<Rightarrow> (case page_dimensions s k of None \<Rightarrow> (0, 0) | Some d \<Rightarrow> d))
          in Inr (transform_visual_to_pdf_coords vis_x vis_y vis_w vis_h
                    (fst page_dims) (snd page_dims) rotation))"

section \<open>Python strings\<close>

text \<open>
  Strings are ASCII strings. \<^verbatim>\<open>str.isspace\<close> on the ASCII range holds for the
  characters 9 to 13 and 28 to 32.
\<close>

definition is_space :: "char \<Rightarrow> bool" where
  "is_space c = (let n = (of_char c :: nat) in (9 \<le> n \<and> n \<le> 13) \<or> (28 \<le> n \<and> n \<le> 32))"

text \<open>\<^verbatim>\<open>s.strip()\<close>: leading and trailing whitespace removed.\<close>

definition py_strip :: "string \<Rightarrow> string" where
  "py_strip s = rev (dropWhile is_space (rev (dropWhile is_space s)))"

text \<open>
  \<^verbatim>\<open>s.split()\<close>: the maximal runs of non-whitespace characters, in order. The first
  argument is the word being read.
\<close>

fun split_from :: "string \<Rightarrow> string \<Rightarrow> string list" where
  "split_from cur [] = (if cur = [] then [] else [cur])"
| "split_from cur (c # cs) =
     (if is_space c then (if cur = [] then split_from [] cs else cur # split_from [] cs)
      else split_from (cur @ [c]) cs)"

definition py_split :: "string \<Rightarrow> string list" where
  "py_split s = split_from [] s"

text \<open>\<^verbatim>\<open>s.lower()\<close> on ASCII: the letters A to Z are moved to a to z.\<close>

definition lower_char :: "char \<Rightarrow> char" where
  "lower_char c =
     (case map_of (zip ''ABCDEFGHIJKLMNOPQRSTUVWXYZ'' ''abcdefghijklmnopqrstuvwxyz'') c of
        None \<Rightarrow> c | Some d \<Rightarrow> d)"

definition py_lower :: "string \<Rightarrow> string" where
  "py_lower s = map lower_char s"

text \<open>\<^verbatim>\<open>s.startswith(p)\<close>.\<close>

definition startswith :: "string \<Rightarrow> string \<Rightarrow> bool" where
  "startswith s p = (take (length p) s = p)"

text \<open>\<^verbatim>\<open>needle in hay\<close> on strings: the needle occurs as a contiguous substring.\<close>

fun py_in :: "string \<Rightarrow> string \<Rightarrow> bool" where
  "py_in needle [] = (needle = [])"
| "py_in needle (c # cs) = (startswith (c # cs) needle \<or> py_in needle cs)"

text \<open>
  \<^verbatim>\<open>s.replace(old, new)\<close> for a non-empty \<^verbatim>\<open>old\<close>: the non-overlapping occurrences
  are replaced from left to right. The counter is the number of characters of a matched
  occurrence still to be skipped.
\<close>

fun replace_from :: "string \<Rightarrow> string \<Rightarrow> nat \<Rightarrow> string \<Rightarrow> string" where
  "replace_from old new k [] = []"
| "replace_from old new k (c # cs) =
     (if 0 < k then replace_from old new (k - 1) cs
      else if startswith (c # cs) old then new @ replace_from old new (length old - 1) cs
      else c # replace_from old new 0 cs)"

definition py_replace :: "string \<Rightarrow> string \<Rightarrow> string \<Rightarrow> string" where
  "py_replace old new s = replace_from old new 0 s"

text \<open>\<^verbatim>\<open>sep.join(texts)\<close>.\<close>

fun py_join :: "string \<Rightarrow> string list \<Rightarrow> string" where
  "py_join sep [] = []"
| "py_join sep [t] = t"
| "py_join sep (t # u # ts) = t @ sep @ py_join sep (u # ts)"

section \<open>Template boxes, rectangles and pages\<close>

text \<open>
  A row of \<^verbatim>\<open>LabeledBox\<close>. \<^verbatim>\<open>name\<close> and \<^verbatim>\<open>anchor_text\<close> are nullable string
  columns; the four coordinates are taken as present. The fields carry the prefix
  \<open>box_\<close> because \<open>x\<close> and \<open>y\<close> would otherwise become constants.
\<close>

record labeled_box =
  box_name :: "string option"
  box_type :: string
  box_x :: real
  box_y :: real
  box_width :: real
  box_height :: real
  box_anchor_text :: "string option"

text \<open>\<^verbatim>\<open>fitz.Rect(x0, y0, x1, y1)\<close>.\<close>

record rect =
  x0 :: real
  y0 :: real
  x1 :: real
  y1 :: real

text \<open>
  The operations of PyMuPDF's \<^verbatim>\<open>Rect\<close> that the matcher calls and whose code is not
  part of the repository: \<^verbatim>\<open>r.normalize()\<close>, \<^verbatim>\<open>r & s\<close>, \<^verbatim>\<open>r.is_empty\<close> and the
  truth value of a rectangle, \<^verbatim>\<open>bool(r)\<close>. They are parameters of the model.
\<close>

record fitz_lib =
  rect_normalize :: "rect \<Rightarrow> rect"
  rect_and :: "rect \<Rightarrow> rect \<Rightarrow> rect"
  rect_is_empty :: "rect \<Rightarrow> bool"
  rect_bool :: "rect \<Rightarrow> bool"

text \<open>\<^verbatim>\<open>r + (a, b, c, d)\<close>: the four coordinates are added componentwise.\<close>

definition rect_add :: "rect \<Rightarrow> real \<times> real \<times> real \<times> real \<Rightarrow> rect" where
  "rect_add r t = (case t of (a, b, c, d) \<Rightarrow>
     \<lparr>x0 = x0 r + a, y0 = y0 r + b, x1 = x1 r + c, y1 = y1 r + d\<rparr>)"

text \<open>
  The library as PyMuPDF documents it, used to run the model on concrete pages:
  normalising swaps coordinates that are out of order, the intersection takes the larger
  of the lower and the smaller of the upper coordinates, a rectangle is empty when it
  has no interior, and it is false only when its four coordinates are zero.
\<close>

definition fitz_std :: fitz_lib where
  "fitz_std =
     \<lparr>rect_normalize = (\<lambda>r. \<lparr>x0 = min (x0 r) (x1 r), y0 = min (y0 r) (y1 r),
                                x1 = max (x0 r) (x1 r), y1 = max (y0 r) (y1 r)\<rparr>),
      rect_and = (\<lambda>r s. \<lparr>x0 = max (x0 r) (x0 s), y0 = max (y0 r) (y0 s),
                            x1 = min (x1 r) (x1 s), y1 = min (y1 r) (y1 s)\<rparr>),
      rect_is_empty = (\<lambda>r. x1 r \<le> x0 r \<or> y1 r \<le> y0 r),
      rect_bool = (\<lambda>r. \<not> (x0 r = 0 \<and> y0 r = 0 \<and> x1 r = 0 \<and> y1 r = 0))\<rparr>"

text \<open>Any exception a library call raises; the matchers catch \<^verbatim>\<open>Exception\<close>.\<close>

datatype exn = Exn string

text \<open>
  A text block as \<^verbatim>\<open>page.get_text("blocks")\<close> returns it: the tuple
  (x0, y0, x1, y1, text, block number, block type). Its length is 7, so the source's
  test \<^verbatim>\<open>len(block) > 4\<close> holds for every block, and \<^verbatim>\<open>block[4]\<close> is the text.
\<close>

type_synonym block = "real \<times> real \<times> real \<times> real \<times> string \<times> int \<times> int"

definition block_text :: "block \<Rightarrow> string" where
  "block_text b = (case b of (bx0, by0, bx1, by1, t, n, k) \<Rightarrow> t)"

text \<open>
  A result of EasyOCR's \<^verbatim>\<open>reader.readtext\<close>: the corner points of the bounding box,
  the text and the confidence.
\<close>

type_synonym ocr_result = "(real \<times> real) list \<times> string \<times> real"

text \<open>
  The raster of a page, a PIL image, as the OCR matcher uses it: its size, what
  \<^verbatim>\<open>reader.readtext\<close> detects on the whole image, and what it detects on the crop
  \<^verbatim>\<open>pil_image.crop((x1, y1, x2, y2))\<close>. Detection may raise.
\<close>

record pil_image =
  image_width :: int
  image_height :: int
  full_readtext :: "exn + ocr_result list"
  crop_readtext :: "int \<times> int \<times> int \<times> int \<Rightarrow> exn + ocr_result list"

text \<open>
  A loaded page, as the matchers use it: \<^verbatim>\<open>page.search_for(s)\<close>,
  \<^verbatim>\<open>page.get_text("text", clip=r)\<close>, \<^verbatim>\<open>page.get_text("blocks", clip=r)\<close>,
  \<^verbatim>\<open>page.rect\<close>, \<^verbatim>\<open>page.rotation\<close>, and the image that
  \<^verbatim>\<open>self._page_to_image(page)\<close> renders at 300 DPI. Each call may raise.
\<close>

record page =
  search_for :: "string \<Rightarrow> exn + rect list"
  get_text :: "rect \<Rightarrow> exn + string"
  get_blocks :: "rect \<Rightarrow> exn + block list"
  page_rect :: rect
  page_rotation :: int
  to_image :: "exn + pil_image"

text \<open>
  An open document: entry \<open>i\<close> is the outcome of \<^verbatim>\<open>doc.load_page(i)\<close>, for
  \<open>i\<close> in \<^verbatim>\<open>range(len(doc))\<close>.
\<close>

type_synonym document = "(exn + page) list"

section \<open>The native anchor matcher (modules.py, \<^verbatim>\<open>_find_box_on_pages\<close>)\<close>

definition POSITION_TOLERANCE :: real where
  "POSITION_TOLERANCE = 50"

text \<open>\<^verbatim>\<open>(anchor.name or "").strip()\<close>: the text the matcher searches for an anchor.\<close>

definition stripped_name :: "labeled_box \<Rightarrow> string" where
  "stripped_name b = py_strip (case box_name b of None \<Rightarrow> [] | Some n \<Rightarrow> n)"

text \<open>An entry of the list \<^verbatim>\<open>secondary_anchors\<close>.\<close>

record secondary =
  sec_text :: string
  expected_dx :: real
  expected_dy :: real

text \<open>
  The loop over \<^verbatim>\<open>anchors[1:]\<close> that builds \<^verbatim>\<open>secondary_anchors\<close>: an anchor whose
  stripped name is empty is left out.
\<close>

fun secondary_anchors :: "labeled_box \<Rightarrow> labeled_box list \<Rightarrow> secondary list" where
  "secondary_anchors first_anchor [] = []"
| "secondary_anchors first_anchor (anchor # rest) =
     (let anchor_text = stripped_name anchor in
      if anchor_text \<noteq> [] then
        \<lparr>sec_text = anchor_text,
         expected_dx = box_x anchor - box_x first_anchor,
         expected_dy = box_y anchor - box_y first_anchor\<rparr> # secondary_anchors first_anchor rest
      else secondary_anchors first_anchor rest)"

text \<open>
  The test on one occurrence of a secondary anchor:
  \<^verbatim>\<open>dx_diff <= POSITION_TOLERANCE and dy_diff <= POSITION_TOLERANCE\<close>.
\<close>

definition within_tolerance :: "rect \<Rightarrow> secondary \<Rightarrow> rect \<Rightarrow> bool" where
  "within_tolerance primary_rect sec sec_rect =
     (let actual_dx = x0 sec_rect - x0 primary_rect;
          actual_dy = y0 sec_rect - y0 primary_rect;
          dx_diff = \<bar>actual_dx - expected_dx sec\<bar>;
          dy_diff = \<bar>actual_dy - expected_dy sec\<bar>
      in dx_diff \<le> POSITION_TOLERANCE \<and> dy_diff \<le> POSITION_TOLERANCE)"

text \<open>The loop over \<^verbatim>\<open>sec_instances\<close>, which breaks at the first occurrence in tolerance.\<close>

fun found_matching :: "rect \<Rightarrow> secondary \<Rightarrow> rect list \<Rightarrow> bool" where
  "found_matching primary_rect sec [] = False"
| "found_matching primary_rect sec (sec_rect # rest) =
     (if within_tolerance primary_rect sec sec_rect then True
      else found_matching primary_rect sec rest)"

text \<open>
  The loop over \<^verbatim>\<open>secondary_anchors\<close> for one primary occurrence; its value is the
  flag \<^verbatim>\<open>all_secondary_match\<close>. Each secondary anchor is searched on the same page, and
  the loop breaks at the first one without an occurrence in tolerance.
\<close>

fun all_secondary_match :: "page \<Rightarrow> rect \<Rightarrow> secondary list \<Rightarrow> exn + bool" where
  "all_secondary_match pg primary_rect [] = Inr True"
| "all_secondary_match pg primary_rect (sec # rest) =
     (case search_for pg (sec_text sec) of
        Inl e \<Rightarrow> Inl e
      | Inr sec_instances \<Rightarrow>
          if found_matching primary_rect sec sec_instances
          then all_secondary_match pg primary_rect rest
          else Inr False)"

text \<open>The value offset and size taken from the first anchor and the first value.\<close>

record value_offset =
  value_dx :: real
  value_dy :: real
  value_w :: real
  value_h :: real

definition value_offset_of :: "labeled_box \<Rightarrow> labeled_box \<Rightarrow> value_offset" where
  "value_offset_of first_anchor first_value =
     \<lparr>value_dx = box_x first_value - box_x first_anchor,
      value_dy = box_y first_value - box_y first_anchor,
      value_w = box_width first_value,
      value_h = box_height first_value\<rparr>"

text \<open>
  The value rectangle of an accepted occurrence: the offset rectangle, normalised and
  intersected with \<^verbatim>\<open>page.rect\<close>.
\<close>

definition value_rect_at :: "fitz_lib \<Rightarrow> page \<Rightarrow> value_offset \<Rightarrow> rect \<Rightarrow> rect" where
  "value_rect_at L pg off primary_rect =
     rect_and L
       (rect_normalize L
          \<lparr>x0 = x0 primary_rect + value_dx off,
           y0 = y0 primary_rect + value_dy off,
           x1 = x0 primary_rect + value_dx off + value_w off,
           y1 = y0 primary_rect + value_dy off + value_h off\<rparr>)
       (page_rect pg)"

text \<open>
  The block fallback: \<^verbatim>\<open>text += str(block[4]).strip() + " "\<close> for every block,
  starting from the empty string.
\<close>

fun blocks_text :: "block list \<Rightarrow> string" where
  "blocks_text [] = []"
| "blocks_text (b # rest) = py_strip (block_text b) @ '' '' @ blocks_text rest"

text \<open>
  The text of the value rectangle, \<^verbatim>\<open>value_text\<close>: empty for an empty rectangle;
  otherwise the clipped text, then the text of the rectangle grown by 10 on each side,
  then the texts of the blocks, each tried only when the one before gave nothing.
\<close>

definition extract_value_text :: "fitz_lib \<Rightarrow> page \<Rightarrow> rect \<Rightarrow> exn + string" where
  "extract_value_text L pg value_rect =
     (if rect_is_empty L value_rect then Inr []
      else
        case get_text pg value_rect of
          Inl e \<Rightarrow> Inl e
        | Inr t \<Rightarrow>
            (case (if py_strip t = []
                   then (case get_text pg
                                 (rect_and L (rect_add value_rect (-10, -10, 10, 10)) (page_rect pg)) of
                           Inl e \<Rightarrow> Inl e
                         | Inr t' \<Rightarrow> Inr (py_strip t'))
                   else Inr (py_strip t)) of
               Inl e \<Rightarrow> Inl e
             | Inr text \<Rightarrow>
                 if text = []
                 then (case get_blocks pg value_rect of
                         Inl e \<Rightarrow> Inl e
                       | Inr blocks \<Rightarrow> Inr (py_strip (blocks_text blocks)))
                 else Inr text))"

text \<open>The dictionary the matcher returns.\<close>

record match =
  match_page :: nat
  match_anchor_text :: string
  match_value_text :: string
  match_value_rect :: rect
  match_target_rotation :: int

text \<open>
  The work on one primary occurrence: verify the secondary anchors, and when they all
  match compute the value rectangle and read its text. \<open>Inr (Some m)\<close> is the
  \<^verbatim>\<open>return\<close>; \<open>Inr None\<close> falls through to the next occurrence.
\<close>

definition check_primary ::
  "fitz_lib \<Rightarrow> page \<Rightarrow> nat \<Rightarrow> string \<Rightarrow> secondary list \<Rightarrow> value_offset \<Rightarrow> rect
     \<Rightarrow> exn + match option" where
  "check_primary L pg page_idx primary_anchor_text secs off primary_rect =
     (case all_secondary_match pg primary_rect secs of
        Inl e \<Rightarrow> Inl e
      | Inr all_match \<Rightarrow>
          if all_match then
            (let value_rect = value_rect_at L pg off primary_rect in
             case extract_value_text L pg value_rect of
               Inl e \<Rightarrow> Inl e
             | Inr value_text \<Rightarrow>
                 if value_text \<noteq> [] then
                   Inr (Some \<lparr>match_page = page_idx,
                              match_anchor_text = primary_anchor_text,
                              match_value_text = value_text,
                              match_value_rect = value_rect,
                              match_target_rotation = page_rotation pg\<rparr>)
                 else Inr None)
          else Inr None)"

text \<open>The loop \<^verbatim>\<open>for primary_rect in primary_instances\<close>.\<close>

fun check_instances ::
  "fitz_lib \<Rightarrow> page \<Rightarrow> nat \<Rightarrow> string \<Rightarrow> secondary list \<Rightarrow> value_offset \<Rightarrow> rect list
     \<Rightarrow> exn + match option" where
  "check_instances L pg page_idx primary_anchor_text secs off [] = Inr None"
| "check_instances L pg page_idx primary_anchor_text secs off (primary_rect # rest) =
     (case check_primary L pg page_idx primary_anchor_text secs off primary_rect of
        Inl e \<Rightarrow> Inl e
      | Inr (Some m) \<Rightarrow> Inr (Some m)
      | Inr None \<Rightarrow> check_instances L pg page_idx primary_anchor_text secs off rest)"

text \<open>
  The occurrences of the primary anchor on a page: those of the full text, and when
  there are none those of the first word of \<^verbatim>\<open>primary_anchor_text.split()\<close>.
\<close>

definition primary_instances :: "page \<Rightarrow> string \<Rightarrow> exn + rect list" where
  "primary_instances pg primary_anchor_text =
     (case search_for pg primary_anchor_text of
        Inl e \<Rightarrow> Inl e
      | Inr instances \<Rightarrow>
          if instances = [] then
            (case py_split primary_anchor_text of
               [] \<Rightarrow> Inr []
             | word # others \<Rightarrow> search_for pg word)
          else Inr instances)"

text \<open>The body of the \<^verbatim>\<open>try\<close> for one loaded page.\<close>

definition search_page ::
  "fitz_lib \<Rightarrow> page \<Rightarrow> nat \<Rightarrow> string \<Rightarrow> secondary list \<Rightarrow> value_offset \<Rightarrow> exn + match option" where
  "search_page L pg page_idx primary_anchor_text secs off =
     (case primary_instances pg primary_anchor_text of
        Inl e \<Rightarrow> Inl e
      | Inr instances \<Rightarrow>
          if instances = [] then Inr None
          else check_instances L pg page_idx primary_anchor_text secs off instances)"

text \<open>
  The loop \<^verbatim>\<open>for page_idx in range(len(doc))\<close>: an exception anywhere in the body is
  caught and the loop continues with the next page.
\<close>

fun search_pages ::
  "fitz_lib \<Rightarrow> string \<Rightarrow> secondary list \<Rightarrow> value_offset \<Rightarrow> nat \<Rightarrow> document \<Rightarrow> match option" where
  "search_pages L primary_anchor_text secs off page_idx [] = None"
| "search_pages L primary_anchor_text secs off page_idx (loaded # rest) =
     (case loaded of
        Inl e \<Rightarrow> search_pages L primary_anchor_text secs off (Suc page_idx) rest
      | Inr pg \<Rightarrow>
          (case search_page L pg page_idx primary_anchor_text secs off of
             Inl e \<Rightarrow> search_pages L primary_anchor_text secs off (Suc page_idx) rest
           | Inr (Some m) \<Rightarrow> Some m
           | Inr None \<Rightarrow> search_pages L primary_anchor_text secs off (Suc page_idx) rest))"

text \<open>
  \<^verbatim>\<open>_find_box_on_pages(self, doc, label_box, anchors, values, base_width, base_height,
  template_rotation)\<close>. The body never reads \<^verbatim>\<open>label_box\<close>, \<^verbatim>\<open>base_width\<close>,
  \<^verbatim>\<open>base_height\<close> or \<^verbatim>\<open>template_rotation\<close>, so they are not arguments of the model.
\<close>

definition find_box_on_pages ::
  "fitz_lib \<Rightarrow> document \<Rightarrow> labeled_box list \<Rightarrow> labeled_box list \<Rightarrow> match option" where
  "find_box_on_pages L doc anchors vals =
     (case anchors of
        [] \<Rightarrow> None
      | first_anchor # more_anchors \<Rightarrow>
          (case vals of
             [] \<Rightarrow> None
           | first_value # more_values \<Rightarrow>
               let primary_anchor_text = stripped_name first_anchor in
               if primary_anchor_text = [] then None
               else search_pages L primary_anchor_text
                      (secondary_anchors first_anchor more_anchors)
                      (value_offset_of first_anchor first_value) 0 doc))"

section \<open>The OCR anchor matcher (ocr_module.py, \<^verbatim>\<open>_find_box_with_ocr\<close>)\<close>

definition OCR_DPI :: real where
  "OCR_DPI = 300"

text \<open>\<^verbatim>\<open>int(v)\<close> on a float: truncation towards zero.\<close>

definition py_int :: "real \<Rightarrow> int" where
  "py_int v = (if 0 \<le> v then \<lfloor>v\<rfloor> else \<lceil>v\<rceil>)"

text \<open>\<^verbatim>\<open>min(vs)\<close> and \<^verbatim>\<open>max(vs)\<close> on a non-empty list.\<close>

definition py_min :: "real list \<Rightarrow> real" where
  "py_min vs = fold min (tl vs) (hd vs)"

definition py_max :: "real list \<Rightarrow> real" where
  "py_max vs = fold max (tl vs) (hd vs)"

text \<open>An entry of the list \<^verbatim>\<open>words\<close>.\<close>

record ocr_word =
  word_text :: string
  word_left :: real
  word_top :: real
  word_width :: real
  word_height :: real
  word_center_x :: real
  word_center_y :: real

text \<open>
  The loop that builds \<^verbatim>\<open>words\<close> from the detection results: a result whose
  stripped text is empty is left out, before its bounding box is looked at; \<^verbatim>\<open>min\<close> of
  an empty bounding box raises.
\<close>

fun build_words :: "ocr_result list \<Rightarrow> exn + ocr_word list" where
  "build_words [] = Inr []"
| "build_words (result # rest) =
     (case result of (bbox, text, conf) \<Rightarrow>
        let text_clean = py_strip text in
        if text_clean = [] then build_words rest
        else if bbox = [] then Inl (Exn ''ValueError'')
        else
          let x_coords = map fst bbox; y_coords = map snd bbox in
          (case build_words rest of
             Inl e \<Rightarrow> Inl e
           | Inr ws \<Rightarrow>
               Inr (\<lparr>word_text = text_clean,
                      word_left = py_min x_coords,
                      word_top = py_min y_coords,
                      word_width = py_max x_coords - py_min x_coords,
                      word_height = py_max y_coords - py_min y_coords,
                      word_center_x = (py_min x_coords + py_max x_coords) / 2,
                      word_center_y = (py_min y_coords + py_max y_coords) / 2\<rparr> # ws)))"

text \<open>
  The test on one word:
  \<^verbatim>\<open>anchor_search_lower in word_lower or word_lower in anchor_search_lower\<close>.
\<close>

definition word_matches :: "string \<Rightarrow> ocr_word \<Rightarrow> bool" where
  "word_matches anchor_search_lower word =
     (let word_lower = py_lower (word_text word) in
      py_in anchor_search_lower word_lower \<or> py_in word_lower anchor_search_lower)"

text \<open>The loop over \<^verbatim>\<open>words\<close>, which breaks at the first word that matches.\<close>

fun find_anchor_word :: "string \<Rightarrow> ocr_word list \<Rightarrow> ocr_word option" where
  "find_anchor_word anchor_search_lower [] = None"
| "find_anchor_word anchor_search_lower (word # rest) =
     (if word_matches anchor_search_lower word then Some word
      else find_anchor_word anchor_search_lower rest)"

text \<open>\<^verbatim>\<open>QRectF(x, y, width, height)\<close>.\<close>

record qrectf =
  qx :: real
  qy :: real
  qwidth :: real
  qheight :: real

text \<open>The texts of a detection, stripped, without the empty ones.\<close>

fun clean_texts :: "ocr_result list \<Rightarrow> string list" where
  "clean_texts [] = []"
| "clean_texts (result # rest) =
     (case result of (bbox, text, conf) \<Rightarrow>
        if py_strip text \<noteq> [] then py_strip text # clean_texts rest else clean_texts rest)"

text \<open>
  \<^verbatim>\<open>_ocr_cropped_region(self, pil_image, rect)\<close>: the rectangle is truncated to
  integers and clipped to the image; an empty crop, a missing reader and any exception
  give the empty string; otherwise the stripped texts detected on the crop are joined by
  single spaces. The first argument says whether \<^verbatim>\<open>get_ocr_reader()\<close> returns a reader.
\<close>

definition ocr_cropped_region :: "bool \<Rightarrow> pil_image \<Rightarrow> qrectf \<Rightarrow> string" where
  "ocr_cropped_region reader pil_image r =
     (let cx1 = max 0 (py_int (qx r));
          cy1 = max 0 (py_int (qy r));
          cx2 = min (image_width pil_image) (py_int (qx r + qwidth r));
          cy2 = min (image_height pil_image) (py_int (qy r + qheight r))
      in if cx2 \<le> cx1 \<or> cy2 \<le> cy1 then []
         else if \<not> reader then []
         else (case crop_readtext pil_image (cx1, cy1, cx2, cy2) of
                 Inl e \<Rightarrow> []
               | Inr ocr_results \<Rightarrow> py_join '' '' (clean_texts ocr_results)))"

text \<open>
  The text searched for: the stored \<^verbatim>\<open>anchor_text\<close>, or, when that is missing, empty
  or starts with "Anchor:", the name without "Anchor: " and "...", stripped. A name that
  is \<^verbatim>\<open>None\<close> has no \<^verbatim>\<open>replace\<close>, which raises.
\<close>

definition anchor_search_text_of :: "labeled_box \<Rightarrow> exn + string" where
  "anchor_search_text_of first_anchor =
     (let anchor_search_text = (case box_anchor_text first_anchor of None \<Rightarrow> [] | Some t \<Rightarrow> t) in
      if anchor_search_text = [] \<or> startswith anchor_search_text ''Anchor:'' then
        (case box_name first_anchor of
           None \<Rightarrow> Inl (Exn ''AttributeError'')
         | Some name \<Rightarrow> Inr (py_strip (py_replace ''...'' [] (py_replace ''Anchor: '' [] name))))
      else Inr anchor_search_text)"

text \<open>The dictionary the OCR matcher returns.\<close>

record ocr_match =
  ocr_match_page :: nat
  ocr_match_anchor_text :: string
  ocr_match_value_text :: string
  ocr_match_value_rect :: rect
  ocr_match_label_rect :: "rect option"

text \<open>A rectangle in image pixels as a \<^verbatim>\<open>fitz.Rect\<close> in points: times 72, by the DPI.\<close>

definition to_fitz_rect :: "qrectf \<Rightarrow> rect" where
  "to_fitz_rect r =
     \<lparr>x0 = qx r * 72 / OCR_DPI,
      y0 = qy r * 72 / OCR_DPI,
      x1 = (qx r + qwidth r) * 72 / OCR_DPI,
      y1 = (qy r + qheight r) * 72 / OCR_DPI\<rparr>"

text \<open>
  The body of the \<^verbatim>\<open>try\<close> for one loaded page: rasterise the page, detect on the full
  image, build the words, take the first word that matches the anchor text, and read the
  value from a crop of the image. Without a reader the page is skipped.
\<close>

definition ocr_search_page ::
  "bool \<Rightarrow> page \<Rightarrow> nat \<Rightarrow> string \<Rightarrow> value_offset \<Rightarrow> value_offset option
     \<Rightarrow> exn + ocr_match option" where
  "ocr_search_page reader pg page_idx anchor_search_text off label_off =
     (case to_image pg of
        Inl e \<Rightarrow> Inl e
      | Inr pil_image \<Rightarrow>
          if \<not> reader then Inr None
          else
            (case full_readtext pil_image of
               Inl e \<Rightarrow> Inl e
             | Inr ocr_results \<Rightarrow>
                 (case build_words ocr_results of
                    Inl e \<Rightarrow> Inl e
                  | Inr words \<Rightarrow>
                      (case find_anchor_word (py_strip (py_lower anchor_search_text)) words of
                         None \<Rightarrow> Inr None
                       | Some anchor_found \<Rightarrow>
                           let value_rect =
                                 \<lparr>qx = word_left anchor_found + value_dx off,
                                  qy = word_top anchor_found + value_dy off,
                                  qwidth = value_w off,
                                  qheight = value_h off\<rparr>;
                               value_text = ocr_cropped_region reader pil_image value_rect
                           in if value_text \<noteq> [] then
                                Inr (Some
                                  \<lparr>ocr_match_page = page_idx,
                                   ocr_match_anchor_text = word_text anchor_found,
                                   ocr_match_value_text = value_text,
                                   ocr_match_value_rect = to_fitz_rect value_rect,
                                   ocr_match_label_rect =
                                     (case label_off of
                                        None \<Rightarrow> None
                                      | Some lo \<Rightarrow>
                                          Some (to_fitz_rect
                                            \<lparr>qx = word_left anchor_found + value_dx lo,
                                             qy = word_top anchor_found + value_dy lo,
                                             qwidth = value_w lo,
                                             qheight = value_h lo\<rparr>))\<rparr>)
                              else Inr None))))"

text \<open>
  The loop \<^verbatim>\<open>for page_idx in range(len(doc))\<close> of the OCR matcher, with the same
  except clause as the native one.
\<close>

fun ocr_search_pages ::
  "bool \<Rightarrow> string \<Rightarrow> value_offset \<Rightarrow> value_offset option \<Rightarrow> nat \<Rightarrow> document
     \<Rightarrow> ocr_match option" where
  "ocr_search_pages reader anchor_search_text off label_off page_idx [] = None"
| "ocr_search_pages reader anchor_search_text off label_off page_idx (loaded # rest) =
     (case loaded of
        Inl e \<Rightarrow> ocr_search_pages reader anchor_search_text off label_off (Suc page_idx) rest
      | Inr pg \<Rightarrow>
          (case ocr_search_page reader pg page_idx anchor_search_text off label_off of
             Inl e \<Rightarrow> ocr_search_pages reader anchor_search_text off label_off (Suc page_idx) rest
           | Inr (Some m) \<Rightarrow> Some m
           | Inr None \<Rightarrow>
               ocr_search_pages reader anchor_search_text off label_off (Suc page_idx) rest))"

text \<open>
  \<^verbatim>\<open>_find_box_with_ocr(self, doc, anchors, values, page_width, page_height, pdf_path,
  label_box)\<close>. The body never reads \<^verbatim>\<open>page_width\<close>, \<^verbatim>\<open>page_height\<close> or
  \<^verbatim>\<open>pdf_path\<close>. Only the failure to read the anchor's name leaves the function as an
  exception; the offsets of the label box are those of its rectangle from the first
  anchor.
\<close>

definition find_box_with_ocr ::
  "bool \<Rightarrow> document \<Rightarrow> labeled_box list \<Rightarrow> labeled_box list \<Rightarrow> labeled_box option
     \<Rightarrow> exn + ocr_match option" where
  "find_box_with_ocr reader doc anchors vals label_box =
     (if anchors = [] \<or> vals = [] then Inr None
      else
        let first_anchor = hd anchors; first_value = hd vals in
        (case anchor_search_text_of first_anchor of
           Inl e \<Rightarrow> Inl e
         | Inr anchor_search_text \<Rightarrow>
             if anchor_search_text = [] then Inr None
             else
               Inr (ocr_search_pages reader anchor_search_text
                      (value_offset_of first_anchor first_value)
                      (case label_box of
                         None \<Rightarrow> None
                       | Some lb \<Rightarrow> Some (value_offset_of first_anchor lb))
                      0 doc)))"

section \<open>The extraction runs (\<^verbatim>\<open>run_extraction\<close> in modules.py and ocr_module.py)\<close>

text \<open>
  A label row of the template with its children, and a page of the template with the
  label rows the query returns for it. The name of a label is the string the trainer
  saved.
\<close>

record template_label =
  tl_name :: string
  tl_id :: nat
  tl_box :: labeled_box
  tl_children :: "labeled_box list"

record template_page =
  tp_label_boxes :: "template_label list"
  tp_page_width :: real
  tp_page_height :: real
  tp_page_rotation :: "int option"

text \<open>
  An entry of \<^verbatim>\<open>all_labels\<close> together with the entry of \<^verbatim>\<open>label_info\<close> stored under
  its id, the primary key of the label row.
\<close>

record label_entry =
  label_name :: string
  label_id :: nat
  label_box :: labeled_box
  label_anchors :: "labeled_box list"
  label_values :: "labeled_box list"
  label_page_width :: real
  label_page_height :: real
  label_page_rotation :: int

text \<open>
  The body of the loop over the label rows of a page: a label whose name is already in
  \<^verbatim>\<open>all_labels\<close> is left out; the anchors and the values are the children of that type;
  the rotation is \<^verbatim>\<open>getattr(ocr_page, 'page_rotation', 0) or 0\<close>.
\<close>

definition add_label :: "template_page \<Rightarrow> template_label \<Rightarrow> label_entry list \<Rightarrow> label_entry list" where
  "add_label ocr_page lb all_labels =
     (if tl_name lb \<in> set (map label_name all_labels) then all_labels
      else all_labels @
        [\<lparr>label_name = tl_name lb,
          label_id = tl_id lb,
          label_box = tl_box lb,
          label_anchors = filter (\<lambda>b. box_type b = ''anchor'') (tl_children lb),
          label_values = filter (\<lambda>b. box_type b = ''value'') (tl_children lb),
          label_page_width = tp_page_width ocr_page,
          label_page_height = tp_page_height ocr_page,
          label_page_rotation = (case tp_page_rotation ocr_page of None \<Rightarrow> 0 | Some r \<Rightarrow> r)\<rparr>])"

text \<open>The two nested loops over the pages of the template and their label rows.\<close>

definition collect_labels :: "template_page list \<Rightarrow> label_entry list" where
  "collect_labels template =
     fold (\<lambda>ocr_page all_labels. fold (add_label ocr_page) (tp_label_boxes ocr_page) all_labels)
       template []"

text \<open>The column headers: the file name, then an anchor and a value column per label.\<close>

fun column_headers :: "label_entry list \<Rightarrow> string list" where
  "column_headers [] = []"
| "column_headers (label # rest) =
     (label_name label @ ''_Anchor'') # (label_name label @ ''_Value'') # column_headers rest"

text \<open>
  A row, the dictionary \<^verbatim>\<open>row_data\<close>, in insertion order; an assignment to a key is
  \<open>AList.update\<close>. An entry of \<^verbatim>\<open>extraction_screenshots\<close>; the native run stores no
  label rectangle.
\<close>

type_synonym row_data = "(string \<times> string) list"

record screenshot =
  shot_pdf_path :: string
  shot_page_idx :: nat
  shot_value_rect :: rect
  shot_label_rect :: "rect option"
  shot_label_name :: string
  shot_value_text :: string
  shot_pdf_filename :: string

text \<open>
  What a run changes: \<^verbatim>\<open>self.extraction_results\<close>, \<^verbatim>\<open>self.extraction_screenshots\<close>,
  the counter \<^verbatim>\<open>extracted_count\<close> and the rows of the result table.
\<close>

record run_state =
  extraction_results :: "row_data list"
  extraction_screenshots :: "screenshot list"
  extracted_count :: nat
  table_rows :: "string list list"

text \<open>
  The file system as a run sees it: \<^verbatim>\<open>fitz.open(pdf_path)\<close>, which raises for a file
  that cannot be opened, and \<^verbatim>\<open>os.path.basename\<close>.
\<close>

record file_system =
  fitz_open :: "string \<Rightarrow> exn + document"
  basename :: "string \<Rightarrow> string"

text \<open>
  The body of the loop over \<^verbatim>\<open>all_labels\<close> in the native run: a match fills the two
  columns of the label, counts, and is kept for the backup when its value rectangle is
  true; no match fills the two columns with empty strings.
\<close>

definition record_label ::
  "fitz_lib \<Rightarrow> string \<Rightarrow> string \<Rightarrow> document \<Rightarrow> label_entry \<Rightarrow> row_data \<times> run_state
     \<Rightarrow> row_data \<times> run_state" where
  "record_label L pdf_path pdf_filename doc label rs =
     (case rs of (row, s) \<Rightarrow>
        (case find_box_on_pages L doc (label_anchors label) (label_values label) of
           Some m \<Rightarrow>
             (AList.update (label_name label @ ''_Value'') (match_value_text m)
                (AList.update (label_name label @ ''_Anchor'') (match_anchor_text m) row),
              s\<lparr>extracted_count := extracted_count s + 1,
                extraction_screenshots :=
                  (if rect_bool L (match_value_rect m) then
                     extraction_screenshots s @
                       [\<lparr>shot_pdf_path = pdf_path,
                         shot_page_idx = match_page m,
                         shot_value_rect = match_value_rect m,
                         shot_label_rect = None,
                         shot_label_name = label_name label,
                         shot_value_text = match_value_text m,
                         shot_pdf_filename = pdf_filename\<rparr>]
                   else extraction_screenshots s)\<rparr>)
         | None \<Rightarrow>
             (AList.update (label_name label @ ''_Value'') []
                (AList.update (label_name label @ ''_Anchor'') [] row), s)))"

text \<open>The cells of a table row: \<^verbatim>\<open>row_data.get(col_name, "")\<close> for every column.\<close>

definition row_cells :: "string list \<Rightarrow> row_data \<Rightarrow> string list" where
  "row_cells columns row = map (\<lambda>col. case map_of row col of None \<Rightarrow> [] | Some v \<Rightarrow> v) columns"

text \<open>
  The body of the loop over \<^verbatim>\<open>paths\<close> after the document is open: one row for the
  document, appended to the table and to \<^verbatim>\<open>extraction_results\<close>.
\<close>

definition extract_document ::
  "fitz_lib \<Rightarrow> file_system \<Rightarrow> label_entry list \<Rightarrow> string list \<Rightarrow> string \<Rightarrow> document
     \<Rightarrow> run_state \<Rightarrow> run_state" where
  "extract_document L fs all_labels columns pdf_path doc s =
     (let pdf_filename = basename fs pdf_path in
      case fold (record_label L pdf_path pdf_filename doc) all_labels
             ([(''PDF Filename'', pdf_filename)], s) of
        (row, s') \<Rightarrow>
          s'\<lparr>table_rows := table_rows s' @ [row_cells columns row],
             extraction_results := extraction_results s' @ [row]\<rparr>)"

text \<open>
  The loop \<^verbatim>\<open>for pdf_path in paths\<close> inside the single \<^verbatim>\<open>try\<close> of the run: the
  exception of a document that cannot be opened leaves the loop, with the state as it is
  at that moment; the except clause of the run then reports it.
\<close>

fun extract_paths ::
  "fitz_lib \<Rightarrow> file_system \<Rightarrow> label_entry list \<Rightarrow> string list \<Rightarrow> string list \<Rightarrow> run_state
     \<Rightarrow> run_state \<times> exn option" where
  "extract_paths L fs all_labels columns [] s = (s, None)"
| "extract_paths L fs all_labels columns (pdf_path # rest) s =
     (case fitz_open fs pdf_path of
        Inl e \<Rightarrow> (s, Some e)
      | Inr doc \<Rightarrow>
          extract_paths L fs all_labels columns rest
            (extract_document L fs all_labels columns pdf_path doc s))"

text \<open>
  How a run ends: no file was chosen; the template has no label; the message
  "Extraction complete" with the number of paths and of extracted values; or the message
  "Extraction failed" with the exception.
\<close>

datatype run_outcome = NoPaths | NoLabels | OcrNotAvailable | Complete nat nat | Failed exn

definition fresh_run :: run_state where
  "fresh_run = \<lparr>extraction_results = [], extraction_screenshots = [], extracted_count = 0,
     table_rows = []\<rparr>"

text \<open>
  \<^verbatim>\<open>run_extraction\<close> of modules.py, from the chosen paths and the template found: the
  labels are collected, the table and the results are reset, and the loop runs in one
  \<^verbatim>\<open>try\<close>. The dialogs and the writing of the backup file are not modelled.
\<close>

definition run_extraction ::
  "fitz_lib \<Rightarrow> file_system \<Rightarrow> template_page list \<Rightarrow> string list \<Rightarrow> run_state
     \<Rightarrow> run_state \<times> run_outcome" where
  "run_extraction L fs template paths s =
     (if paths = [] then (s, NoPaths)
      else
        let all_labels = collect_labels template in
        if all_labels = [] then (s, NoLabels)
        else
          (case extract_paths L fs all_labels (''PDF Filename'' # column_headers all_labels)
                  paths fresh_run of
             (s', None) \<Rightarrow> (s', Complete (length paths) (extracted_count s'))
           | (s', Some e) \<Rightarrow> (s', Failed e)))"

text \<open>
  The body of the loop over \<^verbatim>\<open>all_labels\<close> in the OCR run. The matcher may raise, which
  leaves the loop with what has been counted and kept so far.
\<close>

fun ocr_record_labels ::
  "fitz_lib \<Rightarrow> bool \<Rightarrow> string \<Rightarrow> string \<Rightarrow> document \<Rightarrow> label_entry list \<Rightarrow> row_data \<times> run_state
     \<Rightarrow> (row_data \<times> run_state) \<times> exn option" where
  "ocr_record_labels L reader pdf_path pdf_filename doc [] rs = (rs, None)"
| "ocr_record_labels L reader pdf_path pdf_filename doc (label # rest) rs =
     (case rs of (row, s) \<Rightarrow>
        (case find_box_with_ocr reader doc (label_anchors label) (label_values label)
                (Some (label_box label)) of
           Inl e \<Rightarrow> ((row, s), Some e)
         | Inr (Some m) \<Rightarrow>
             ocr_record_labels L reader pdf_path pdf_filename doc rest
               (AList.update (label_name label @ ''_Value'') (ocr_match_value_text m)
                  (AList.update (label_name label @ ''_Anchor'') (ocr_match_anchor_text m) row),
                s\<lparr>extracted_count := extracted_count s + 1,
                  extraction_screenshots :=
                    (if rect_bool L (ocr_match_value_rect m) then
                       extraction_screenshots s @
                         [\<lparr>shot_pdf_path = pdf_path,
                           shot_page_idx = ocr_match_page m,
                           shot_value_rect = ocr_match_value_rect m,
                           shot_label_rect = ocr_match_label_rect m,
                           shot_label_name = label_name label,
                           shot_value_text = ocr_match_value_text m,
                           shot_pdf_filename = pdf_filename\<rparr>]
                     else extraction_screenshots s)\<rparr>)
         | Inr None \<Rightarrow>
             ocr_record_labels L reader pdf_path pdf_filename doc rest
               (AList.update (label_name label @ ''_Value'') []
                  (AList.update (label_name label @ ''_Anchor'') [] row), s)))"

text \<open>The loop over \<^verbatim>\<open>paths\<close> of the OCR run, in its single \<^verbatim>\<open>try\<close>.\<close>

fun ocr_extract_paths ::
  "fitz_lib \<Rightarrow> bool \<Rightarrow> file_system \<Rightarrow> label_entry list \<Rightarrow> string list \<Rightarrow> string list
     \<Rightarrow> run_state \<Rightarrow> run_state \<times> exn option" where
  "ocr_extract_paths L reader fs all_labels columns [] s = (s, None)"
| "ocr_extract_paths L reader fs all_labels columns (pdf_path # rest) s =
     (case fitz_open fs pdf_path of
        Inl e \<Rightarrow> (s, Some e)
      | Inr doc \<Rightarrow>
          (case ocr_record_labels L reader pdf_path (basename fs pdf_path) doc all_labels
                  ([(''PDF Filename'', basename fs pdf_path)], s) of
             ((row, s'), Some e) \<Rightarrow> (s', Some e)
           | ((row, s'), None) \<Rightarrow>
               ocr_extract_paths L reader fs all_labels columns rest
                 (s'\<lparr>table_rows := table_rows s' @ [row_cells columns row],
                     extraction_results := extraction_results s' @ [row]\<rparr>)))"

text \<open>
  \<^verbatim>\<open>run_extraction\<close> of ocr_module.py. The first flag is \<^verbatim>\<open>EASYOCR_AVAILABLE\<close>, the
  second says whether \<^verbatim>\<open>get_ocr_reader()\<close> returns a reader.
\<close>

definition ocr_run_extraction ::
  "fitz_lib \<Rightarrow> bool \<Rightarrow> bool \<Rightarrow> file_system \<Rightarrow> template_page list \<Rightarrow> string list \<Rightarrow> run_state
     \<Rightarrow> run_state \<times> run_outcome" where
  "ocr_run_extraction L easyocr_available reader fs template paths s =
     (if paths = [] then (s, NoPaths)
      else if \<not> easyocr_available then (s, OcrNotAvailable)
      else
        let all_labels = collect_labels template in
        if all_labels = [] then (s, NoLabels)
        else
          (case ocr_extract_paths L reader fs all_labels
                  (''PDF Filename'' # column_headers all_labels) paths fresh_run of
             (s', None) \<Rightarrow> (s', Complete (length paths) (extracted_count s'))
           | (s', Some e) \<Rightarrow> (s', Failed e)))"

text \<open>A path whose document can be opened.\<close>

definition opens :: "file_system \<Rightarrow> string \<Rightarrow> bool" where
  "opens fs pdf_path = (case fitz_open fs pdf_path of Inl e \<Rightarrow> False | Inr doc \<Rightarrow> True)"

text \<open>
  The OCR matcher returns, with or without a match, for every label on a document: it
  raises for none of them.
\<close>

definition ocr_labels_return :: "bool \<Rightarrow> document \<Rightarrow> label_entry list \<Rightarrow> bool" where
  "ocr_labels_return reader doc all_labels =
     list_all (\<lambda>label.
                 case find_box_with_ocr reader doc (label_anchors label) (label_values label)
                        (Some (label_box label)) of
                   Inl e \<Rightarrow> False
                 | Inr found \<Rightarrow> True)
       all_labels"

section \<open>The claims' reading of the result rows\<close>

text \<open>
  Not translated from the source: the row a document is expected to have in the result
  table, to be compared with the row the loops of \<^verbatim>\<open>run_extraction\<close> build. The cells of
  a label are the anchor text and the value text of its match, or two empty strings when
  the label has no match on the document.
\<close>

definition claimed_label_cells :: "string \<Rightarrow> (string \<times> string) option \<Rightarrow> row_data" where
  "claimed_label_cells name found =
     (case found of
        Some (anchor_text, value_text) \<Rightarrow>
          [(name @ ''_Anchor'', anchor_text), (name @ ''_Value'', value_text)]
      | None \<Rightarrow> [(name @ ''_Anchor'', []), (name @ ''_Value'', [])])"

text \<open>
  The row of a document in the native run: the file name, then the cells of every label
  in the order of the labels, each label matched once by the native matcher.
\<close>

definition claimed_row ::
  "fitz_lib \<Rightarrow> file_system \<Rightarrow> label_entry list \<Rightarrow> string \<Rightarrow> document \<Rightarrow> row_data" where
  "claimed_row L fs all_labels pdf_path doc =
     (''PDF Filename'', basename fs pdf_path) #
     concat (map (\<lambda>label.
                    claimed_label_cells (label_name label)
                      (map_option (\<lambda>m. (match_anchor_text m, match_value_text m))
                         (find_box_on_pages L doc (label_anchors label) (label_values label))))
                 all_labels)"

text \<open>The row of a document in the OCR run, each label matched once by the OCR matcher.\<close>

definition claimed_ocr_row ::
  "bool \<Rightarrow> file_system \<Rightarrow> label_entry list \<Rightarrow> string \<Rightarrow> document \<Rightarrow> row_data" where
  "claimed_ocr_row reader fs all_labels pdf_path doc =
     (''PDF Filename'', basename fs pdf_path) #
     concat (map (\<lambda>label.
                    claimed_label_cells (label_name label)
                      (case find_box_with_ocr reader doc (label_anchors label) (label_values label)
                              (Some (label_box label)) of
                         Inl e \<Rightarrow> None
                       | Inr None \<Rightarrow> None
                       | Inr (Some m) \<Rightarrow> Some (ocr_match_anchor_text m, ocr_match_value_text m)))
                 all_labels)"

text \<open>The rows of a list of paths and the documents they open to, in the order of the paths.\<close>

definition claimed_rows ::
  "fitz_lib \<Rightarrow> file_system \<Rightarrow> label_entry list \<Rightarrow> string list \<Rightarrow> document list \<Rightarrow> row_data list" where
  "claimed_rows L fs all_labels paths docs =
     map (\<lambda>(pdf_path, doc). claimed_row L fs all_labels pdf_path doc) (zip paths docs)"

definition claimed_ocr_rows ::
  "bool \<Rightarrow> file_system \<Rightarrow> label_entry list \<Rightarrow> string list \<Rightarrow> document list \<Rightarrow> row_data list" where
  "claimed_ocr_rows reader fs all_labels paths docs =
     map (\<lambda>(pdf_path, doc). claimed_ocr_row reader fs all_labels pdf_path doc) (zip paths docs)"

section \<open>The claims' reading of the native search\<close>

text \<open>
  The definitions of this section are not translated from the source. They say, in the
  words of the specification, which occurrence the matcher is expected to settle on, and
  are compared with the loops of \<^verbatim>\<open>_find_box_on_pages\<close> below.
\<close>

text \<open>A library call raises while an occurrence is verified or its value text is read.\<close>

definition raises :: "fitz_lib \<Rightarrow> page \<Rightarrow> secondary list \<Rightarrow> value_offset \<Rightarrow> rect \<Rightarrow> bool" where
  "raises L pg secs off P =
     (case all_secondary_match pg P secs of
        Inl e \<Rightarrow> True
      | Inr all_match \<Rightarrow>
          all_match \<and> (case extract_value_text L pg (value_rect_at L pg off P) of
                         Inl e \<Rightarrow> True | Inr t \<Rightarrow> False))"

text \<open>
  The secondary anchors of an occurrence all verify and its value rectangle yields
  non-empty text.
\<close>

definition verifies_with_text :: "fitz_lib \<Rightarrow> page \<Rightarrow> secondary list \<Rightarrow> value_offset \<Rightarrow> rect \<Rightarrow> bool" where
  "verifies_with_text L pg secs off P =
     (all_secondary_match pg P secs = Inr True \<and>
      (case extract_value_text L pg (value_rect_at L pg off P) of
         Inl e \<Rightarrow> False | Inr t \<Rightarrow> t \<noteq> []))"

text \<open>The match derived from an occurrence on page \<open>i\<close>.\<close>

definition match_from :: "fitz_lib \<Rightarrow> page \<Rightarrow> nat \<Rightarrow> string \<Rightarrow> value_offset \<Rightarrow> rect \<Rightarrow> match" where
  "match_from L pg i primary_anchor_text off P =
     \<lparr>match_page = i,
      match_anchor_text = primary_anchor_text,
      match_value_text = (case extract_value_text L pg (value_rect_at L pg off P) of
                            Inl e \<Rightarrow> [] | Inr t \<Rightarrow> t),
      match_value_rect = value_rect_at L pg off P,
      match_target_rotation = page_rotation pg\<rparr>"

text \<open>The first whitespace-delimited word of a string.\<close>

definition claimed_first_word :: "string \<Rightarrow> string" where
  "claimed_first_word s = takeWhile (\<lambda>c. \<not> is_space c) (dropWhile is_space s)"

text \<open>
  The candidate occurrences of the primary anchor on a page: the occurrences the locator
  returns for the full anchor text, in the order it returns them, and when it returns
  none, those it returns for the first whitespace-delimited word of the text. A page that
  the locator cannot search has no candidate.
\<close>

definition claimed_occurrences :: "page \<Rightarrow> string \<Rightarrow> rect list" where
  "claimed_occurrences pg primary_anchor_text =
     (case search_for pg primary_anchor_text of
        Inl e \<Rightarrow> []
      | Inr occ \<Rightarrow>
          if occ \<noteq> [] then occ
          else (case search_for pg (claimed_first_word primary_anchor_text) of
                  Inl e \<Rightarrow> []
                | Inr word_occ \<Rightarrow> word_occ))"

text \<open>
  The candidates of a document, each with the index of its page: the pages in page order,
  and the candidate occurrences of a page in their order. A page that cannot be loaded
  has none.
\<close>

definition claimed_candidates :: "string \<Rightarrow> nat \<Rightarrow> document \<Rightarrow> (nat \<times> page \<times> rect) list" where
  "claimed_candidates primary_anchor_text k doc =
     concat (map (\<lambda>(i, loaded).
                    case loaded of
                      Inl e \<Rightarrow> []
                    | Inr pg \<Rightarrow> map (\<lambda>P. (i, pg, P)) (claimed_occurrences pg primary_anchor_text))
                 (enumerate k doc))"

text \<open>
  The match derived from the first candidate, in that order, whose secondary anchors
  verify and whose value rectangle yields text.
\<close>

definition claimed_first_match ::
  "fitz_lib \<Rightarrow> string \<Rightarrow> secondary list \<Rightarrow> value_offset \<Rightarrow> nat \<Rightarrow> document \<Rightarrow> match option" where
  "claimed_first_match L primary_anchor_text secs off k doc =
     (case List.find (\<lambda>(i, pg, P). verifies_with_text L pg secs off P)
             (claimed_candidates primary_anchor_text k doc) of
        None \<Rightarrow> None
      | Some (i, pg, P) \<Rightarrow> Some (match_from L pg i primary_anchor_text off P))"

text \<open>What the page loop does with the outcome of one page: only a match ends it.\<close>

definition found_on_page :: "exn + match option \<Rightarrow> match option" where
  "found_on_page r = (case r of Inl e \<Rightarrow> None | Inr None \<Rightarrow> None | Inr (Some m) \<Rightarrow> Some m)"

section \<open>The claims' reading of an occurrence in the OCR search\<close>


section \<open>A sample template and document\<close>

text \<open>
  A label with the primary anchor "Balance", the secondary anchor "Account Number:"
  90 units below it and a value 80 units to its right; an anchor whose name is blank.
\<close>

definition balance_anchor :: labeled_box where
  "balance_anchor = \<lparr>box_name = Some '' Balance '', box_type = ''anchor'', box_x = 100, box_y = 100,
     box_width = 40, box_height = 10, box_anchor_text = None\<rparr>"

definition account_anchor :: labeled_box where
  "account_anchor = \<lparr>box_name = Some ''Account Number:'', box_type = ''anchor'', box_x = 100,
     box_y = 190, box_width = 80, box_height = 10, box_anchor_text = None\<rparr>"

definition blank_anchor :: labeled_box where
  "blank_anchor = \<lparr>box_name = Some ''  '', box_type = ''anchor'', box_x = 0, box_y = 0,
     box_width = 5, box_height = 5, box_anchor_text = None\<rparr>"

definition balance_value :: labeled_box where
  "balance_value = \<lparr>box_name = Some ''Value 1'', box_type = ''value'', box_x = 180, box_y = 100,
     box_width = 120, box_height = 14, box_anchor_text = None\<rparr>"

definition other_value :: labeled_box where
  "other_value = \<lparr>box_name = Some ''Value 2'', box_type = ''value'', box_x = 300, box_y = 400,
     box_width = 50, box_height = 50, box_anchor_text = None\<rparr>"

text \<open>An image on which nothing is detected.\<close>

definition blank_image :: pil_image where
  "blank_image = \<lparr>image_width = 2550, image_height = 3300, full_readtext = Inr [],
     crop_readtext = (\<lambda>box. Inr [])\<rparr>"

text \<open>
  A page with two occurrences of "Balance" and no text under either value rectangle:
  the secondary anchor is off by exactly 50 in both directions from the first and by 51
  horizontally from the second.
\<close>

definition statement_page :: page where
  "statement_page =
     \<lparr>search_for = (\<lambda>s. if s = ''Balance''
                          then Inr [\<lparr>x0 = 10, y0 = 10, x1 = 50, y1 = 20\<rparr>,
                                    \<lparr>x0 = 9, y0 = 110, x1 = 49, y1 = 120\<rparr>]
                          else if s = ''Account Number:''
                          then Inr [\<lparr>x0 = 60, y0 = 150, x1 = 140, y1 = 160\<rparr>]
                          else Inr []),
      get_text = (\<lambda>r. Inr '' ''),
      get_blocks = (\<lambda>r. Inr []),
      page_rect = \<lparr>x0 = 0, y0 = 0, x1 = 600, y1 = 800\<rparr>,
      page_rotation = 0,
      to_image = Inr blank_image\<rparr>"

text \<open>A page where the anchors sit as in the template and the value can be read.\<close>

definition summary_page :: page where
  "summary_page =
     \<lparr>search_for = (\<lambda>s. if s = ''Balance''
                          then Inr [\<lparr>x0 = 20, y0 = 300, x1 = 60, y1 = 310\<rparr>]
                          else if s = ''Account Number:''
                          then Inr [\<lparr>x0 = 20, y0 = 390, x1 = 100, y1 = 400\<rparr>]
                          else if s = ''Account''
                          then Inr [\<lparr>x0 = 20, y0 = 390, x1 = 60, y1 = 400\<rparr>]
                          else Inr []),
      get_text = (\<lambda>r. if r = \<lparr>x0 = 100, y0 = 300, x1 = 220, y1 = 314\<rparr>
                        then Inr '' 1234-5678-9012 '' else Inr []),
      get_blocks = (\<lambda>r. Inr []),
      page_rect = \<lparr>x0 = 0, y0 = 0, x1 = 600, y1 = 800\<rparr>,
      page_rotation = 0,
      to_image = Inr blank_image\<rparr>"

text \<open>A page on which only the first word of "Account Number:" is found.\<close>

definition scanned_page :: page where
  "scanned_page =
     \<lparr>search_for = (\<lambda>s. if s = ''Account''
                          then Inr [\<lparr>x0 = 30, y0 = 40, x1 = 70, y1 = 50\<rparr>]
                          else Inr []),
      get_text = (\<lambda>r. Inr ''7''),
      get_blocks = (\<lambda>r. Inr []),
      page_rect = \<lparr>x0 = 0, y0 = 0, x1 = 600, y1 = 800\<rparr>,
      page_rotation = 90,
      to_image = Inl (Exn ''cannot render'')\<rparr>"

text \<open>A document of these pages, with one page that fails to load.\<close>

definition statement_doc :: document where
  "statement_doc = [Inr statement_page, Inl (Exn ''damaged page''), Inr summary_page, Inr scanned_page]"

definition account_secondary :: secondary where
  "account_secondary = \<lparr>sec_text = ''Account Number:'', expected_dx = 0, expected_dy = 90\<rparr>"

definition balance_offset :: value_offset where
  "balance_offset = \<lparr>value_dx = 80, value_dy = 0, value_w = 120, value_h = 14\<rparr>"

definition summary_match :: match where
  "summary_match = \<lparr>match_page = 2, match_anchor_text = ''Balance'',
     match_value_text = ''1234-5678-9012'',
     match_value_rect = \<lparr>x0 = 100, y0 = 300, x1 = 220, y1 = 314\<rparr>,
     match_target_rotation = 0\<rparr>"

text \<open>
  An image with three detections, the first of them blank, on which the value region
  below the second can be read; a page rendered to that image; an anchor whose captured
  text is "Total" and a value 200 pixels to its right.
\<close>

definition receipt_image :: pil_image where
  "receipt_image =
     \<lparr>image_width = 2550, image_height = 3300,
      full_readtext = Inr [([(10, 10), (40, 10), (40, 30), (10, 30)], ''  '', 0.2),
                           ([(50, 60), (250, 60), (250, 100), (50, 100)], ''TOTAL due '', 0.9),
                           ([(50, 160), (150, 160), (150, 200), (50, 200)], ''Total'', 0.8)],
      crop_readtext = (\<lambda>box. if box = (250, 60, 450, 110)
                              then Inr [([(0, 0), (90, 0), (90, 40), (0, 40)], '' 42.00'', 0.9),
                                        ([(100, 0), (150, 0), (150, 40), (100, 40)], '' '', 0.1),
                                        ([(100, 0), (150, 0), (150, 40), (100, 40)], ''EUR'', 0.7)]
                              else Inr [])\<rparr>"

definition receipt_page :: page where
  "receipt_page =
     \<lparr>search_for = (\<lambda>s. Inr []), get_text = (\<lambda>r. Inr []), get_blocks = (\<lambda>r. Inr []),
      page_rect = \<lparr>x0 = 0, y0 = 0, x1 = 612, y1 = 792\<rparr>, page_rotation = 0,
      to_image = Inr receipt_image\<rparr>"

definition receipt_doc :: document where
  "receipt_doc = [Inr statement_page, Inr receipt_page]"

definition total_anchor :: labeled_box where
  "total_anchor = \<lparr>box_name = Some ''Anchor: Total...'', box_type = ''anchor'', box_x = 100,
     box_y = 100, box_width = 80, box_height = 40, box_anchor_text = Some ''Total''\<rparr>"

definition total_value :: labeled_box where
  "total_value = \<lparr>box_name = Some ''Value 1'', box_type = ''value'', box_x = 300, box_y = 100,
     box_width = 200, box_height = 50, box_anchor_text = None\<rparr>"

definition receipt_match :: ocr_match where
  "receipt_match = \<lparr>ocr_match_page = 1, ocr_match_anchor_text = ''TOTAL due'',
     ocr_match_value_text = ''42.00 EUR'',
     ocr_match_value_rect = \<lparr>x0 = 60, y0 = 72 / 5, x1 = 108, y1 = 132 / 5\<rparr>,
     ocr_match_label_rect = None\<rparr>"

text \<open>
  A template with the label "Balance" of the sample and a label "Owner" that has a value
  but no anchor; three paths of which the second cannot be opened.
\<close>

definition label_rect_box :: labeled_box where
  "label_rect_box = \<lparr>box_name = Some ''Label'', box_type = ''label'', box_x = 90, box_y = 90,
     box_width = 300, box_height = 120, box_anchor_text = None\<rparr>"

definition balance_label :: template_label where
  "balance_label = \<lparr>tl_name = ''Balance'', tl_id = 1, tl_box = label_rect_box,
     tl_children = [balance_anchor, account_anchor, balance_value, other_value]\<rparr>"

definition owner_label :: template_label where
  "owner_label = \<lparr>tl_name = ''Owner'', tl_id = 2, tl_box = label_rect_box,
     tl_children = [other_value]\<rparr>"

definition sample_template :: "template_page list" where
  "sample_template = [\<lparr>tp_label_boxes = [balance_label, owner_label], tp_page_width = 600,
     tp_page_height = 800, tp_page_rotation = None\<rparr>]"

definition sample_files :: file_system where
  "sample_files =
     \<lparr>fitz_open = (\<lambda>p. if p = ''in/a.pdf'' \<or> p = ''in/c.pdf'' then Inr statement_doc
                         else Inl (Exn ''cannot open file'')),
      basename = drop 3\<rparr>"

definition sample_paths :: "string list" where
  "sample_paths = [''in/a.pdf'', ''in/b.pdf'', ''in/c.pdf'']"

text \<open>
  A template whose only label has a primary anchor without captured text and without a
  name.
\<close>

definition nameless_anchor :: labeled_box where
  "nameless_anchor = \<lparr>box_name = None, box_type = ''anchor'', box_x = 100, box_y = 100,
     box_width = 40, box_height = 10, box_anchor_text = None\<rparr>"

definition nameless_label :: template_label where
  "nameless_label = \<lparr>tl_name = ''Balance'', tl_id = 1, tl_box = label_rect_box,
     tl_children = [nameless_anchor, balance_value]\<rparr>"

definition nameless_template :: "template_page list" where
  "nameless_template = [\<lparr>tp_label_boxes = [nameless_label], tp_page_width = 600,
     tp_page_height = 800, tp_page_rotation = None\<rparr>]"

definition nameless_entry :: label_entry where
  "nameless_entry = \<lparr>label_name = ''Balance'', label_id = 1, label_box = label_rect_box,
     label_anchors = [nameless_anchor], label_values = [balance_value], label_page_width = 600,
     label_page_height = 800, label_page_rotation = 0\<rparr>"

text \<open>
  An image whose only detection has an empty text, while every crop of it can be read;
  a page rendered to that image.
\<close>

definition ghost_image :: pil_image where
  "ghost_image =
     \<lparr>image_width = 2550, image_height = 3300,
      full_readtext = Inr [([(50, 60), (250, 60), (250, 100), (50, 100)], [], 0.1)],
      crop_readtext = (\<lambda>box. Inr [([(0, 0), (90, 0), (90, 40), (0, 40)], ''42.00'', 0.9)])\<rparr>"

definition ghost_page :: page where
  "ghost_page =
     \<lparr>search_for = (\<lambda>s. Inr []), get_text = (\<lambda>r. Inr []), get_blocks = (\<lambda>r. Inr []),
      page_rect = \<lparr>x0 = 0, y0 = 0, x1 = 612, y1 = 792\<rparr>, page_rotation = 0,
      to_image = Inr ghost_image\<rparr>"

text \<open>
  The two entries collected from the sample template, and the row of the first sample
  document.
\<close>

definition owner_entry :: label_entry where
  "owner_entry = \<lparr>label_name = ''Owner'', label_id = 2, label_box = label_rect_box,
     label_anchors = [], label_values = [other_value], label_page_width = 600,
     label_page_height = 800, label_page_rotation = 0\<rparr>"

definition balance_entry :: label_entry where
  "balance_entry = \<lparr>label_name = ''Balance'', label_id = 1, label_box = label_rect_box,
     label_anchors = [balance_anchor, account_anchor], label_values = [balance_value, other_value],
     label_page_width = 600, label_page_height = 800, label_page_rotation = 0\<rparr>"

definition statement_row :: row_data where
  "statement_row = [(''PDF Filename'', ''a.pdf''), (''Balance_Anchor'', ''Balance''),
     (''Balance_Value'', ''1234-5678-9012''), (''Owner_Anchor'', []), (''Owner_Value'', [])]"

section \<open>Properties of the geometry transform\<close>

text \<open>
  C4, as the code has it: for every rotation value outside 0, 90, 180 and 270 the
  visual-to-raw transform returns the input rectangle unchanged (the final else branch);
  it has no failing branch.
\<close>

theorem transform_unsupported_rotation_identity:
  "rotation \<notin> {0, 90, 180, 270} \<Longrightarrow>
     transform_visual_to_pdf_coords x y w h page_width page_height rotation = (x, y, w, h)"
  by (simp add: transform_visual_to_pdf_coords_def)

theorem transform_unsupported_rotation_identity_witness:
  "(45::int) \<notin> {0, 90, 180, 270} \<and>
     transform_visual_to_pdf_coords 30 60 200 10 400 500 45 = (30, 60, 200, 10)"
  using transform_unsupported_rotation_identity [of 45 30 60 200 10 400 500] by simp

text \<open>
  C4 as stated fails: at rotation 45 the transform returns a rectangle, and it is the
  input rectangle.
\<close>

theorem transform_rotation_45_counterexample:
  "transform_visual_to_pdf_coords 30 60 200 10 400 500 45 = (30, 60, 200, 10)"
  by (simp add: transform_visual_to_pdf_coords_def)

text \<open>
  C5, as the code has it: on a page with rotation 90 the transform returns
  raw.x = visual.y, raw.y = page_width - visual.x - visual.width, raw.width = visual.height,
  raw.height = visual.width, where page_width is the width the caller passes; and the
  trainer passes the page's visual width (page.rect.width as recorded when the page was
  rendered), not its visual height.
\<close>

theorem transform_rotation_90:
  "transform_visual_to_pdf_coords x y w h page_width page_height 90
     = (y, page_width - x - w, h, w)
   \<and> (view_rotation page = 90 \<and> scale \<noteq> 0 \<longrightarrow>
        save_box_coords (render_current_page key page s) scale (bx, by, bw, bh) (Some key)
          = Inr (by / scale, rect_width page - bx / scale - bw / scale, bh / scale, bw / scale))"
  by (simp add: transform_visual_to_pdf_coords_def save_box_coords_def render_current_page_def
        Let_def)

theorem transform_rotation_90_witness:
  "view_rotation \<lparr>rect_width = 400, rect_height = 500, view_rotation = 90\<rparr> = 90 \<and> (1::real) \<noteq> 0
   \<and> save_box_coords
        (render_current_page (0, 0) \<lparr>rect_width = 400, rect_height = 500, view_rotation = 90\<rparr>
           \<lparr>page_rotations = Map.empty, page_dimensions = Map.empty\<rparr>)
        1 (30, 60, 200, 10) (Some (0, 0))
      = Inr (60, 170, 10, 200)"
  using transform_rotation_90 [of 0 0 0 0 0 0
      "\<lparr>rect_width = 400, rect_height = 500, view_rotation = 90\<rparr>" 1 "(0, 0)"
      "\<lparr>page_rotations = Map.empty, page_dimensions = Map.empty\<rparr>" 30 60 200 10]
  by simp

text \<open>
  C5 as stated fails on a page that is not square: for the visual rectangle
  (30, 60, 200, 10) on a page of visual size 400 by 500 with rotation 90 the stored
  raw.y is 170 = 400 - 30 - 200, not the visual height minus x and width, 500 - 30 - 200.
\<close>

theorem transform_rotation_90_counterexample:
  "save_box_coords
        (render_current_page (0, 0) \<lparr>rect_width = 400, rect_height = 500, view_rotation = 90\<rparr>
           \<lparr>page_rotations = Map.empty, page_dimensions = Map.empty\<rparr>)
        1 (30, 60, 200, 10) (Some (0, 0))
      \<noteq> Inr (60, rect_height \<lparr>rect_width = 400, rect_height = 500, view_rotation = 90\<rparr> - 30 - 200,
               10, 200)"
  by (simp add: transform_visual_to_pdf_coords_def save_box_coords_def render_current_page_def
        Let_def)

section \<open>Lemmas about the native matcher\<close>

lemma found_matching_iff:
  "found_matching P sec occ \<longleftrightarrow> (\<exists>Q \<in> set occ. within_tolerance P sec Q)"
  by (induction occ) auto

lemma within_tolerance_iff:
  "within_tolerance P sec Q \<longleftrightarrow>
     \<bar>x0 Q - x0 P - expected_dx sec\<bar> \<le> 50 \<and> \<bar>y0 Q - y0 P - expected_dy sec\<bar> \<le> 50"
  by (simp add: within_tolerance_def POSITION_TOLERANCE_def Let_def)

lemma all_secondary_match_True:
  "all_secondary_match pg P secs = Inr True \<Longrightarrow> sec \<in> set secs \<Longrightarrow>
     \<exists>occ. search_for pg (sec_text sec) = Inr occ \<and> found_matching P sec occ"
  by (induction secs) (auto split: sum.splits if_splits)

lemma set_secondary_anchors:
  "set (secondary_anchors A0 rest) =
     (\<lambda>a. \<lparr>sec_text = stripped_name a, expected_dx = box_x a - box_x A0,
             expected_dy = box_y a - box_y A0\<rparr>) ` {a \<in> set rest. stripped_name a \<noteq> []}"
  by (induction rest) (auto simp: Let_def)

lemma secondary_anchors_Nil:
  "(\<forall>a \<in> set rest. stripped_name a = []) \<Longrightarrow> secondary_anchors A0 rest = []"
  by (induction rest) (auto simp: Let_def)

lemma check_primary_cases:
  "check_primary L pg i t secs off P =
     (if raises L pg secs off P then
        (case all_secondary_match pg P secs of
           Inl e \<Rightarrow> Inl e
         | Inr b \<Rightarrow> (case extract_value_text L pg (value_rect_at L pg off P) of
                       Inl e \<Rightarrow> Inl e | Inr v \<Rightarrow> Inr None))
      else if verifies_with_text L pg secs off P then Inr (Some (match_from L pg i t off P))
      else Inr None)"
  by (auto simp: check_primary_def raises_def verifies_with_text_def match_from_def Let_def
           split: sum.splits)

lemma check_primary_raises: "raises L pg secs off P \<Longrightarrow> \<exists>e. check_primary L pg i t secs off P = Inl e"
  by (auto simp: check_primary_def raises_def Let_def split: sum.splits)

lemma check_primary_verifies:
  "\<not> raises L pg secs off P \<Longrightarrow> verifies_with_text L pg secs off P \<Longrightarrow>
     check_primary L pg i t secs off P = Inr (Some (match_from L pg i t off P))"
  by (simp add: check_primary_cases)

lemma check_primary_rejects:
  "\<not> raises L pg secs off P \<Longrightarrow> \<not> verifies_with_text L pg secs off P \<Longrightarrow>
     check_primary L pg i t secs off P = Inr None"
  by (simp add: check_primary_cases)

lemma find_append:
  "List.find Q (xs @ ys) = (case List.find Q xs of None \<Rightarrow> List.find Q ys | Some x \<Rightarrow> Some x)"
  by (induction xs) auto

lemma check_instances_find:
  "found_on_page (check_instances L pg i t secs off ps)
   = map_option (\<lambda>(i, pg, P). match_from L pg i t off P)
       (List.find (\<lambda>(i, pg, P). verifies_with_text L pg secs off P)
          (map (\<lambda>P. (i, pg, P)) (takeWhile (\<lambda>P. \<not> raises L pg secs off P) ps)))"
proof (induction ps)
  case Nil
  show ?case by (simp add: found_on_page_def)
next
  case (Cons P ps)
  show ?case
  proof (cases "raises L pg secs off P")
    case True
    then obtain e where "check_primary L pg i t secs off P = Inl e"
      using check_primary_raises by blast
    with True show ?thesis by (simp add: found_on_page_def)
  next
    case False
    show ?thesis
    proof (cases "verifies_with_text L pg secs off P")
      case True
      with False show ?thesis by (simp add: check_primary_verifies found_on_page_def)
    next
      case nv: False
      with False Cons show ?thesis by (simp add: check_primary_rejects)
    qed
  qed
qed

lemma search_page_eq:
  "search_page L pg i t secs off =
     (case primary_instances pg t of Inl e \<Rightarrow> Inl e
      | Inr ps \<Rightarrow> check_instances L pg i t secs off ps)"
  by (auto simp: search_page_def split: sum.splits)

lemma search_pages_step:
  "search_pages L t secs off k (Inr pg # doc) =
     (case found_on_page (search_page L pg k t secs off) of
        None \<Rightarrow> search_pages L t secs off (Suc k) doc
      | Some m \<Rightarrow> Some m)"
  by (simp add: found_on_page_def split: sum.splits option.splits)

lemma check_primary_Some:
  "check_primary L pg i t secs off P = Inr (Some m) \<Longrightarrow>
     all_secondary_match pg P secs = Inr True \<and> m = match_from L pg i t off P
     \<and> extract_value_text L pg (value_rect_at L pg off P) = Inr (match_value_text m)
     \<and> match_value_text m \<noteq> []"
  by (auto simp: check_primary_def match_from_def Let_def split: sum.splits if_splits)

lemma check_instances_Some:
  "check_instances L pg i t secs off ps = Inr (Some m) \<Longrightarrow>
     \<exists>P \<in> set ps. check_primary L pg i t secs off P = Inr (Some m)"
  by (induction ps) (auto split: sum.splits option.splits)

lemma check_instances_append:
  "check_instances L pg i t secs off ps = Inr (Some m) \<Longrightarrow>
     check_instances L pg i t secs off (ps @ later) = Inr (Some m)"
  by (induction ps) (auto split: sum.splits option.splits)

lemma search_page_Some:
  "search_page L pg i t secs off = Inr (Some m) \<Longrightarrow>
     \<exists>ps. primary_instances pg t = Inr ps \<and>
       (\<exists>P \<in> set ps. check_primary L pg i t secs off P = Inr (Some m))"
  by (auto simp: search_page_eq split: sum.splits dest: check_instances_Some)

lemma search_pages_Some:
  "search_pages L t secs off k doc = Some m \<Longrightarrow>
     k \<le> match_page m \<and> match_page m < k + length doc \<and>
     (\<exists>pg. doc ! (match_page m - k) = Inr pg \<and> search_page L pg (match_page m) t secs off = Inr (Some m))"
proof (induction doc arbitrary: k)
  case Nil
  then show ?case by simp
next
  case (Cons loaded doc)
  show ?case
  proof (cases "search_pages L t secs off (Suc k) doc = Some m")
    case True
    from Cons.IH [OF True] obtain pg where
      b: "Suc k \<le> match_page m" "match_page m < Suc k + length doc" and
      pg: "doc ! (match_page m - Suc k) = Inr pg"
          "search_page L pg (match_page m) t secs off = Inr (Some m)"
      by blast
    from b(1) have idx: "match_page m - k = Suc (match_page m - Suc k)" by simp
    have "(loaded # doc) ! (match_page m - k) = Inr pg"
      unfolding idx using pg(1) by simp
    with b pg(2) show ?thesis by auto
  next
    case False
    with Cons.prems obtain pg where pg: "loaded = Inr pg" "search_page L pg k t secs off = Inr (Some m)"
      by (auto split: sum.splits option.splits)
    from search_page_Some [OF pg(2)] obtain P where
      "check_primary L pg k t secs off P = Inr (Some m)" by blast
    then have "m = match_from L pg k t off P" by (simp add: check_primary_Some)
    then have "match_page m = k" by (simp add: match_from_def)
    with pg show ?thesis by simp
  qed
qed

lemma search_pages_prefix:
  "search_pages L t secs off k doc = Some m \<Longrightarrow>
     search_pages L t secs off k (take (Suc (match_page m - k)) doc @ later) = Some m"
proof (induction doc arbitrary: k)
  case Nil
  then show ?case by simp
next
  case (Cons loaded doc)
  show ?case
  proof (cases "\<exists>pg. loaded = Inr pg \<and> search_page L pg k t secs off = Inr (Some m)")
    case True
    then show ?thesis by auto
  next
    case False
    with Cons.prems have rest: "search_pages L t secs off (Suc k) doc = Some m"
      by (auto split: sum.splits option.splits)
    from search_pages_Some [OF rest] have "Suc k \<le> match_page m" by simp
    then have idx: "match_page m - k = Suc (match_page m - Suc k)" by simp
    from Cons.IH [OF rest] Cons.prems rest show ?thesis
      unfolding idx by (auto split: sum.splits option.splits)
  qed
qed

lemma split_from_word:
  "cur \<noteq> [] \<Longrightarrow>
     split_from cur s = (cur @ takeWhile (\<lambda>c. \<not> is_space c) s) # split_from [] (dropWhile (\<lambda>c. \<not> is_space c) s)"
proof (induction s arbitrary: cur)
  case Nil
  then show ?case by simp
next
  case (Cons c s)
  then show ?case
    by (cases "is_space c") (simp_all del: split_from.simps(2) add: split_from.simps(2) [of _ c s])
qed

lemma py_split_first:
  "py_split s = (if dropWhile is_space s = [] then []
                 else claimed_first_word s # py_split (dropWhile (\<lambda>c. \<not> is_space c) (dropWhile is_space s)))"
  unfolding py_split_def claimed_first_word_def
proof (induction s)
  case Nil
  show ?case by simp
next
  case (Cons c s)
  show ?case
  proof (cases "is_space c")
    case True
    with Cons show ?thesis by simp
  next
    case False
    then show ?thesis by (simp add: split_from_word)
  qed
qed

lemma py_strip_has_word: "py_strip s \<noteq> [] \<Longrightarrow> dropWhile is_space (py_strip s) \<noteq> []"
proof -
  assume ne: "py_strip s \<noteq> []"
  let ?d = "dropWhile is_space (rev (dropWhile is_space s))"
  from ne have "?d \<noteq> []" by (simp add: py_strip_def)
  then have "\<not> is_space (hd ?d)" by (rule hd_dropWhile)
  moreover from \<open>?d \<noteq> []\<close> have "hd ?d \<in> set (py_strip s)" by (simp add: py_strip_def)
  ultimately show ?thesis by (auto simp: dropWhile_eq_Nil_conv)
qed

lemma py_split_stripped:
  "py_strip s \<noteq> [] \<Longrightarrow>
     py_split (py_strip s) =
       claimed_first_word (py_strip s) #
       py_split (dropWhile (\<lambda>c. \<not> is_space c) (dropWhile is_space (py_strip s)))"
  using py_strip_has_word [of s] by (subst py_split_first) simp

lemma primary_instances_claimed:
  assumes "dropWhile is_space t \<noteq> []"
  shows "(case primary_instances pg t of Inl e \<Rightarrow> [] | Inr ps \<Rightarrow> ps) = claimed_occurrences pg t"
proof -
  from assms obtain rest where w: "py_split t = claimed_first_word t # rest"
    using py_split_first [of t] by simp
  show ?thesis
    by (simp add: primary_instances_def claimed_occurrences_def w split: sum.splits)
qed

lemma search_page_claimed:
  assumes "dropWhile is_space t \<noteq> []"
    and "list_all (\<lambda>P. \<not> raises L pg secs off P) (claimed_occurrences pg t)"
  shows "found_on_page (search_page L pg i t secs off)
         = map_option (\<lambda>(i, pg, P). match_from L pg i t off P)
             (List.find (\<lambda>(i, pg, P). verifies_with_text L pg secs off P)
                (map (\<lambda>P. (i, pg, P)) (claimed_occurrences pg t)))"
proof (cases "primary_instances pg t")
  case (Inl e)
  with primary_instances_claimed [OF assms(1), of pg] have "claimed_occurrences pg t = []"
    by simp
  with Inl show ?thesis by (simp add: search_page_eq found_on_page_def)
next
  case (Inr ps)
  with primary_instances_claimed [OF assms(1), of pg] have ps: "claimed_occurrences pg t = ps"
    by simp
  from assms(2) ps have "takeWhile (\<lambda>P. \<not> raises L pg secs off P) ps = ps"
    by (simp add: list_all_iff takeWhile_eq_all_conv)
  with check_instances_find [of L pg i t secs off ps] Inr ps show ?thesis
    by (simp add: search_page_eq)
qed

lemma claimed_first_match_alt:
  "claimed_first_match L t secs off k doc =
     map_option (\<lambda>(i, pg, P). match_from L pg i t off P)
       (List.find (\<lambda>(i, pg, P). verifies_with_text L pg secs off P)
          (claimed_candidates t k doc))"
  by (simp add: claimed_first_match_def split: option.splits prod.splits)

lemma claimed_candidates_Cons:
  "claimed_candidates t k (loaded # doc) =
     (case loaded of Inl e \<Rightarrow> [] | Inr pg \<Rightarrow> map (\<lambda>P. (k, pg, P)) (claimed_occurrences pg t))
     @ claimed_candidates t (Suc k) doc"
  by (simp add: claimed_candidates_def)

lemma search_pages_claimed:
  assumes "dropWhile is_space t \<noteq> []"
  shows "list_all (\<lambda>(i, pg, P). \<not> raises L pg secs off P) (claimed_candidates t k doc) \<Longrightarrow>
         search_pages L t secs off k doc = claimed_first_match L t secs off k doc"
proof (induction doc arbitrary: k)
  case Nil
  show ?case by (simp add: claimed_first_match_def claimed_candidates_def)
next
  case (Cons loaded doc)
  from Cons.prems have rest:
    "list_all (\<lambda>(i, pg, P). \<not> raises L pg secs off P) (claimed_candidates t (Suc k) doc)"
    by (simp add: claimed_candidates_Cons)
  have IH: "search_pages L t secs off (Suc k) doc = claimed_first_match L t secs off (Suc k) doc"
    by (rule Cons.IH [OF rest])
  show ?case
  proof (cases loaded)
    case (Inl e)
    with IH show ?thesis
      by (simp add: claimed_first_match_alt claimed_candidates_Cons)
  next
    case (Inr pg)
    from Cons.prems Inr
    have quiet: "list_all (\<lambda>P. \<not> raises L pg secs off P) (claimed_occurrences pg t)"
      by (simp add: claimed_candidates_Cons list_all_iff ball_Un)
    show ?thesis
      unfolding Inr search_pages_step search_page_claimed [OF assms quiet] IH
      by (simp add: claimed_first_match_alt claimed_candidates_Cons find_append
               split: option.splits)
  qed
qed

lemma claimed_candidates_member:
  "i < length doc \<Longrightarrow> doc ! i = Inr pg \<Longrightarrow> P \<in> set (claimed_occurrences pg t) \<Longrightarrow>
     (k + i, pg, P) \<in> set (claimed_candidates t k doc)"
proof (induction doc arbitrary: k i)
  case Nil
  then show ?case by simp
next
  case (Cons loaded doc)
  show ?case
  proof (cases i)
    case 0
    with Cons.prems show ?thesis by (simp add: claimed_candidates_Cons)
  next
    case (Suc j)
    with Cons.prems have "j < length doc" "doc ! j = Inr pg" by simp_all
    from Cons.IH [OF this Cons.prems(3), of "Suc k"] Suc show ?thesis
      by (simp add: claimed_candidates_Cons)
  qed
qed

lemma search_pages_sound:
  assumes "dropWhile is_space t \<noteq> []" "search_pages L t secs off 0 doc = Some m"
  shows "\<exists>pg P. (match_page m, pg, P) \<in> set (claimed_candidates t 0 doc)
           \<and> verifies_with_text L pg secs off P
           \<and> m = match_from L pg (match_page m) t off P"
proof -
  from search_pages_Some [OF assms(2)] obtain pg where
    i: "match_page m < length doc" and pg: "doc ! match_page m = Inr pg"
    and sp: "search_page L pg (match_page m) t secs off = Inr (Some m)"
    by auto
  from search_page_Some [OF sp] obtain ps P where
    ps: "primary_instances pg t = Inr ps" and P: "P \<in> set ps"
    and cp: "check_primary L pg (match_page m) t secs off P = Inr (Some m)"
    by blast
  from primary_instances_claimed [OF assms(1), of pg] ps P
  have occ: "P \<in> set (claimed_occurrences pg t)" by simp
  from claimed_candidates_member [OF i pg occ, of 0]
  have mem: "(match_page m, pg, P) \<in> set (claimed_candidates t 0 doc)" by simp
  from check_primary_Some [OF cp]
  have "verifies_with_text L pg secs off P" "m = match_from L pg (match_page m) t off P"
    by (simp_all add: verifies_with_text_def)
  with mem show ?thesis by blast
qed

lemma primary_instances_fallback:
  "py_strip s \<noteq> [] \<Longrightarrow> search_for pg (py_strip s) = Inr [] \<Longrightarrow>
     primary_instances pg (py_strip s) = search_for pg (claimed_first_word (py_strip s))"
  by (simp add: primary_instances_def py_split_stripped)

lemmas matcher_defs = find_box_on_pages_def stripped_name_def py_strip_def is_space_def
  search_page_def primary_instances_def check_primary_def within_tolerance_def
  POSITION_TOLERANCE_def value_rect_at_def value_offset_of_def extract_value_text_def
  rect_add_def fitz_std_def py_split_def Let_def

lemmas fixture_defs = balance_anchor_def account_anchor_def blank_anchor_def balance_value_def
  other_value_def statement_page_def summary_page_def scanned_page_def statement_doc_def
  account_secondary_def balance_offset_def summary_match_def

lemma statement_doc_match:
  "find_box_on_pages fitz_std statement_doc [balance_anchor, account_anchor] [balance_value, other_value]
     = Some summary_match"
  by (simp add: matcher_defs fixture_defs)

lemma accept_first_statement:
  "all_secondary_match statement_page \<lparr>x0 = 10, y0 = 10, x1 = 50, y1 = 20\<rparr> [account_secondary] = Inr True"
  by (simp add: matcher_defs fixture_defs)

lemma reject_second_statement:
  "all_secondary_match statement_page \<lparr>x0 = 9, y0 = 110, x1 = 49, y1 = 120\<rparr> [account_secondary] = Inr False"
  by (simp add: matcher_defs fixture_defs)

lemma summary_page_match:
  "check_primary fitz_std summary_page 2 ''Balance'' [account_secondary] balance_offset
     \<lparr>x0 = 20, y0 = 300, x1 = 60, y1 = 310\<rparr> = Inr (Some summary_match)"
  by (simp add: matcher_defs fixture_defs)

lemma statement_page_search:
  "search_for statement_page ''Balance'' =
     Inr [\<lparr>x0 = 10, y0 = 10, x1 = 50, y1 = 20\<rparr>, \<lparr>x0 = 9, y0 = 110, x1 = 49, y1 = 120\<rparr>]"
  "search_for statement_page ''Account Number:'' = Inr [\<lparr>x0 = 60, y0 = 150, x1 = 140, y1 = 160\<rparr>]"
  by (simp_all add: statement_page_def)

lemma stripped_fixture:
  "stripped_name balance_anchor = ''Balance''"
  "stripped_name account_anchor = ''Account Number:''"
  "stripped_name blank_anchor = []"
  by (simp_all add: stripped_name_def balance_anchor_def account_anchor_def blank_anchor_def
        py_strip_def is_space_def)

lemma secondary_fixture:
  "secondary_anchors balance_anchor [account_anchor] = [account_secondary]"
  "secondary_anchors balance_anchor [blank_anchor] = []"
  by (simp_all add: stripped_fixture account_secondary_def)
     (simp add: account_anchor_def balance_anchor_def)

lemma scanned_page_search:
  "search_for scanned_page ''Account Number:'' = Inr []"
  "search_for scanned_page ''Account'' = Inr [\<lparr>x0 = 30, y0 = 40, x1 = 70, y1 = 50\<rparr>]"
  by (simp_all add: scanned_page_def)

lemma first_word_fixture: "claimed_first_word ''Account Number:'' = ''Account''"
  by (simp add: claimed_first_word_def is_space_def)

lemma first_word_balance: "claimed_first_word ''Balance'' = ''Balance''"
  by (simp add: claimed_first_word_def is_space_def)

lemma empty_text_statement:
  "extract_value_text fitz_std statement_page r = Inr []"
  by (simp add: extract_value_text_def statement_page_def py_strip_def is_space_def)

lemma summary_instances_match:
  "check_instances fitz_std summary_page 2 ''Balance'' [account_secondary] balance_offset
     [\<lparr>x0 = 20, y0 = 300, x1 = 60, y1 = 310\<rparr>] = Inr (Some summary_match)"
  by (simp only: check_instances.simps summary_page_match sum.case option.case)

lemma offset_fixture: "value_offset_of balance_anchor balance_value = balance_offset"
  by (simp add: value_offset_of_def balance_offset_def balance_anchor_def balance_value_def)

section \<open>Lemmas about the OCR matcher\<close>





lemmas ocr_defs = find_box_with_ocr_def anchor_search_text_of_def startswith_def
  ocr_search_page_def word_matches_def py_lower_def lower_char_def py_strip_def is_space_def
  ocr_cropped_region_def py_int_def py_min_def py_max_def to_fitz_rect_def OCR_DPI_def
  value_offset_of_def py_replace_def Let_def

lemmas ocr_fixture_defs = receipt_image_def receipt_page_def receipt_doc_def total_anchor_def
  total_value_def receipt_match_def statement_page_def blank_image_def


lemma receipt_doc_match:
  "find_box_with_ocr True receipt_doc [total_anchor] [total_value] None = Inr (Some receipt_match)"
  by (simp add: ocr_defs ocr_fixture_defs)

lemma ghost_doc_nothing:
  "find_box_with_ocr True [Inr ghost_page] [total_anchor] [total_value] None = Inr None"
  by (simp add: ocr_defs ghost_page_def ghost_image_def total_anchor_def total_value_def)






section \<open>Lemmas about the extraction runs\<close>

lemma column_keys_differ: "a @ ''_Anchor'' \<noteq> b @ ''_Value''"
proof
  assume "a @ ''_Anchor'' = b @ ''_Value''"
  then have "last (a @ ''_Anchor'') = last (b @ ''_Value'')" by simp
  then show False by simp
qed

lemma record_label_cases:
  "record_label L pp pf doc label (row, s) =
     (case find_box_on_pages L doc (label_anchors label) (label_values label) of
        Some m \<Rightarrow>
          (AList.update (label_name label @ ''_Value'') (match_value_text m)
             (AList.update (label_name label @ ''_Anchor'') (match_anchor_text m) row),
           snd (record_label L pp pf doc label (row, s)))
      | None \<Rightarrow>
          (AList.update (label_name label @ ''_Value'') []
             (AList.update (label_name label @ ''_Anchor'') [] row), s))"
  by (simp add: record_label_def split: option.splits)

lemma record_label_other_key:
  "label_name label \<noteq> n \<Longrightarrow>
     map_of (fst (record_label L pp pf doc label (row, s))) (n @ ''_Anchor'') = map_of row (n @ ''_Anchor'')
     \<and> map_of (fst (record_label L pp pf doc label (row, s))) (n @ ''_Value'') = map_of row (n @ ''_Value'')"
  using column_keys_differ [of n "label_name label"] column_keys_differ [of "label_name label" n]
  by (auto simp: record_label_def update_conv' split: option.splits)

lemma fold_record_label_other_key:
  "\<forall>l \<in> set labels. label_name l \<noteq> n \<Longrightarrow>
     map_of (fst (fold (record_label L pp pf doc) labels (row, s))) (n @ ''_Anchor'') = map_of row (n @ ''_Anchor'')
     \<and> map_of (fst (fold (record_label L pp pf doc) labels (row, s))) (n @ ''_Value'') = map_of row (n @ ''_Value'')"
proof (induction labels arbitrary: row s)
  case Nil
  show ?case by simp
next
  case (Cons l labels)
  obtain row1 s1 where st: "record_label L pp pf doc l (row, s) = (row1, s1)"
    by (cases "record_label L pp pf doc l (row, s)")
  from Cons.prems have ne: "label_name l \<noteq> n" and rest: "\<forall>l \<in> set labels. label_name l \<noteq> n"
    by simp_all
  from record_label_other_key [OF ne, of L pp pf doc row s] st
  have k: "map_of row1 (n @ ''_Anchor'') = map_of row (n @ ''_Anchor'')"
          "map_of row1 (n @ ''_Value'') = map_of row (n @ ''_Value'')"
    by simp_all
  from Cons.IH [OF rest, of row1 s1] st k show ?case by simp
qed

lemma record_label_malformed:
  "label_anchors label = [] \<or> label_values label = [] \<Longrightarrow>
     record_label L pp pf doc label (row, s) =
       (AList.update (label_name label @ ''_Value'') []
          (AList.update (label_name label @ ''_Anchor'') [] row), s)"
  by (auto simp: record_label_def find_box_on_pages_def split: list.splits)

lemma fold_record_label_malformed:
  "label \<in> set labels \<Longrightarrow> distinct (map label_name labels) \<Longrightarrow>
   label_anchors label = [] \<or> label_values label = [] \<Longrightarrow>
     map_of (fst (fold (record_label L pp pf doc) labels (row, s))) (label_name label @ ''_Anchor'') = Some []
     \<and> map_of (fst (fold (record_label L pp pf doc) labels (row, s))) (label_name label @ ''_Value'') = Some []"
proof (induction labels arbitrary: row s)
  case Nil
  then show ?case by simp
next
  case (Cons l labels)
  obtain row1 s1 where st: "record_label L pp pf doc l (row, s) = (row1, s1)"
    by (cases "record_label L pp pf doc l (row, s)")
  show ?case
  proof (cases "l = label")
    case True
    from Cons.prems(2) True have others: "\<forall>l' \<in> set labels. label_name l' \<noteq> label_name label"
      by (auto simp: image_iff)
    from record_label_malformed [OF Cons.prems(3), of L pp pf doc row s] st True
    have "map_of row1 (label_name label @ ''_Anchor'') = Some []"
         "map_of row1 (label_name label @ ''_Value'') = Some []"
      using column_keys_differ [of "label_name label" "label_name label"]
      by (auto simp: update_conv')
    with fold_record_label_other_key [OF others, of L pp pf doc row1 s1] st show ?thesis
      by simp
  next
    case False
    with Cons.prems have "label \<in> set labels" "distinct (map label_name labels)" by simp_all
    from Cons.IH [OF this Cons.prems(3), of row1 s1] st show ?thesis by simp
  qed
qed

lemma add_label_distinct:
  "distinct (map label_name all_labels) \<Longrightarrow> distinct (map label_name (add_label pg lb all_labels))"
  by (auto simp: add_label_def)

lemma fold_add_label_distinct:
  "distinct (map label_name all_labels) \<Longrightarrow>
     distinct (map label_name (fold (add_label pg) lbs all_labels))"
  by (induction lbs arbitrary: all_labels) (simp_all add: add_label_distinct)

lemma fold_pages_distinct:
  "distinct (map label_name all_labels) \<Longrightarrow>
     distinct (map label_name
       (fold (\<lambda>ocr_page all_labels. fold (add_label ocr_page) (tp_label_boxes ocr_page) all_labels)
          template all_labels))"
  by (induction template arbitrary: all_labels) (simp_all add: fold_add_label_distinct)

lemma collect_labels_distinct: "distinct (map label_name (collect_labels template))"
  unfolding collect_labels_def by (rule fold_pages_distinct) simp

lemma record_label_results:
  "extraction_results (snd (record_label L pp pf doc label (row, s))) = extraction_results s"
  by (simp add: record_label_def split: option.splits)

lemma fold_record_label_results:
  "extraction_results (snd (fold (record_label L pp pf doc) labels (row, s))) = extraction_results s"
proof (induction labels arbitrary: row s)
  case Nil
  show ?case by simp
next
  case (Cons l labels)
  obtain row1 s1 where st: "record_label L pp pf doc l (row, s) = (row1, s1)"
    by (cases "record_label L pp pf doc l (row, s)")
  from record_label_results [of L pp pf doc l row s] st
  have "extraction_results s1 = extraction_results s" by simp
  with Cons.IH [of row1 s1] st show ?case by simp
qed

lemma extract_document_results:
  "extraction_results (extract_document L fs labels cols p doc s) =
     extraction_results s @
       [fst (fold (record_label L p (basename fs p) doc) labels
               ([(''PDF Filename'', basename fs p)], s))]"
proof -
  obtain row s1 where st: "fold (record_label L p (basename fs p) doc) labels
      ([(''PDF Filename'', basename fs p)], s) = (row, s1)"
    by (cases "fold (record_label L p (basename fs p) doc) labels
      ([(''PDF Filename'', basename fs p)], s)")
  from fold_record_label_results [of L p "basename fs p" doc labels
      "[(''PDF Filename'', basename fs p)]" s] st
  have "extraction_results s1 = extraction_results s" by simp
  with st show ?thesis by (simp add: extract_document_def Let_def)
qed

lemma extract_paths_all_open:
  "list_all (opens fs) ps \<Longrightarrow>
     snd (extract_paths L fs labels cols ps s) = None
     \<and> length (extraction_results (fst (extract_paths L fs labels cols ps s)))
         = length (extraction_results s) + length ps"
proof (induction ps arbitrary: s)
  case Nil
  then show ?case by simp
next
  case (Cons p ps)
  from Cons.prems obtain doc where doc: "fitz_open fs p = Inr doc"
    by (auto simp: opens_def split: sum.splits)
  from Cons.prems have rest: "list_all (opens fs) ps" by simp
  from Cons.IH [OF rest, of "extract_document L fs labels cols p doc s"] doc
  show ?case by (simp add: extract_document_results)
qed

lemma extract_paths_append:
  "list_all (opens fs) before \<Longrightarrow>
     extract_paths L fs labels cols (before @ rest) s =
       extract_paths L fs labels cols rest (fst (extract_paths L fs labels cols before s))"
proof (induction before arbitrary: s)
  case Nil
  then show ?case by simp
next
  case (Cons p before)
  from Cons.prems obtain doc where doc: "fitz_open fs p = Inr doc"
    by (auto simp: opens_def split: sum.splits)
  from Cons.prems have rest: "list_all (opens fs) before" by simp
  from Cons.IH [OF rest, of "extract_document L fs labels cols p doc s"] doc
  show ?case by simp
qed

lemma extract_paths_stops:
  "list_all (opens fs) before \<Longrightarrow> fitz_open fs bad = Inl e \<Longrightarrow>
     extract_paths L fs labels cols (before @ bad # after) s =
       (fst (extract_paths L fs labels cols before s), Some e)"
  by (simp add: extract_paths_append)

lemma run_extraction_stops:
  assumes "collect_labels template \<noteq> []" "list_all (opens fs) before" "fitz_open fs bad = Inl e"
  shows "run_extraction L fs template (before @ bad # after) s =
           (fst (extract_paths L fs (collect_labels template)
                   (''PDF Filename'' # column_headers (collect_labels template)) before fresh_run),
            Failed e)"
    and "length (extraction_results
           (fst (extract_paths L fs (collect_labels template)
                   (''PDF Filename'' # column_headers (collect_labels template)) before fresh_run)))
         = length before"
proof -
  show "run_extraction L fs template (before @ bad # after) s =
           (fst (extract_paths L fs (collect_labels template)
                   (''PDF Filename'' # column_headers (collect_labels template)) before fresh_run),
            Failed e)"
    using assms by (simp add: run_extraction_def Let_def extract_paths_stops)
  show "length (extraction_results
           (fst (extract_paths L fs (collect_labels template)
                   (''PDF Filename'' # column_headers (collect_labels template)) before fresh_run)))
         = length before"
    using extract_paths_all_open [OF assms(2), of L "collect_labels template"
        "''PDF Filename'' # column_headers (collect_labels template)" fresh_run]
    by (simp add: fresh_run_def)
qed

lemma ocr_record_labels_results:
  "extraction_results (snd (fst (ocr_record_labels L reader pp pf doc labels (row, s))))
     = extraction_results s"
proof (induction labels arbitrary: row s)
  case Nil
  show ?case by simp
next
  case (Cons l labels)
  show ?case
    by (cases "find_box_with_ocr reader doc (label_anchors l) (label_values l) (Some (label_box l))")
       (auto simp: Cons.IH split: option.splits)
qed

lemma ocr_extract_paths_stops:
  "list_all (opens fs) before \<Longrightarrow> fitz_open fs bad = Inl e \<Longrightarrow>
     \<exists>s' e'. ocr_extract_paths L reader fs labels cols (before @ bad # after) s = (s', Some e')
       \<and> length (extraction_results s') \<le> length (extraction_results s) + length before"
proof (induction before arbitrary: s)
  case Nil
  then show ?case by simp
next
  case (Cons p before)
  from Cons.prems obtain doc where doc: "fitz_open fs p = Inr doc"
    by (auto simp: opens_def split: sum.splits)
  from Cons.prems have rest: "list_all (opens fs) before" by simp
  let ?start = "([(''PDF Filename'', basename fs p)], s)"
  obtain row s1 err where st:
    "ocr_record_labels L reader p (basename fs p) doc labels ?start = ((row, s1), err)"
    by (metis prod.collapse)
  from ocr_record_labels_results [of L reader p "basename fs p" doc labels
      "[(''PDF Filename'', basename fs p)]" s] st
  have same: "extraction_results s1 = extraction_results s" by simp
  show ?case
  proof (cases err)
    case (Some e1)
    with doc st same show ?thesis by simp
  next
    case None
    let ?s2 = "s1\<lparr>table_rows := table_rows s1 @ [row_cells cols row],
                  extraction_results := extraction_results s1 @ [row]\<rparr>"
    from Cons.IH [OF rest Cons.prems(2), of ?s2] obtain s' e' where
      r: "ocr_extract_paths L reader fs labels cols (before @ bad # after) ?s2 = (s', Some e')"
         "length (extraction_results s') \<le> length (extraction_results ?s2) + length before"
      by blast
    from r(2) same have "length (extraction_results s') \<le> length (extraction_results s) + length (p # before)"
      by simp
    with r(1) doc st None show ?thesis by simp
  qed
qed

lemma ocr_run_extraction_stops:
  assumes "collect_labels template \<noteq> []" "list_all (opens fs) before" "fitz_open fs bad = Inl e"
  shows "\<exists>s' e'. ocr_run_extraction L True reader fs template (before @ bad # after) s = (s', Failed e')
           \<and> length (extraction_results s') \<le> length before"
proof -
  from ocr_extract_paths_stops [OF assms(2,3), of L reader "collect_labels template"
      "''PDF Filename'' # column_headers (collect_labels template)" after fresh_run]
  obtain s' e' where
    "ocr_extract_paths L reader fs (collect_labels template)
       (''PDF Filename'' # column_headers (collect_labels template)) (before @ bad # after) fresh_run
       = (s', Some e')"
    "length (extraction_results s') \<le> length before"
    by (auto simp: fresh_run_def)
  with assms(1) show ?thesis by (simp add: ocr_run_extraction_def Let_def)
qed

lemma extract_paths_rows:
  "row \<in> set (extraction_results (fst (extract_paths L fs labels cols paths s))) \<Longrightarrow>
     row \<in> set (extraction_results s) \<or>
     (\<exists>p doc s1. row = fst (fold (record_label L p (basename fs p) doc) labels
                             ([(''PDF Filename'', basename fs p)], s1)))"
proof (induction paths arbitrary: s)
  case Nil
  then show ?case by simp
next
  case (Cons p paths)
  show ?case
  proof (cases "fitz_open fs p")
    case (Inl e)
    with Cons.prems show ?thesis by simp
  next
    case (Inr doc)
    with Cons.prems have "row \<in> set (extraction_results
        (fst (extract_paths L fs labels cols paths (extract_document L fs labels cols p doc s))))"
      by simp
    from Cons.IH [OF this] show ?thesis
      by (auto simp: extract_document_results)
  qed
qed

lemma update_fresh: "k \<notin> fst ` set al \<Longrightarrow> AList.update k v al = al @ [(k, v)]"
  by (induction al) auto

lemma filename_key_differs:
  "a @ ''_Anchor'' \<noteq> ''PDF Filename''" "a @ ''_Value'' \<noteq> ''PDF Filename''"
proof -
  show "a @ ''_Anchor'' \<noteq> ''PDF Filename''"
  proof
    assume "a @ ''_Anchor'' = ''PDF Filename''"
    then have "last (a @ ''_Anchor'') = last ''PDF Filename''" by simp
    then show False by simp
  qed
  show "a @ ''_Value'' \<noteq> ''PDF Filename''"
  proof
    assume "a @ ''_Value'' = ''PDF Filename''"
    then have "take 2 (rev (a @ ''_Value'')) = take 2 (rev ''PDF Filename'')" by simp
    then show False by simp
  qed
qed

lemma label_cells_keys:
  "fst ` set (claimed_label_cells n found) = {n @ ''_Anchor'', n @ ''_Value''}"
proof (cases found)
  case None
  then show ?thesis by (simp add: claimed_label_cells_def)
next
  case (Some cells)
  obtain a b where "cells = (a, b)" by (cases cells)
  with Some show ?thesis by (simp add: claimed_label_cells_def)
qed

lemma record_label_row:
  assumes "label_name label @ ''_Anchor'' \<notin> fst ` set row"
    and "label_name label @ ''_Value'' \<notin> fst ` set row"
  shows "fst (record_label L pp pf doc label (row, s)) =
           row @ claimed_label_cells (label_name label)
                   (map_option (\<lambda>m. (match_anchor_text m, match_value_text m))
                      (find_box_on_pages L doc (label_anchors label) (label_values label)))"
  using assms column_keys_differ [of "label_name label" "label_name label"]
  by (auto simp: record_label_def claimed_label_cells_def update_fresh split: option.splits)

lemma fresh_keys_step:
  assumes "distinct (map label_name (l # labels))"
    and "\<forall>l' \<in> set (l # labels). label_name l' @ ''_Anchor'' \<notin> fst ` set row
                                \<and> label_name l' @ ''_Value'' \<notin> fst ` set row"
  shows "\<forall>l' \<in> set labels.
           label_name l' @ ''_Anchor'' \<notin> fst ` set (row @ claimed_label_cells (label_name l) found)
           \<and> label_name l' @ ''_Value'' \<notin> fst ` set (row @ claimed_label_cells (label_name l) found)"
proof
  fix l' assume mem: "l' \<in> set labels"
  then have "label_name l' \<in> set (map label_name labels)" by simp
  with assms(1) have ne: "label_name l' \<noteq> label_name l" by auto
  from assms(2) mem have old: "label_name l' @ ''_Anchor'' \<notin> fst ` set row"
    "label_name l' @ ''_Value'' \<notin> fst ` set row" by simp_all
  from ne column_keys_differ [of "label_name l'" "label_name l"]
    column_keys_differ [of "label_name l" "label_name l'"]
  have "label_name l' @ ''_Anchor'' \<notin> {label_name l @ ''_Anchor'', label_name l @ ''_Value''}"
    "label_name l' @ ''_Value'' \<notin> {label_name l @ ''_Anchor'', label_name l @ ''_Value''}"
    by auto
  with old show "label_name l' @ ''_Anchor'' \<notin> fst ` set (row @ claimed_label_cells (label_name l) found)
           \<and> label_name l' @ ''_Value'' \<notin> fst ` set (row @ claimed_label_cells (label_name l) found)"
    by (simp add: image_Un label_cells_keys)
qed

lemma fold_record_label_row:
  "distinct (map label_name labels) \<Longrightarrow>
   \<forall>l \<in> set labels. label_name l @ ''_Anchor'' \<notin> fst ` set row
                    \<and> label_name l @ ''_Value'' \<notin> fst ` set row \<Longrightarrow>
   fst (fold (record_label L pp pf doc) labels (row, s)) =
     row @ concat (map (\<lambda>label.
                     claimed_label_cells (label_name label)
                       (map_option (\<lambda>m. (match_anchor_text m, match_value_text m))
                          (find_box_on_pages L doc (label_anchors label) (label_values label))))
                  labels)"
proof (induction labels arbitrary: row s)
  case Nil
  show ?case by simp
next
  case (Cons l labels)
  let ?found = "map_option (\<lambda>m. (match_anchor_text m, match_value_text m))
                  (find_box_on_pages L doc (label_anchors l) (label_values l))"
  obtain row1 s1 where st: "record_label L pp pf doc l (row, s) = (row1, s1)"
    by (cases "record_label L pp pf doc l (row, s)")
  from Cons.prems(2) have "label_name l @ ''_Anchor'' \<notin> fst ` set row"
    "label_name l @ ''_Value'' \<notin> fst ` set row" by simp_all
  from record_label_row [OF this, of L pp pf doc s] st
  have row1: "row1 = row @ claimed_label_cells (label_name l) ?found" by simp
  from Cons.prems(1) have d: "distinct (map label_name labels)" by simp
  from fresh_keys_step [OF Cons.prems(1) Cons.prems(2), of ?found]
  have fresh: "\<forall>l' \<in> set labels. label_name l' @ ''_Anchor'' \<notin> fst ` set row1
                                \<and> label_name l' @ ''_Value'' \<notin> fst ` set row1"
    unfolding row1 .
  from Cons.IH [OF d fresh, of s1] st row1 show ?case by simp
qed

lemma record_label_table:
  "table_rows (snd (record_label L pp pf doc label (row, s))) = table_rows s"
  by (simp add: record_label_def split: option.splits)

lemma fold_record_label_table:
  "table_rows (snd (fold (record_label L pp pf doc) labels (row, s))) = table_rows s"
proof (induction labels arbitrary: row s)
  case Nil
  show ?case by simp
next
  case (Cons l labels)
  obtain row1 s1 where st: "record_label L pp pf doc l (row, s) = (row1, s1)"
    by (cases "record_label L pp pf doc l (row, s)")
  from record_label_table [of L pp pf doc l row s] st
  have "table_rows s1 = table_rows s" by simp
  with Cons.IH [of row1 s1] st show ?case by simp
qed

lemma first_cell_fresh:
  "\<forall>l \<in> set labels. label_name l @ ''_Anchor'' \<notin> fst ` set [(''PDF Filename'', pf)]
                    \<and> label_name l @ ''_Value'' \<notin> fst ` set [(''PDF Filename'', pf)]"
  using filename_key_differs by simp

lemma extract_document_exact:
  assumes "distinct (map label_name labels)"
  shows "extraction_results (extract_document L fs labels cols p doc s) =
           extraction_results s @ [claimed_row L fs labels p doc]"
    and "table_rows (extract_document L fs labels cols p doc s) =
           table_rows s @ [row_cells cols (claimed_row L fs labels p doc)]"
proof -
  let ?start = "([(''PDF Filename'', basename fs p)], s)"
  obtain row s1 where st: "fold (record_label L p (basename fs p) doc) labels ?start = (row, s1)"
    by (cases "fold (record_label L p (basename fs p) doc) labels ?start")
  from fold_record_label_row [OF assms first_cell_fresh [where pf = "basename fs p"],
      where L = L and pp = p and pf = "basename fs p" and doc = doc and s = s] st
  have row: "row = claimed_row L fs labels p doc" by (simp add: claimed_row_def)
  from fold_record_label_results [of L p "basename fs p" doc labels
      "[(''PDF Filename'', basename fs p)]" s] st
  have r: "extraction_results s1 = extraction_results s" by simp
  from fold_record_label_table [of L p "basename fs p" doc labels
      "[(''PDF Filename'', basename fs p)]" s] st
  have t: "table_rows s1 = table_rows s" by simp
  from st row r show "extraction_results (extract_document L fs labels cols p doc s) =
           extraction_results s @ [claimed_row L fs labels p doc]"
    by (simp add: extract_document_def Let_def)
  from st row t show "table_rows (extract_document L fs labels cols p doc s) =
           table_rows s @ [row_cells cols (claimed_row L fs labels p doc)]"
    by (simp add: extract_document_def Let_def)
qed

lemma opened_documents:
  "map (fitz_open fs) ps = map Inr docs \<Longrightarrow> list_all (opens fs) ps \<and> length docs = length ps"
proof (induction ps arbitrary: docs)
  case Nil
  then show ?case by simp
next
  case (Cons p ps)
  then obtain d ds where docs: "docs = d # ds" by (cases docs) auto
  with Cons.prems have "fitz_open fs p = Inr d" "map (fitz_open fs) ps = map Inr ds" by simp_all
  with Cons.IH [of ds] docs show ?case by (simp add: opens_def)
qed

lemma extract_paths_exact:
  assumes "distinct (map label_name labels)"
  shows "map (fitz_open fs) ps = map Inr docs \<Longrightarrow>
     snd (extract_paths L fs labels cols ps s) = None
     \<and> extraction_results (fst (extract_paths L fs labels cols ps s)) =
         extraction_results s @ claimed_rows L fs labels ps docs
     \<and> table_rows (fst (extract_paths L fs labels cols ps s)) =
         table_rows s @ map (row_cells cols) (claimed_rows L fs labels ps docs)"
proof (induction ps arbitrary: s docs)
  case Nil
  then show ?case by (simp add: claimed_rows_def)
next
  case (Cons p ps)
  then obtain d ds where docs: "docs = d # ds" by (cases docs) auto
  with Cons.prems have op: "fitz_open fs p = Inr d" and rest: "map (fitz_open fs) ps = map Inr ds"
    by simp_all
  from Cons.IH [OF rest, of "extract_document L fs labels cols p d s"] op docs
  show ?case
    by (simp add: extract_document_exact [OF assms] claimed_rows_def)
qed

lemma run_extraction_exact_stop:
  assumes "collect_labels template \<noteq> []" "map (fitz_open fs) before = map Inr docs"
    "fitz_open fs bad = Inl e"
  shows "snd (run_extraction L fs template (before @ bad # after) s) = Failed e"
    and "extraction_results (fst (run_extraction L fs template (before @ bad # after) s)) =
           claimed_rows L fs (collect_labels template) before docs"
    and "table_rows (fst (run_extraction L fs template (before @ bad # after) s)) =
           map (row_cells (''PDF Filename'' # column_headers (collect_labels template)))
             (claimed_rows L fs (collect_labels template) before docs)"
    and "run_extraction L fs template (before @ bad # after') s =
           run_extraction L fs template (before @ bad # after) s"
proof -
  let ?labels = "collect_labels template"
  let ?cols = "''PDF Filename'' # column_headers ?labels"
  from opened_documents [OF assms(2)] have op: "list_all (opens fs) before" by simp
  have run: "\<And>rest. run_extraction L fs template (before @ bad # rest) s =
           (fst (extract_paths L fs ?labels ?cols before fresh_run), Failed e)"
    by (rule run_extraction_stops(1) [OF assms(1) op assms(3)])
  from extract_paths_exact [OF collect_labels_distinct assms(2),
      where L = L and cols = ?cols and s = fresh_run]
  have ex: "extraction_results (fst (extract_paths L fs ?labels ?cols before fresh_run)) =
              claimed_rows L fs ?labels before docs"
    "table_rows (fst (extract_paths L fs ?labels ?cols before fresh_run)) =
              map (row_cells ?cols) (claimed_rows L fs ?labels before docs)"
    by (simp_all add: fresh_run_def)
  show "snd (run_extraction L fs template (before @ bad # after) s) = Failed e"
    by (simp add: run)
  show "extraction_results (fst (run_extraction L fs template (before @ bad # after) s)) =
           claimed_rows L fs ?labels before docs"
    by (simp add: run ex)
  show "table_rows (fst (run_extraction L fs template (before @ bad # after) s)) =
           map (row_cells ?cols) (claimed_rows L fs ?labels before docs)"
    by (simp add: run ex)
  show "run_extraction L fs template (before @ bad # after') s =
           run_extraction L fs template (before @ bad # after) s"
    by (simp add: run)
qed

lemma run_extraction_exact_complete:
  assumes "collect_labels template \<noteq> []" "paths \<noteq> []" "map (fitz_open fs) paths = map Inr docs"
  shows "snd (run_extraction L fs template paths s) =
           Complete (length paths) (extracted_count (fst (run_extraction L fs template paths s)))"
    and "extraction_results (fst (run_extraction L fs template paths s)) =
           claimed_rows L fs (collect_labels template) paths docs"
    and "table_rows (fst (run_extraction L fs template paths s)) =
           map (row_cells (''PDF Filename'' # column_headers (collect_labels template)))
             (claimed_rows L fs (collect_labels template) paths docs)"
proof -
  let ?labels = "collect_labels template"
  let ?cols = "''PDF Filename'' # column_headers ?labels"
  let ?r = "extract_paths L fs ?labels ?cols paths fresh_run"
  from extract_paths_exact [OF collect_labels_distinct assms(3),
      where L = L and cols = ?cols and s = fresh_run]
  have ex: "snd ?r = None"
    "extraction_results (fst ?r) = claimed_rows L fs ?labels paths docs"
    "table_rows (fst ?r) = map (row_cells ?cols) (claimed_rows L fs ?labels paths docs)"
    by (simp_all add: fresh_run_def)
  obtain s' where s': "?r = (s', None)" using ex(1) by (cases ?r) auto
  then have run: "run_extraction L fs template paths s =
      (s', Complete (length paths) (extracted_count s'))"
    using assms(1,2) by (simp add: run_extraction_def Let_def)
  from run show "snd (run_extraction L fs template paths s) =
           Complete (length paths) (extracted_count (fst (run_extraction L fs template paths s)))"
    by simp
  from run ex(2) s' show "extraction_results (fst (run_extraction L fs template paths s)) =
           claimed_rows L fs ?labels paths docs"
    by simp
  from run ex(3) s' show "table_rows (fst (run_extraction L fs template paths s)) =
           map (row_cells ?cols) (claimed_rows L fs ?labels paths docs)"
    by simp
qed

lemma ocr_record_labels_table:
  "table_rows (snd (fst (ocr_record_labels L reader pp pf doc labels (row, s)))) = table_rows s"
proof (induction labels arbitrary: row s)
  case Nil
  show ?case by simp
next
  case (Cons l labels)
  show ?case
    by (cases "find_box_with_ocr reader doc (label_anchors l) (label_values l) (Some (label_box l))")
       (auto simp: Cons.IH split: option.splits)
qed

lemma ocr_record_labels_row:
  "distinct (map label_name labels) \<Longrightarrow>
   \<forall>l \<in> set labels. label_name l @ ''_Anchor'' \<notin> fst ` set row
                    \<and> label_name l @ ''_Value'' \<notin> fst ` set row \<Longrightarrow>
   ocr_labels_return reader doc labels \<Longrightarrow>
   snd (ocr_record_labels L reader pp pf doc labels (row, s)) = None
   \<and> fst (fst (ocr_record_labels L reader pp pf doc labels (row, s))) =
       row @ concat (map (\<lambda>label.
                       claimed_label_cells (label_name label)
                         (case find_box_with_ocr reader doc (label_anchors label)
                                 (label_values label) (Some (label_box label)) of
                            Inl e \<Rightarrow> None
                          | Inr None \<Rightarrow> None
                          | Inr (Some m) \<Rightarrow> Some (ocr_match_anchor_text m, ocr_match_value_text m)))
                    labels)"
proof (induction labels arbitrary: row s)
  case Nil
  show ?case by simp
next
  case (Cons l labels)
  let ?f = "find_box_with_ocr reader doc (label_anchors l) (label_values l) (Some (label_box l))"
  let ?found = "case ?f of Inl e \<Rightarrow> None | Inr None \<Rightarrow> None
                | Inr (Some m) \<Rightarrow> Some (ocr_match_anchor_text m, ocr_match_value_text m)"
  from Cons.prems(3) obtain found where f: "?f = Inr found"
    by (cases ?f) (simp_all add: ocr_labels_return_def)
  from Cons.prems(3) have ret: "ocr_labels_return reader doc labels"
    by (simp add: ocr_labels_return_def)
  from Cons.prems(1) have d: "distinct (map label_name labels)" by simp
  from Cons.prems(2) have a: "label_name l @ ''_Anchor'' \<notin> fst ` set row"
    and v: "label_name l @ ''_Value'' \<notin> fst ` set row" by simp_all
  from v column_keys_differ [of "label_name l" "label_name l"]
  have v': "\<And>x. label_name l @ ''_Value'' \<notin> fst ` set (row @ [(label_name l @ ''_Anchor'', x)])"
    by auto
  have "\<exists>s1. ocr_record_labels L reader pp pf doc (l # labels) (row, s) =
          ocr_record_labels L reader pp pf doc labels
            (row @ claimed_label_cells (label_name l) ?found, s1)"
  proof (cases found)
    case None
    with f a v' show ?thesis by (auto simp: claimed_label_cells_def update_fresh)
  next
    case (Some m)
    with f a v' show ?thesis by (auto simp: claimed_label_cells_def update_fresh)
  qed
  then obtain s1 where step: "ocr_record_labels L reader pp pf doc (l # labels) (row, s) =
          ocr_record_labels L reader pp pf doc labels
            (row @ claimed_label_cells (label_name l) ?found, s1)"
    by blast
  from fresh_keys_step [OF Cons.prems(1) Cons.prems(2), of ?found]
  have fresh: "\<forall>l' \<in> set labels.
      label_name l' @ ''_Anchor'' \<notin> fst ` set (row @ claimed_label_cells (label_name l) ?found)
      \<and> label_name l' @ ''_Value'' \<notin> fst ` set (row @ claimed_label_cells (label_name l) ?found)" .
  from Cons.IH [OF d fresh ret, of s1] show ?case
    unfolding step by simp
qed

lemma ocr_record_labels_raises:
  "\<not> ocr_labels_return reader doc labels \<Longrightarrow>
     \<exists>e. snd (ocr_record_labels L reader pp pf doc labels (row, s)) = Some e"
proof (induction labels arbitrary: row s)
  case Nil
  then show ?case by (simp add: ocr_labels_return_def)
next
  case (Cons l labels)
  let ?f = "find_box_with_ocr reader doc (label_anchors l) (label_values l) (Some (label_box l))"
  show ?case
  proof (cases ?f)
    case (Inl e)
    then show ?thesis by simp
  next
    case (Inr found)
    with Cons.prems have "\<not> ocr_labels_return reader doc labels"
      by (simp add: ocr_labels_return_def)
    from Cons.IH [OF this] Inr show ?thesis
      by (cases found) simp_all
  qed
qed

lemma ocr_extract_paths_exact:
  assumes "distinct (map label_name labels)"
  shows "map (fitz_open fs) ps = map Inr docs \<Longrightarrow>
     list_all (\<lambda>doc. ocr_labels_return reader doc labels) docs \<Longrightarrow>
     snd (ocr_extract_paths L reader fs labels cols ps s) = None
     \<and> extraction_results (fst (ocr_extract_paths L reader fs labels cols ps s)) =
         extraction_results s @ claimed_ocr_rows reader fs labels ps docs
     \<and> table_rows (fst (ocr_extract_paths L reader fs labels cols ps s)) =
         table_rows s @ map (row_cells cols) (claimed_ocr_rows reader fs labels ps docs)"
proof (induction ps arbitrary: s docs)
  case Nil
  then show ?case by (simp add: claimed_ocr_rows_def)
next
  case (Cons p ps)
  then obtain d ds where docs: "docs = d # ds" by (cases docs) auto
  with Cons.prems have op: "fitz_open fs p = Inr d" and rest: "map (fitz_open fs) ps = map Inr ds"
    and ret: "ocr_labels_return reader d labels"
    and rets: "list_all (\<lambda>doc. ocr_labels_return reader doc labels) ds"
    by simp_all
  let ?start = "([(''PDF Filename'', basename fs p)], s)"
  let ?r = "ocr_record_labels L reader p (basename fs p) d labels ?start"
  obtain row s1 err where st: "?r = ((row, s1), err)" by (metis prod.collapse)
  from ocr_record_labels_row [OF assms first_cell_fresh [where pf = "basename fs p"] ret,
      where L = L and pp = p and pf = "basename fs p" and s = s] st
  have err: "err = None" and row: "row = claimed_ocr_row reader fs labels p d"
    by (simp_all add: claimed_ocr_row_def)
  from ocr_record_labels_results [of L reader p "basename fs p" d labels
      "[(''PDF Filename'', basename fs p)]" s] st
  have r: "extraction_results s1 = extraction_results s" by simp
  from ocr_record_labels_table [of L reader p "basename fs p" d labels
      "[(''PDF Filename'', basename fs p)]" s] st
  have t: "table_rows s1 = table_rows s" by simp
  let ?s2 = "s1\<lparr>table_rows := table_rows s1 @ [row_cells cols row],
                extraction_results := extraction_results s1 @ [row]\<rparr>"
  from op st err have step: "ocr_extract_paths L reader fs labels cols (p # ps) s =
      ocr_extract_paths L reader fs labels cols ps ?s2"
    by simp
  from Cons.IH [OF rest rets, of ?s2] docs row r t show ?case
    unfolding step by (simp add: claimed_ocr_rows_def)
qed

lemma ocr_extract_paths_append:
  assumes "distinct (map label_name labels)"
  shows "map (fitz_open fs) ps = map Inr docs \<Longrightarrow>
     list_all (\<lambda>doc. ocr_labels_return reader doc labels) docs \<Longrightarrow>
     ocr_extract_paths L reader fs labels cols (ps @ rest) s =
       ocr_extract_paths L reader fs labels cols rest
         (fst (ocr_extract_paths L reader fs labels cols ps s))"
proof (induction ps arbitrary: s docs)
  case Nil
  then show ?case by simp
next
  case (Cons p ps)
  then obtain d ds where docs: "docs = d # ds" by (cases docs) auto
  with Cons.prems have op: "fitz_open fs p = Inr d" and rest: "map (fitz_open fs) ps = map Inr ds"
    and ret: "ocr_labels_return reader d labels"
    and rets: "list_all (\<lambda>doc. ocr_labels_return reader doc labels) ds"
    by simp_all
  let ?start = "([(''PDF Filename'', basename fs p)], s)"
  let ?r = "ocr_record_labels L reader p (basename fs p) d labels ?start"
  obtain row s1 err where st: "?r = ((row, s1), err)" by (metis prod.collapse)
  from ocr_record_labels_row [OF assms first_cell_fresh [where pf = "basename fs p"] ret,
      where L = L and pp = p and pf = "basename fs p" and s = s] st
  have err: "err = None" by simp
  let ?s2 = "s1\<lparr>table_rows := table_rows s1 @ [row_cells cols row],
                extraction_results := extraction_results s1 @ [row]\<rparr>"
  from op st err have step: "\<And>qs. ocr_extract_paths L reader fs labels cols (p # qs) s =
      ocr_extract_paths L reader fs labels cols qs ?s2"
    by simp
  from Cons.IH [OF rest rets, of ?s2] show ?case
    by (simp only: append_Cons step)
qed

lemma ocr_extract_paths_raised:
  assumes "fitz_open fs bad = Inr doc" "\<not> ocr_labels_return reader doc labels"
  shows "\<exists>s' e'. (\<forall>after. ocr_extract_paths L reader fs labels cols (bad # after) s = (s', Some e'))
           \<and> extraction_results s' = extraction_results s \<and> table_rows s' = table_rows s"
proof -
  let ?start = "([(''PDF Filename'', basename fs bad)], s)"
  let ?r = "ocr_record_labels L reader bad (basename fs bad) doc labels ?start"
  obtain row s1 err where st: "?r = ((row, s1), err)" by (metis prod.collapse)
  from ocr_record_labels_raises [OF assms(2), of L bad "basename fs bad"
      "[(''PDF Filename'', basename fs bad)]" s] st
  obtain e' where err: "err = Some e'" by auto
  from ocr_record_labels_results [of L reader bad "basename fs bad" doc labels
      "[(''PDF Filename'', basename fs bad)]" s] st
  have r: "extraction_results s1 = extraction_results s" by simp
  from ocr_record_labels_table [of L reader bad "basename fs bad" doc labels
      "[(''PDF Filename'', basename fs bad)]" s] st
  have t: "table_rows s1 = table_rows s" by simp
  from assms(1) st err
  have "\<forall>after. ocr_extract_paths L reader fs labels cols (bad # after) s = (s1, Some e')"
    by simp
  with r t show ?thesis by blast
qed

lemma ocr_run_extraction_exact_stop:
  assumes "collect_labels template \<noteq> []" "map (fitz_open fs) before = map Inr docs"
    "list_all (\<lambda>doc. ocr_labels_return reader doc (collect_labels template)) docs"
    "fitz_open fs bad = Inl e"
  shows "snd (ocr_run_extraction L True reader fs template (before @ bad # after) s) = Failed e"
    and "extraction_results (fst (ocr_run_extraction L True reader fs template (before @ bad # after) s)) =
           claimed_ocr_rows reader fs (collect_labels template) before docs"
    and "table_rows (fst (ocr_run_extraction L True reader fs template (before @ bad # after) s)) =
           map (row_cells (''PDF Filename'' # column_headers (collect_labels template)))
             (claimed_ocr_rows reader fs (collect_labels template) before docs)"
    and "ocr_run_extraction L True reader fs template (before @ bad # after') s =
           ocr_run_extraction L True reader fs template (before @ bad # after) s"
proof -
  let ?labels = "collect_labels template"
  let ?cols = "''PDF Filename'' # column_headers ?labels"
  let ?s1 = "fst (ocr_extract_paths L reader fs ?labels ?cols before fresh_run)"
  have paths: "\<And>rest. ocr_extract_paths L reader fs ?labels ?cols (before @ bad # rest) fresh_run
      = (?s1, Some e)"
    using ocr_extract_paths_append [OF collect_labels_distinct assms(2) assms(3),
        where L = L and cols = ?cols and s = fresh_run]
    by (simp add: assms(4))
  have run: "\<And>rest. ocr_run_extraction L True reader fs template (before @ bad # rest) s =
      (?s1, Failed e)"
    using assms(1) by (simp add: ocr_run_extraction_def Let_def paths)
  from ocr_extract_paths_exact [OF collect_labels_distinct assms(2) assms(3),
      where L = L and cols = ?cols and s = fresh_run]
  have ex: "extraction_results ?s1 = claimed_ocr_rows reader fs ?labels before docs"
    "table_rows ?s1 = map (row_cells ?cols) (claimed_ocr_rows reader fs ?labels before docs)"
    by (simp_all add: fresh_run_def)
  show "snd (ocr_run_extraction L True reader fs template (before @ bad # after) s) = Failed e"
    by (simp add: run)
  show "extraction_results (fst (ocr_run_extraction L True reader fs template (before @ bad # after) s)) =
           claimed_ocr_rows reader fs ?labels before docs"
    by (simp add: run ex)
  show "table_rows (fst (ocr_run_extraction L True reader fs template (before @ bad # after) s)) =
           map (row_cells ?cols) (claimed_ocr_rows reader fs ?labels before docs)"
    by (simp add: run ex)
  show "ocr_run_extraction L True reader fs template (before @ bad # after') s =
           ocr_run_extraction L True reader fs template (before @ bad # after) s"
    by (simp add: run)
qed

lemma ocr_run_extraction_exact_raise:
  assumes "collect_labels template \<noteq> []" "map (fitz_open fs) before = map Inr docs"
    "list_all (\<lambda>doc. ocr_labels_return reader doc (collect_labels template)) docs"
    "fitz_open fs bad = Inr doc" "\<not> ocr_labels_return reader doc (collect_labels template)"
  shows "\<exists>e'. snd (ocr_run_extraction L True reader fs template (before @ bad # after) s) = Failed e'"
    and "extraction_results (fst (ocr_run_extraction L True reader fs template (before @ bad # after) s)) =
           claimed_ocr_rows reader fs (collect_labels template) before docs"
    and "table_rows (fst (ocr_run_extraction L True reader fs template (before @ bad # after) s)) =
           map (row_cells (''PDF Filename'' # column_headers (collect_labels template)))
             (claimed_ocr_rows reader fs (collect_labels template) before docs)"
    and "ocr_run_extraction L True reader fs template (before @ bad # after') s =
           ocr_run_extraction L True reader fs template (before @ bad # after) s"
proof -
  let ?labels = "collect_labels template"
  let ?cols = "''PDF Filename'' # column_headers ?labels"
  let ?s1 = "fst (ocr_extract_paths L reader fs ?labels ?cols before fresh_run)"
  from ocr_extract_paths_raised [OF assms(4) assms(5), of L ?cols ?s1]
  obtain s' e' where
    bad: "\<And>rest. ocr_extract_paths L reader fs ?labels ?cols (bad # rest) ?s1 = (s', Some e')"
    and same: "extraction_results s' = extraction_results ?s1" "table_rows s' = table_rows ?s1"
    by blast
  have paths: "\<And>rest. ocr_extract_paths L reader fs ?labels ?cols (before @ bad # rest) fresh_run
      = (s', Some e')"
    using ocr_extract_paths_append [OF collect_labels_distinct assms(2) assms(3),
        where L = L and cols = ?cols and s = fresh_run]
    by (simp only: bad)
  have run: "\<And>rest. ocr_run_extraction L True reader fs template (before @ bad # rest) s =
      (s', Failed e')"
    using assms(1) by (simp add: ocr_run_extraction_def Let_def paths)
  from ocr_extract_paths_exact [OF collect_labels_distinct assms(2) assms(3),
      where L = L and cols = ?cols and s = fresh_run]
  have ex: "extraction_results ?s1 = claimed_ocr_rows reader fs ?labels before docs"
    "table_rows ?s1 = map (row_cells ?cols) (claimed_ocr_rows reader fs ?labels before docs)"
    by (simp_all add: fresh_run_def)
  show "\<exists>e'. snd (ocr_run_extraction L True reader fs template (before @ bad # after) s) = Failed e'"
    by (simp add: run)
  show "extraction_results (fst (ocr_run_extraction L True reader fs template (before @ bad # after) s)) =
           claimed_ocr_rows reader fs ?labels before docs"
    by (simp add: run ex same)
  show "table_rows (fst (ocr_run_extraction L True reader fs template (before @ bad # after) s)) =
           map (row_cells ?cols) (claimed_ocr_rows reader fs ?labels before docs)"
    by (simp add: run ex same)
  show "ocr_run_extraction L True reader fs template (before @ bad # after') s =
           ocr_run_extraction L True reader fs template (before @ bad # after) s"
    by (simp add: run)
qed

lemma ocr_run_extraction_exact_complete:
  assumes "collect_labels template \<noteq> []" "paths \<noteq> []" "map (fitz_open fs) paths = map Inr docs"
    "list_all (\<lambda>doc. ocr_labels_return reader doc (collect_labels template)) docs"
  shows "snd (ocr_run_extraction L True reader fs template paths s) =
           Complete (length paths)
             (extracted_count (fst (ocr_run_extraction L True reader fs template paths s)))"
    and "extraction_results (fst (ocr_run_extraction L True reader fs template paths s)) =
           claimed_ocr_rows reader fs (collect_labels template) paths docs"
    and "table_rows (fst (ocr_run_extraction L True reader fs template paths s)) =
           map (row_cells (''PDF Filename'' # column_headers (collect_labels template)))
             (claimed_ocr_rows reader fs (collect_labels template) paths docs)"
proof -
  let ?labels = "collect_labels template"
  let ?cols = "''PDF Filename'' # column_headers ?labels"
  let ?r = "ocr_extract_paths L reader fs ?labels ?cols paths fresh_run"
  from ocr_extract_paths_exact [OF collect_labels_distinct assms(3) assms(4),
      where L = L and cols = ?cols and s = fresh_run]
  have ex: "snd ?r = None"
    "extraction_results (fst ?r) = claimed_ocr_rows reader fs ?labels paths docs"
    "table_rows (fst ?r) = map (row_cells ?cols) (claimed_ocr_rows reader fs ?labels paths docs)"
    by (simp_all add: fresh_run_def)
  obtain s' where s': "?r = (s', None)" using ex(1) by (cases ?r) auto
  then have run: "ocr_run_extraction L True reader fs template paths s =
      (s', Complete (length paths) (extracted_count s'))"
    using assms(1,2) by (simp add: ocr_run_extraction_def Let_def)
  from run show "snd (ocr_run_extraction L True reader fs template paths s) =
           Complete (length paths)
             (extracted_count (fst (ocr_run_extraction L True reader fs template paths s)))"
    by simp
  from run ex(2) s' show "extraction_results (fst (ocr_run_extraction L True reader fs template paths s)) =
           claimed_ocr_rows reader fs ?labels paths docs"
    by simp
  from run ex(3) s' show "table_rows (fst (ocr_run_extraction L True reader fs template paths s)) =
           map (row_cells ?cols) (claimed_ocr_rows reader fs ?labels paths docs)"
    by simp
qed

lemma sample_labels: "collect_labels sample_template = [balance_entry, owner_entry]"
  by (simp add: collect_labels_def sample_template_def add_label_def balance_label_def
        owner_label_def balance_entry_def owner_entry_def)
     (simp add: balance_anchor_def account_anchor_def balance_value_def other_value_def)

lemma sample_opens:
  "opens sample_files ''in/a.pdf''" "\<not> opens sample_files ''in/b.pdf''"
  "opens sample_files ''in/c.pdf''"
  "fitz_open sample_files ''in/b.pdf'' = Inl (Exn ''cannot open file'')"
  "fitz_open sample_files ''in/a.pdf'' = Inr statement_doc"
  by (simp_all add: opens_def sample_files_def)

lemma owner_no_match: "find_box_on_pages L doc (label_anchors owner_entry) (label_values owner_entry) = None"
  by (simp add: owner_entry_def find_box_on_pages_def)

lemma balance_entry_match:
  "find_box_on_pages fitz_std statement_doc (label_anchors balance_entry) (label_values balance_entry)
     = Some summary_match"
  using statement_doc_match by (simp add: balance_entry_def)

lemma sample_first_document:
  "extraction_results
     (extract_document fitz_std sample_files [balance_entry, owner_entry] cols ''in/a.pdf''
        statement_doc fresh_run) = [statement_row]"
  by (simp add: extract_document_results record_label_def balance_entry_match owner_no_match
        fresh_run_def sample_files_def)
     (simp add: summary_match_def statement_row_def balance_entry_def owner_entry_def)

lemma sample_run:
  "run_extraction fitz_std sample_files sample_template sample_paths fresh_run =
     (fst (extract_paths fitz_std sample_files (collect_labels sample_template)
             (''PDF Filename'' # column_headers (collect_labels sample_template)) [''in/a.pdf'']
             fresh_run),
      Failed (Exn ''cannot open file''))"
  using run_extraction_stops(1) [of sample_template sample_files "[''in/a.pdf'']" "''in/b.pdf''"
      "Exn ''cannot open file''" fitz_std "[''in/c.pdf'']" fresh_run]
  by (simp add: sample_labels sample_opens sample_paths_def)

lemma sample_run_results:
  "extraction_results (fst (run_extraction fitz_std sample_files sample_template sample_paths fresh_run))
     = [statement_row]"
  by (simp add: sample_run sample_labels sample_opens sample_first_document)

lemma sample_documents:
  "map (fitz_open sample_files) [''in/a.pdf''] = map Inr [statement_doc]"
  "map (fitz_open sample_files) [''in/a.pdf'', ''in/c.pdf''] = map Inr [statement_doc, statement_doc]"
  "map (fitz_open sample_files) [] = map Inr []"
  by (simp_all add: sample_files_def)

lemma sample_row:
  "claimed_rows fitz_std sample_files (collect_labels sample_template) [''in/a.pdf''] [statement_doc]
     = [statement_row]"
  by (simp add: claimed_rows_def claimed_row_def sample_labels balance_entry_match owner_no_match
        claimed_label_cells_def)
     (simp add: summary_match_def statement_row_def balance_entry_def owner_entry_def
        sample_files_def)

lemma find_box_with_ocr_raises:
  "(\<exists>e. find_box_with_ocr reader doc anchors vals lb = Inl e) \<longleftrightarrow>
     anchors \<noteq> [] \<and> vals \<noteq> [] \<and> (\<exists>e. anchor_search_text_of (hd anchors) = Inl e)"
  by (auto simp: find_box_with_ocr_def Let_def split: sum.splits)

lemma sample_labels_return:
  "ocr_labels_return reader doc (collect_labels sample_template)"
proof -
  have "anchor_search_text_of balance_anchor = Inr ''Balance''"
    by (simp add: anchor_search_text_of_def balance_anchor_def startswith_def py_replace_def
          py_strip_def is_space_def)
  then have "\<not> (\<exists>e. find_box_with_ocr reader doc (label_anchors balance_entry)
                       (label_values balance_entry) (Some (label_box balance_entry)) = Inl e)"
    unfolding find_box_with_ocr_raises by (simp add: balance_entry_def)
  moreover have "\<not> (\<exists>e. find_box_with_ocr reader doc (label_anchors owner_entry)
                       (label_values owner_entry) (Some (label_box owner_entry)) = Inl e)"
    unfolding find_box_with_ocr_raises by (simp add: owner_entry_def)
  ultimately show ?thesis
    by (auto simp: ocr_labels_return_def sample_labels split: sum.splits)
qed

lemma nameless_labels: "collect_labels nameless_template = [nameless_entry]"
  by (simp add: collect_labels_def nameless_template_def add_label_def nameless_label_def
        nameless_entry_def)
     (simp add: nameless_anchor_def balance_value_def)

lemma nameless_labels_raise:
  "\<not> ocr_labels_return reader doc (collect_labels nameless_template)"
proof -
  have "anchor_search_text_of nameless_anchor = Inl (Exn ''AttributeError'')"
    by (simp add: anchor_search_text_of_def nameless_anchor_def)
  then have "\<exists>e. find_box_with_ocr reader doc (label_anchors nameless_entry)
                   (label_values nameless_entry) (Some (label_box nameless_entry)) = Inl e"
    unfolding find_box_with_ocr_raises by (simp add: nameless_entry_def)
  then show ?thesis
    by (auto simp: ocr_labels_return_def nameless_labels)
qed

section \<open>Properties of the native matcher\<close>

text \<open>
  C1. The tolerance is 50. An occurrence P of the primary anchor is accepted (the flag
  all_secondary_match is true) only if every secondary anchor Ai whose text, the
  stripped name the matcher searches for, is non-empty has an occurrence Q on the page
  with |Q.x - P.x - (Ai.x - A0.x)| and |Q.y - P.y - (Ai.y - A0.y)| both at most the
  tolerance. An occurrence whose differences are exactly 50 makes the secondary anchor
  match; when every occurrence differs by 51 in one direction the candidate is rejected;
  and with no secondary anchor of non-empty text every candidate is accepted.
\<close>

theorem secondary_anchor_verification:
  "POSITION_TOLERANCE = 50
   \<and> (all_secondary_match pg P (secondary_anchors A0 rest) = Inr True \<longrightarrow>
        (\<forall>Ai \<in> set rest. stripped_name Ai \<noteq> [] \<longrightarrow>
           (\<exists>occ. search_for pg (stripped_name Ai) = Inr occ \<and>
              (\<exists>Q \<in> set occ.
                 \<bar>x0 Q - x0 P - (box_x Ai - box_x A0)\<bar> \<le> POSITION_TOLERANCE \<and>
                 \<bar>y0 Q - y0 P - (box_y Ai - box_y A0)\<bar> \<le> POSITION_TOLERANCE))))
   \<and> (search_for pg (sec_text sec) = Inr occ' \<and> Q' \<in> set occ' \<and>
        \<bar>x0 Q' - x0 P - expected_dx sec\<bar> = 50 \<and> \<bar>y0 Q' - y0 P - expected_dy sec\<bar> = 50 \<longrightarrow>
        all_secondary_match pg P [sec] = Inr True)
   \<and> (search_for pg (sec_text sec) = Inr occ' \<and>
        (\<forall>Q \<in> set occ'. \<bar>x0 Q - x0 P' - expected_dx sec\<bar> = 51
                          \<or> \<bar>y0 Q - y0 P' - expected_dy sec\<bar> = 51) \<longrightarrow>
        all_secondary_match pg P' (sec # secs) = Inr False)
   \<and> ((\<forall>a \<in> set rest'. stripped_name a = []) \<longrightarrow>
        all_secondary_match pg P (secondary_anchors A0 rest') = Inr True)"
proof (intro conjI impI ballI)
  show "POSITION_TOLERANCE = 50" by (simp add: POSITION_TOLERANCE_def)
next
  fix Ai
  assume acc: "all_secondary_match pg P (secondary_anchors A0 rest) = Inr True"
    and Ai: "Ai \<in> set rest" and ne: "stripped_name Ai \<noteq> []"
  let ?sec = "\<lparr>sec_text = stripped_name Ai, expected_dx = box_x Ai - box_x A0,
               expected_dy = box_y Ai - box_y A0\<rparr>"
  from Ai ne have "?sec \<in> set (secondary_anchors A0 rest)"
    by (auto simp: set_secondary_anchors)
  from all_secondary_match_True [OF acc this]
  obtain occ where occ: "search_for pg (stripped_name Ai) = Inr occ" "found_matching P ?sec occ"
    by auto
  from occ(2) obtain Q where "Q \<in> set occ" "within_tolerance P ?sec Q"
    by (auto simp: found_matching_iff)
  then show "\<exists>occ. search_for pg (stripped_name Ai) = Inr occ \<and>
              (\<exists>Q \<in> set occ.
                 \<bar>x0 Q - x0 P - (box_x Ai - box_x A0)\<bar> \<le> POSITION_TOLERANCE \<and>
                 \<bar>y0 Q - y0 P - (box_y Ai - box_y A0)\<bar> \<le> POSITION_TOLERANCE)"
    using occ(1) by (auto simp: within_tolerance_iff POSITION_TOLERANCE_def)
next
  assume "search_for pg (sec_text sec) = Inr occ' \<and> Q' \<in> set occ' \<and>
        \<bar>x0 Q' - x0 P - expected_dx sec\<bar> = 50 \<and> \<bar>y0 Q' - y0 P - expected_dy sec\<bar> = 50"
  then show "all_secondary_match pg P [sec] = Inr True"
    by (auto simp: found_matching_iff within_tolerance_iff intro!: bexI [of _ Q'])
next
  assume "search_for pg (sec_text sec) = Inr occ' \<and>
        (\<forall>Q \<in> set occ'. \<bar>x0 Q - x0 P' - expected_dx sec\<bar> = 51
                          \<or> \<bar>y0 Q - y0 P' - expected_dy sec\<bar> = 51)"
  then show "all_secondary_match pg P' (sec # secs) = Inr False"
    by (auto simp: found_matching_iff within_tolerance_iff)
next
  assume "\<forall>a \<in> set rest'. stripped_name a = []"
  then show "all_secondary_match pg P (secondary_anchors A0 rest') = Inr True"
    by (simp add: secondary_anchors_Nil)
qed

theorem secondary_anchor_verification_witness:
  "all_secondary_match statement_page \<lparr>x0 = 10, y0 = 10, x1 = 50, y1 = 20\<rparr>
       (secondary_anchors balance_anchor [account_anchor]) = Inr True
   \<and> account_anchor \<in> set [account_anchor] \<and> stripped_name account_anchor \<noteq> []
   \<and> (\<exists>occ. search_for statement_page (stripped_name account_anchor) = Inr occ \<and>
         (\<exists>Q \<in> set occ.
            \<bar>x0 Q - x0 \<lparr>x0 = 10, y0 = 10, x1 = 50, y1 = 20\<rparr>
               - (box_x account_anchor - box_x balance_anchor)\<bar> \<le> POSITION_TOLERANCE \<and>
            \<bar>y0 Q - y0 \<lparr>x0 = 10, y0 = 10, x1 = 50, y1 = 20\<rparr>
               - (box_y account_anchor - box_y balance_anchor)\<bar> \<le> POSITION_TOLERANCE))
   \<and> (search_for statement_page (sec_text account_secondary)
          = Inr [\<lparr>x0 = 60, y0 = 150, x1 = 140, y1 = 160\<rparr>]
        \<and> \<lparr>x0 = 60, y0 = 150, x1 = 140, y1 = 160\<rparr> \<in> set [\<lparr>x0 = 60, y0 = 150, x1 = 140, y1 = 160\<rparr>]
        \<and> \<bar>x0 \<lparr>x0 = 60, y0 = 150, x1 = 140, y1 = 160\<rparr> - x0 \<lparr>x0 = 10, y0 = 10, x1 = 50, y1 = 20\<rparr>
              - expected_dx account_secondary\<bar> = 50
        \<and> \<bar>y0 \<lparr>x0 = 60, y0 = 150, x1 = 140, y1 = 160\<rparr> - y0 \<lparr>x0 = 10, y0 = 10, x1 = 50, y1 = 20\<rparr>
              - expected_dy account_secondary\<bar> = 50)
   \<and> all_secondary_match statement_page \<lparr>x0 = 10, y0 = 10, x1 = 50, y1 = 20\<rparr> [account_secondary]
        = Inr True
   \<and> \<bar>x0 \<lparr>x0 = 60, y0 = 150, x1 = 140, y1 = 160\<rparr> - x0 \<lparr>x0 = 9, y0 = 110, x1 = 49, y1 = 120\<rparr>
        - expected_dx account_secondary\<bar> = 51
   \<and> all_secondary_match statement_page \<lparr>x0 = 9, y0 = 110, x1 = 49, y1 = 120\<rparr> [account_secondary]
        = Inr False
   \<and> stripped_name blank_anchor = []
   \<and> all_secondary_match statement_page \<lparr>x0 = 10, y0 = 10, x1 = 50, y1 = 20\<rparr>
        (secondary_anchors balance_anchor [blank_anchor]) = Inr True"
proof -
  have h1: "all_secondary_match statement_page \<lparr>x0 = 10, y0 = 10, x1 = 50, y1 = 20\<rparr>
       (secondary_anchors balance_anchor [account_anchor]) = Inr True"
    by (simp only: secondary_fixture accept_first_statement)
  have m1: "account_anchor \<in> set [account_anchor]" by simp
  have m2: "stripped_name account_anchor \<noteq> []" by (simp add: stripped_fixture)
  have h3: "search_for statement_page (sec_text account_secondary)
          = Inr [\<lparr>x0 = 60, y0 = 150, x1 = 140, y1 = 160\<rparr>]
        \<and> \<lparr>x0 = 60, y0 = 150, x1 = 140, y1 = 160\<rparr> \<in> set [\<lparr>x0 = 60, y0 = 150, x1 = 140, y1 = 160\<rparr>]
        \<and> \<bar>x0 \<lparr>x0 = 60, y0 = 150, x1 = 140, y1 = 160\<rparr> - x0 \<lparr>x0 = 10, y0 = 10, x1 = 50, y1 = 20\<rparr>
              - expected_dx account_secondary\<bar> = 50
        \<and> \<bar>y0 \<lparr>x0 = 60, y0 = 150, x1 = 140, y1 = 160\<rparr> - y0 \<lparr>x0 = 10, y0 = 10, x1 = 50, y1 = 20\<rparr>
              - expected_dy account_secondary\<bar> = 50"
    by (simp add: account_secondary_def statement_page_search)
  have h4: "search_for statement_page (sec_text account_secondary)
          = Inr [\<lparr>x0 = 60, y0 = 150, x1 = 140, y1 = 160\<rparr>]
        \<and> (\<forall>Q \<in> set [\<lparr>x0 = 60, y0 = 150, x1 = 140, y1 = 160\<rparr>].
              \<bar>x0 Q - x0 \<lparr>x0 = 9, y0 = 110, x1 = 49, y1 = 120\<rparr> - expected_dx account_secondary\<bar> = 51
            \<or> \<bar>y0 Q - y0 \<lparr>x0 = 9, y0 = 110, x1 = 49, y1 = 120\<rparr> - expected_dy account_secondary\<bar> = 51)"
    by (simp add: account_secondary_def statement_page_search)
  have h5: "\<forall>a \<in> set [blank_anchor]. stripped_name a = []"
    by (simp add: stripped_fixture)
  note T = secondary_anchor_verification
    [where pg = statement_page and P = "\<lparr>x0 = 10, y0 = 10, x1 = 50, y1 = 20\<rparr>"
       and ?A0.0 = balance_anchor and rest = "[account_anchor]" and sec = account_secondary
       and occ' = "[\<lparr>x0 = 60, y0 = 150, x1 = 140, y1 = 160\<rparr>]"
       and Q' = "\<lparr>x0 = 60, y0 = 150, x1 = 140, y1 = 160\<rparr>"
       and P' = "\<lparr>x0 = 9, y0 = 110, x1 = 49, y1 = 120\<rparr>" and secs = "[]"
       and rest' = "[blank_anchor]"]
  note c2 = T [THEN conjunct2, THEN conjunct1, rule_format, OF h1 m1 m2]
  note c3 = T [THEN conjunct2, THEN conjunct2, THEN conjunct1, THEN mp, OF h3]
  note c4 = T [THEN conjunct2, THEN conjunct2, THEN conjunct2, THEN conjunct1, THEN mp, OF h4]
  note c5 = T [THEN conjunct2, THEN conjunct2, THEN conjunct2, THEN conjunct2, THEN mp, OF h5]
  have h4': "\<bar>x0 \<lparr>x0 = 60, y0 = 150, x1 = 140, y1 = 160\<rparr> - x0 \<lparr>x0 = 9, y0 = 110, x1 = 49, y1 = 120\<rparr>
        - expected_dx account_secondary\<bar> = 51"
    by (simp add: account_secondary_def)
  have h5': "stripped_name blank_anchor = []" by (simp add: stripped_fixture)
  from h1 m1 m2 c2 h3 c3 h4' c4 h5' c5 show ?thesis by blast
qed

text \<open>
  C2. The candidates of a document are the occurrences the locator returns for the
  primary anchor text, the pages taken in page order and the occurrences of a page in
  the order the locator returns them (for a page without an occurrence of the full text,
  the occurrences of its first word). When no library call raises while a candidate is
  verified or read, the matcher returns the match derived from the first candidate whose
  secondary anchors all verify and whose value rectangle yields non-empty text, and no
  match when there is no such candidate. An accepted occurrence whose text is empty is
  skipped and the search goes on with the next occurrence. Nothing after the successful
  occurrence is examined: occurrences that follow it on its page, and pages that follow
  its page, can be replaced by anything without changing the result. Whether or not a
  call raises, a match that is returned is derived from a candidate on the page it names
  whose secondary anchors all verify and whose value rectangle yields non-empty text.
\<close>

theorem first_accepted_match_wins:
  "(stripped_name A0 \<noteq> [] \<and>
    list_all (\<lambda>(i, pg, P). \<not> raises L pg (secondary_anchors A0 As) (value_offset_of A0 V0) P)
      (claimed_candidates (stripped_name A0) 0 doc) \<longrightarrow>
      find_box_on_pages L doc (A0 # As) (V0 # Vs) =
        claimed_first_match L (stripped_name A0) (secondary_anchors A0 As)
          (value_offset_of A0 V0) 0 doc)
   \<and> (all_secondary_match pg P secs = Inr True \<and>
        extract_value_text L pg (value_rect_at L pg off P) = Inr [] \<longrightarrow>
        check_instances L pg i t secs off (P # ps) = check_instances L pg i t secs off ps)
   \<and> (check_instances L pg' i' t secs off ps' = Inr (Some m') \<longrightarrow>
        check_instances L pg' i' t secs off (ps' @ later_ps) = Inr (Some m'))
   \<and> (find_box_on_pages L doc anchors vals = Some m \<longrightarrow>
        match_page m < length doc \<and>
        find_box_on_pages L (take (Suc (match_page m)) doc @ later) anchors vals = Some m)
   \<and> (find_box_on_pages L doc (A0 # As) (V0 # Vs) = Some m \<longrightarrow>
        (\<exists>pg P. (match_page m, pg, P) \<in> set (claimed_candidates (stripped_name A0) 0 doc)
           \<and> verifies_with_text L pg (secondary_anchors A0 As) (value_offset_of A0 V0) P
           \<and> m = match_from L pg (match_page m) (stripped_name A0) (value_offset_of A0 V0) P))"
proof (intro conjI impI)
  assume found: "find_box_on_pages L doc (A0 # As) (V0 # Vs) = Some m"
  then have ne: "stripped_name A0 \<noteq> []"
    and sp: "search_pages L (stripped_name A0) (secondary_anchors A0 As) (value_offset_of A0 V0) 0 doc = Some m"
    by (auto simp: find_box_on_pages_def Let_def split: if_splits)
  from ne have w: "dropWhile is_space (stripped_name A0) \<noteq> []"
    unfolding stripped_name_def by (rule py_strip_has_word)
  from search_pages_sound [OF w sp]
  show "\<exists>pg P. (match_page m, pg, P) \<in> set (claimed_candidates (stripped_name A0) 0 doc)
           \<and> verifies_with_text L pg (secondary_anchors A0 As) (value_offset_of A0 V0) P
           \<and> m = match_from L pg (match_page m) (stripped_name A0) (value_offset_of A0 V0) P" .
next
  assume h: "stripped_name A0 \<noteq> [] \<and>
    list_all (\<lambda>(i, pg, P). \<not> raises L pg (secondary_anchors A0 As) (value_offset_of A0 V0) P)
      (claimed_candidates (stripped_name A0) 0 doc)"
  then have ne: "stripped_name A0 \<noteq> []" by simp
  then have w: "dropWhile is_space (stripped_name A0) \<noteq> []"
    unfolding stripped_name_def by (rule py_strip_has_word)
  from h have quiet:
    "list_all (\<lambda>(i, pg, P). \<not> raises L pg (secondary_anchors A0 As) (value_offset_of A0 V0) P)
       (claimed_candidates (stripped_name A0) 0 doc)"
    by simp
  from ne search_pages_claimed [OF w quiet]
  show "find_box_on_pages L doc (A0 # As) (V0 # Vs) =
        claimed_first_match L (stripped_name A0) (secondary_anchors A0 As)
          (value_offset_of A0 V0) 0 doc"
    by (simp add: find_box_on_pages_def)
next
  assume "all_secondary_match pg P secs = Inr True \<and>
        extract_value_text L pg (value_rect_at L pg off P) = Inr []"
  then show "check_instances L pg i t secs off (P # ps) = check_instances L pg i t secs off ps"
    by (simp add: check_primary_def)
next
  assume "check_instances L pg' i' t secs off ps' = Inr (Some m')"
  then show "check_instances L pg' i' t secs off (ps' @ later_ps) = Inr (Some m')"
    by (rule check_instances_append)
next
  assume found: "find_box_on_pages L doc anchors vals = Some m"
  then obtain A0 As V0 Vs where av: "anchors = A0 # As" "vals = V0 # Vs"
    by (auto simp: find_box_on_pages_def split: list.splits)
  from found av have ne: "stripped_name A0 \<noteq> []"
    and sp: "search_pages L (stripped_name A0) (secondary_anchors A0 As) (value_offset_of A0 V0) 0 doc = Some m"
    by (auto simp: find_box_on_pages_def Let_def split: if_splits)
  from search_pages_Some [OF sp] show "match_page m < length doc" by simp
  from search_pages_prefix [OF sp, of later] ne av
  show "find_box_on_pages L (take (Suc (match_page m)) doc @ later) anchors vals = Some m"
    by (simp add: find_box_on_pages_def)
qed

theorem first_accepted_match_wins_witness:
  "stripped_name balance_anchor \<noteq> []
   \<and> claimed_candidates (stripped_name balance_anchor) 0 statement_doc
        = [(0, statement_page, \<lparr>x0 = 10, y0 = 10, x1 = 50, y1 = 20\<rparr>),
           (0, statement_page, \<lparr>x0 = 9, y0 = 110, x1 = 49, y1 = 120\<rparr>),
           (2, summary_page, \<lparr>x0 = 20, y0 = 300, x1 = 60, y1 = 310\<rparr>)]
   \<and> \<not> raises fitz_std statement_page (secondary_anchors balance_anchor [account_anchor])
           (value_offset_of balance_anchor balance_value) \<lparr>x0 = 10, y0 = 10, x1 = 50, y1 = 20\<rparr>
   \<and> \<not> raises fitz_std statement_page (secondary_anchors balance_anchor [account_anchor])
           (value_offset_of balance_anchor balance_value) \<lparr>x0 = 9, y0 = 110, x1 = 49, y1 = 120\<rparr>
   \<and> \<not> raises fitz_std summary_page (secondary_anchors balance_anchor [account_anchor])
           (value_offset_of balance_anchor balance_value) \<lparr>x0 = 20, y0 = 300, x1 = 60, y1 = 310\<rparr>
   \<and> claimed_first_match fitz_std (stripped_name balance_anchor)
        (secondary_anchors balance_anchor [account_anchor])
        (value_offset_of balance_anchor balance_value) 0 statement_doc = Some summary_match
   \<and> (all_secondary_match statement_page \<lparr>x0 = 10, y0 = 10, x1 = 50, y1 = 20\<rparr> [account_secondary]
         = Inr True
       \<and> extract_value_text fitz_std statement_page
           (value_rect_at fitz_std statement_page balance_offset \<lparr>x0 = 10, y0 = 10, x1 = 50, y1 = 20\<rparr>)
         = Inr [])
   \<and> check_instances fitz_std statement_page 0 ''Balance'' [account_secondary] balance_offset
        (\<lparr>x0 = 10, y0 = 10, x1 = 50, y1 = 20\<rparr> # [\<lparr>x0 = 9, y0 = 110, x1 = 49, y1 = 120\<rparr>])
      = check_instances fitz_std statement_page 0 ''Balance'' [account_secondary] balance_offset
          [\<lparr>x0 = 9, y0 = 110, x1 = 49, y1 = 120\<rparr>]
   \<and> check_instances fitz_std summary_page 2 ''Balance'' [account_secondary] balance_offset
        [\<lparr>x0 = 20, y0 = 300, x1 = 60, y1 = 310\<rparr>] = Inr (Some summary_match)
   \<and> check_instances fitz_std summary_page 2 ''Balance'' [account_secondary] balance_offset
        ([\<lparr>x0 = 20, y0 = 300, x1 = 60, y1 = 310\<rparr>] @ [\<lparr>x0 = 1, y0 = 2, x1 = 3, y1 = 4\<rparr>])
        = Inr (Some summary_match)
   \<and> find_box_on_pages fitz_std statement_doc [balance_anchor, account_anchor] [balance_value, other_value]
        = Some summary_match
   \<and> match_page summary_match < length statement_doc
   \<and> find_box_on_pages fitz_std (take (Suc (match_page summary_match)) statement_doc @ [Inr scanned_page])
        [balance_anchor, account_anchor] [balance_value, other_value] = Some summary_match
   \<and> (\<exists>pg P. (match_page summary_match, pg, P)
                  \<in> set (claimed_candidates (stripped_name balance_anchor) 0 statement_doc)
           \<and> verifies_with_text fitz_std pg (secondary_anchors balance_anchor [account_anchor])
                 (value_offset_of balance_anchor balance_value) P
           \<and> summary_match = match_from fitz_std pg (match_page summary_match)
                 (stripped_name balance_anchor) (value_offset_of balance_anchor balance_value) P)"
proof -
  have h1: "stripped_name balance_anchor \<noteq> []" by (simp add: stripped_fixture)
  have cands: "claimed_candidates (stripped_name balance_anchor) 0 statement_doc
        = [(0, statement_page, \<lparr>x0 = 10, y0 = 10, x1 = 50, y1 = 20\<rparr>),
           (0, statement_page, \<lparr>x0 = 9, y0 = 110, x1 = 49, y1 = 120\<rparr>),
           (2, summary_page, \<lparr>x0 = 20, y0 = 300, x1 = 60, y1 = 310\<rparr>)]"
    by (simp add: stripped_fixture claimed_candidates_def statement_doc_def enumerate_eq_zip
          upt_rec claimed_occurrences_def statement_page_search first_word_balance)
       (simp add: summary_page_def scanned_page_def first_word_balance)
  have r1: "\<not> raises fitz_std statement_page (secondary_anchors balance_anchor [account_anchor])
           (value_offset_of balance_anchor balance_value) \<lparr>x0 = 10, y0 = 10, x1 = 50, y1 = 20\<rparr>"
    unfolding secondary_fixture offset_fixture
    by (simp only: raises_def accept_first_statement empty_text_statement sum.case simp_thms)
  have r2: "\<not> raises fitz_std statement_page (secondary_anchors balance_anchor [account_anchor])
           (value_offset_of balance_anchor balance_value) \<lparr>x0 = 9, y0 = 110, x1 = 49, y1 = 120\<rparr>"
    unfolding secondary_fixture offset_fixture
    by (simp only: raises_def reject_second_statement sum.case simp_thms)
  have r3: "\<not> raises fitz_std summary_page (secondary_anchors balance_anchor [account_anchor])
           (value_offset_of balance_anchor balance_value) \<lparr>x0 = 20, y0 = 300, x1 = 60, y1 = 310\<rparr>"
    unfolding secondary_fixture offset_fixture
    by (simp add: raises_def matcher_defs fixture_defs)
  from r1 r2 r3 have quiet:
    "list_all (\<lambda>(i, pg, P). \<not> raises fitz_std pg (secondary_anchors balance_anchor [account_anchor])
                 (value_offset_of balance_anchor balance_value) P)
       (claimed_candidates (stripped_name balance_anchor) 0 statement_doc)"
    unfolding cands by simp
  from h1 quiet have h1q: "stripped_name balance_anchor \<noteq> [] \<and>
    list_all (\<lambda>(i, pg, P). \<not> raises fitz_std pg (secondary_anchors balance_anchor [account_anchor])
                 (value_offset_of balance_anchor balance_value) P)
       (claimed_candidates (stripped_name balance_anchor) 0 statement_doc)"
    by (rule conjI)
  have h2: "all_secondary_match statement_page \<lparr>x0 = 10, y0 = 10, x1 = 50, y1 = 20\<rparr> [account_secondary]
         = Inr True
       \<and> extract_value_text fitz_std statement_page
           (value_rect_at fitz_std statement_page balance_offset \<lparr>x0 = 10, y0 = 10, x1 = 50, y1 = 20\<rparr>)
         = Inr []"
    by (simp only: accept_first_statement empty_text_statement simp_thms)
  note T = first_accepted_match_wins
    [where ?A0.0 = balance_anchor and As = "[account_anchor]" and ?V0.0 = balance_value
       and Vs = "[other_value]" and L = fitz_std and doc = statement_doc and pg = statement_page
       and P = "\<lparr>x0 = 10, y0 = 10, x1 = 50, y1 = 20\<rparr>" and secs = "[account_secondary]"
       and off = balance_offset and i = 0 and t = "''Balance''"
       and ps = "[\<lparr>x0 = 9, y0 = 110, x1 = 49, y1 = 120\<rparr>]"
       and pg' = summary_page and i' = 2 and ps' = "[\<lparr>x0 = 20, y0 = 300, x1 = 60, y1 = 310\<rparr>]"
       and m' = summary_match and later_ps = "[\<lparr>x0 = 1, y0 = 2, x1 = 3, y1 = 4\<rparr>]"
       and anchors = "[balance_anchor, account_anchor]" and vals = "[balance_value, other_value]"
       and m = summary_match and later = "[Inr scanned_page]"]
  note c1 = T [THEN conjunct1, THEN mp, OF h1q, symmetric]
  note c2 = T [THEN conjunct2, THEN conjunct1, THEN mp, OF h2]
  note c3 = T [THEN conjunct2, THEN conjunct2, THEN conjunct1, THEN mp, OF summary_instances_match]
  note c4 = T [THEN conjunct2, THEN conjunct2, THEN conjunct2, THEN conjunct1, THEN mp,
      OF statement_doc_match]
  note c5 = T [THEN conjunct2, THEN conjunct2, THEN conjunct2, THEN conjunct2, THEN mp,
      OF statement_doc_match]
  from c1 have c1': "claimed_first_match fitz_std (stripped_name balance_anchor)
        (secondary_anchors balance_anchor [account_anchor])
        (value_offset_of balance_anchor balance_value) 0 statement_doc = Some summary_match"
    by (simp only: statement_doc_match)
  from h1 cands r1 r2 r3 c1' h2 c2 summary_instances_match c3 statement_doc_match c4 c5
  show ?thesis by blast
qed

text \<open>
  C3. When the matcher returns a match, it comes from an accepted occurrence P of the
  primary anchor on the page the match names, and its value rectangle is the rectangle
  from (P.x + (V0.x - A0.x), P.y + (V0.y - A0.y)) with width V0.width and height
  V0.height, normalised and intersected with the page rectangle, where A0 is the first
  anchor and V0 the first value. Values after the first are never used: the result with
  several values is the result with the first alone.
\<close>

theorem value_rectangle_of_match:
  "(find_box_on_pages L doc anchors vals = Some m \<longrightarrow>
      (\<exists>A0 As V0 Vs pg ps P.
         anchors = A0 # As \<and> vals = V0 # Vs \<and>
         match_page m < length doc \<and> doc ! match_page m = Inr pg \<and>
         primary_instances pg (stripped_name A0) = Inr ps \<and> P \<in> set ps \<and>
         all_secondary_match pg P (secondary_anchors A0 As) = Inr True \<and>
         match_value_rect m =
           rect_and L
             (rect_normalize L
                \<lparr>x0 = x0 P + (box_x V0 - box_x A0),
                 y0 = y0 P + (box_y V0 - box_y A0),
                 x1 = x0 P + (box_x V0 - box_x A0) + box_width V0,
                 y1 = y0 P + (box_y V0 - box_y A0) + box_height V0\<rparr>)
             (page_rect pg)))
   \<and> find_box_on_pages L doc anchors (V0' # Vs') = find_box_on_pages L doc anchors [V0']"
proof (intro conjI impI)
  assume found: "find_box_on_pages L doc anchors vals = Some m"
  then obtain A0 As V0 Vs where av: "anchors = A0 # As" "vals = V0 # Vs"
    by (auto simp: find_box_on_pages_def split: list.splits)
  let ?t = "stripped_name A0" and ?secs = "secondary_anchors A0 As"
  let ?off = "value_offset_of A0 V0"
  from found av have sp: "search_pages L ?t ?secs ?off 0 doc = Some m"
    by (auto simp: find_box_on_pages_def Let_def split: if_splits)
  from search_pages_Some [OF sp] obtain pg where
    idx: "match_page m < length doc" "doc ! match_page m = Inr pg" and
    pg: "search_page L pg (match_page m) ?t ?secs ?off = Inr (Some m)"
    by auto
  from search_page_Some [OF pg] obtain ps P where
    ps: "primary_instances pg ?t = Inr ps" "P \<in> set ps" and
    cp: "check_primary L pg (match_page m) ?t ?secs ?off P = Inr (Some m)"
    by blast
  from check_primary_Some [OF cp] have acc: "all_secondary_match pg P ?secs = Inr True"
    and m: "m = match_from L pg (match_page m) ?t ?off P" by simp_all
  have "match_value_rect m = value_rect_at L pg ?off P"
    by (subst m) (simp add: match_from_def)
  then have vr: "match_value_rect m =
           rect_and L
             (rect_normalize L
                \<lparr>x0 = x0 P + (box_x V0 - box_x A0),
                 y0 = y0 P + (box_y V0 - box_y A0),
                 x1 = x0 P + (box_x V0 - box_x A0) + box_width V0,
                 y1 = y0 P + (box_y V0 - box_y A0) + box_height V0\<rparr>)
             (page_rect pg)"
    by (simp add: value_rect_at_def value_offset_of_def)
  from av idx ps acc vr show "\<exists>A0 As V0 Vs pg ps P.
         anchors = A0 # As \<and> vals = V0 # Vs \<and>
         match_page m < length doc \<and> doc ! match_page m = Inr pg \<and>
         primary_instances pg (stripped_name A0) = Inr ps \<and> P \<in> set ps \<and>
         all_secondary_match pg P (secondary_anchors A0 As) = Inr True \<and>
         match_value_rect m =
           rect_and L
             (rect_normalize L
                \<lparr>x0 = x0 P + (box_x V0 - box_x A0),
                 y0 = y0 P + (box_y V0 - box_y A0),
                 x1 = x0 P + (box_x V0 - box_x A0) + box_width V0,
                 y1 = y0 P + (box_y V0 - box_y A0) + box_height V0\<rparr>)
             (page_rect pg)"
    by blast
next
  show "find_box_on_pages L doc anchors (V0' # Vs') = find_box_on_pages L doc anchors [V0']"
    by (simp add: find_box_on_pages_def split: list.splits)
qed

theorem value_rectangle_of_match_witness:
  "find_box_on_pages fitz_std statement_doc [balance_anchor, account_anchor] [balance_value, other_value]
     = Some summary_match
   \<and> (\<exists>A0 As V0 Vs pg ps P.
         [balance_anchor, account_anchor] = A0 # As \<and> [balance_value, other_value] = V0 # Vs \<and>
         match_page summary_match < length statement_doc \<and>
         statement_doc ! match_page summary_match = Inr pg \<and>
         primary_instances pg (stripped_name A0) = Inr ps \<and> P \<in> set ps \<and>
         all_secondary_match pg P (secondary_anchors A0 As) = Inr True \<and>
         match_value_rect summary_match =
           rect_and fitz_std
             (rect_normalize fitz_std
                \<lparr>x0 = x0 P + (box_x V0 - box_x A0),
                 y0 = y0 P + (box_y V0 - box_y A0),
                 x1 = x0 P + (box_x V0 - box_x A0) + box_width V0,
                 y1 = y0 P + (box_y V0 - box_y A0) + box_height V0\<rparr>)
             (page_rect pg))
   \<and> match_value_rect summary_match = \<lparr>x0 = 100, y0 = 300, x1 = 220, y1 = 314\<rparr>
   \<and> find_box_on_pages fitz_std statement_doc [balance_anchor, account_anchor]
        [balance_value, other_value]
      = find_box_on_pages fitz_std statement_doc [balance_anchor, account_anchor] [balance_value]"
proof -
  note T = value_rectangle_of_match [of fitz_std statement_doc "[balance_anchor, account_anchor]"
      "[balance_value, other_value]" summary_match balance_value "[other_value]"]
  note c1 = T [THEN conjunct1, THEN mp, OF statement_doc_match]
  note c2 = T [THEN conjunct2]
  have r: "match_value_rect summary_match = \<lparr>x0 = 100, y0 = 300, x1 = 220, y1 = 314\<rparr>"
    by (simp add: summary_match_def)
  from statement_doc_match c1 c2 r show ?thesis by blast
qed

text \<open>
  C7. On a page where the full primary anchor text has no occurrence, the matcher searches
  for the first whitespace-delimited word of the anchor text, which is the first element
  of its split, and the occurrences of that word are the candidates the page is checked
  with.
\<close>

theorem first_word_fallback:
  "stripped_name A0 \<noteq> [] \<and> search_for pg (stripped_name A0) = Inr [] \<longrightarrow>
     primary_instances pg (stripped_name A0) = search_for pg (claimed_first_word (stripped_name A0))
     \<and> hd (py_split (stripped_name A0)) = claimed_first_word (stripped_name A0)
     \<and> search_page L pg i (stripped_name A0) secs off =
         (case search_for pg (claimed_first_word (stripped_name A0)) of
            Inl e \<Rightarrow> Inl e
          | Inr ps \<Rightarrow> check_instances L pg i (stripped_name A0) secs off ps)"
proof (intro impI, elim conjE)
  assume ne: "stripped_name A0 \<noteq> []" and z: "search_for pg (stripped_name A0) = Inr []"
  obtain s where s: "stripped_name A0 = py_strip s" by (simp add: stripped_name_def)
  from ne z have pi: "primary_instances pg (stripped_name A0) =
      search_for pg (claimed_first_word (stripped_name A0))"
    unfolding s by (rule primary_instances_fallback)
  have hd: "hd (py_split (stripped_name A0)) = claimed_first_word (stripped_name A0)"
    using ne unfolding s by (simp add: py_split_stripped)
  from pi hd show "primary_instances pg (stripped_name A0) = search_for pg (claimed_first_word (stripped_name A0))
     \<and> hd (py_split (stripped_name A0)) = claimed_first_word (stripped_name A0)
     \<and> search_page L pg i (stripped_name A0) secs off =
         (case search_for pg (claimed_first_word (stripped_name A0)) of
            Inl e \<Rightarrow> Inl e
          | Inr ps \<Rightarrow> check_instances L pg i (stripped_name A0) secs off ps)"
    by (simp add: search_page_eq)
qed

theorem first_word_fallback_witness:
  "stripped_name account_anchor \<noteq> []
   \<and> search_for scanned_page (stripped_name account_anchor) = Inr []
   \<and> claimed_first_word (stripped_name account_anchor) = ''Account''
   \<and> primary_instances scanned_page (stripped_name account_anchor)
        = Inr [\<lparr>x0 = 30, y0 = 40, x1 = 70, y1 = 50\<rparr>]
   \<and> hd (py_split (stripped_name account_anchor)) = ''Account''
   \<and> search_page fitz_std scanned_page 3 (stripped_name account_anchor) [] balance_offset
        = check_instances fitz_std scanned_page 3 (stripped_name account_anchor) [] balance_offset
            [\<lparr>x0 = 30, y0 = 40, x1 = 70, y1 = 50\<rparr>]"
proof -
  have h: "stripped_name account_anchor \<noteq> []
           \<and> search_for scanned_page (stripped_name account_anchor) = Inr []"
    by (simp add: stripped_fixture scanned_page_search)
  have w: "claimed_first_word (stripped_name account_anchor) = ''Account''"
    by (simp add: stripped_fixture first_word_fixture)
  note T = first_word_fallback [of account_anchor scanned_page fitz_std 3 "[]" balance_offset,
      THEN mp, OF h]
  from T have c1: "primary_instances scanned_page (stripped_name account_anchor)
        = Inr [\<lparr>x0 = 30, y0 = 40, x1 = 70, y1 = 50\<rparr>]"
    by (simp only: w scanned_page_search)
  from T have c2: "hd (py_split (stripped_name account_anchor)) = ''Account''"
    by (simp only: w)
  from T have c3: "search_page fitz_std scanned_page 3 (stripped_name account_anchor) [] balance_offset
        = check_instances fitz_std scanned_page 3 (stripped_name account_anchor) [] balance_offset
            [\<lparr>x0 = 30, y0 = 40, x1 = 70, y1 = 50\<rparr>]"
    by (simp only: w scanned_page_search sum.case)
  from h w c1 c2 c3 show ?thesis by blast
qed

section \<open>Properties of the OCR matcher\<close>



text \<open>
  A detection with empty text is not a token of the matcher: it is dropped when the word
  list is built, before any comparison, although the empty text is a substring of every
  anchor text and the value region next to it can be read.
\<close>

lemma blank_detection_is_no_token:
  "py_in (py_lower []) (py_lower ''Total'')
   \<and> full_readtext ghost_image = Inr [([(50, 60), (250, 60), (250, 100), (50, 100)], [], 0.1)]
   \<and> ocr_cropped_region True ghost_image \<lparr>qx = 250, qy = 60, qwidth = 200, qheight = 50\<rparr> = ''42.00''
   \<and> find_box_with_ocr True [Inr ghost_page] [total_anchor] [total_value] None = Inr None"
proof -
  have "py_in (py_lower []) (py_lower ''Total'')"
    by (simp add: py_lower_def startswith_def)
  moreover have "full_readtext ghost_image
      = Inr [([(50, 60), (250, 60), (250, 100), (50, 100)], [], 0.1)]"
    by (simp add: ghost_image_def)
  moreover have "ocr_cropped_region True ghost_image
      \<lparr>qx = 250, qy = 60, qwidth = 200, qheight = 50\<rparr> = ''42.00''"
    by (simp add: ocr_cropped_region_def ghost_image_def py_int_def py_strip_def is_space_def)
  ultimately show ?thesis using ghost_doc_nothing by blast
qed

text \<open>
  C10. The result of the OCR matcher does not depend on the secondary anchors: two
  anchor lists with the same first anchor give the same result on the same document,
  values, label box and reader.
\<close>

theorem ocr_result_independent_of_secondary_anchors:
  "find_box_with_ocr reader doc (first_anchor # secondary) vals lbox
     = find_box_with_ocr reader doc (first_anchor # secondary') vals lbox"
  by (simp add: find_box_with_ocr_def)

theorem ocr_result_independent_of_secondary_anchors_witness:
  "find_box_with_ocr True receipt_doc (total_anchor # []) [total_value] None
     = find_box_with_ocr True receipt_doc (total_anchor # [account_anchor, blank_anchor])
         [total_value] None
   \<and> find_box_with_ocr True receipt_doc (total_anchor # [account_anchor, blank_anchor])
        [total_value] None = Inr (Some receipt_match)"
proof -
  note T = ocr_result_independent_of_secondary_anchors
    [of True receipt_doc total_anchor "[]" "[total_value]" None "[account_anchor, blank_anchor]"]
  from T receipt_doc_match show ?thesis by simp
qed

section \<open>Properties of the extraction runs\<close>

text \<open>
  C6, as the code has it, for a template with at least one label and, in the OCR run,
  with EasyOCR available. Each run has a single try around the loop over the documents
  and no handler inside the loop, so the first exception ends the run with the failure
  message: in the native run this is the first document that fails to open; in the OCR
  run it is the first document that fails to open or on which the OCR matcher raises for
  a label. The rows of the run, in the stored results and in the result table, are then
  exactly the rows of the documents before that one, in their order, and the documents
  after it are not processed, whatever they are. When there is no such document, the run
  completes with exactly the rows of all documents. Whatever the matcher does, an OCR run
  with a document that fails to open ends with the failure message and at most the rows
  of the documents before it.
\<close>

theorem run_stops_at_unopened_document:
  "(collect_labels template \<noteq> [] \<and> map (fitz_open fs) before = map Inr docs
      \<and> fitz_open fs bad = Inl e \<longrightarrow>
      snd (run_extraction L fs template (before @ bad # after) s) = Failed e
      \<and> extraction_results (fst (run_extraction L fs template (before @ bad # after) s))
          = claimed_rows L fs (collect_labels template) before docs
      \<and> table_rows (fst (run_extraction L fs template (before @ bad # after) s))
          = map (row_cells (''PDF Filename'' # column_headers (collect_labels template)))
              (claimed_rows L fs (collect_labels template) before docs)
      \<and> length (extraction_results (fst (run_extraction L fs template (before @ bad # after) s)))
          = length before
      \<and> run_extraction L fs template (before @ bad # after') s
          = run_extraction L fs template (before @ bad # after) s)
   \<and> (collect_labels template \<noteq> [] \<and> paths \<noteq> [] \<and> map (fitz_open fs) paths = map Inr pdocs \<longrightarrow>
      snd (run_extraction L fs template paths s)
          = Complete (length paths) (extracted_count (fst (run_extraction L fs template paths s)))
      \<and> extraction_results (fst (run_extraction L fs template paths s))
          = claimed_rows L fs (collect_labels template) paths pdocs
      \<and> table_rows (fst (run_extraction L fs template paths s))
          = map (row_cells (''PDF Filename'' # column_headers (collect_labels template)))
              (claimed_rows L fs (collect_labels template) paths pdocs)
      \<and> length (extraction_results (fst (run_extraction L fs template paths s))) = length paths)
   \<and> (collect_labels template \<noteq> [] \<and> map (fitz_open fs) before = map Inr docs
      \<and> list_all (\<lambda>doc. ocr_labels_return reader doc (collect_labels template)) docs
      \<and> fitz_open fs bad = Inl e \<longrightarrow>
      snd (ocr_run_extraction L True reader fs template (before @ bad # after) s) = Failed e
      \<and> extraction_results (fst (ocr_run_extraction L True reader fs template (before @ bad # after) s))
          = claimed_ocr_rows reader fs (collect_labels template) before docs
      \<and> table_rows (fst (ocr_run_extraction L True reader fs template (before @ bad # after) s))
          = map (row_cells (''PDF Filename'' # column_headers (collect_labels template)))
              (claimed_ocr_rows reader fs (collect_labels template) before docs)
      \<and> length (extraction_results
            (fst (ocr_run_extraction L True reader fs template (before @ bad # after) s)))
          = length before
      \<and> ocr_run_extraction L True reader fs template (before @ bad # after') s
          = ocr_run_extraction L True reader fs template (before @ bad # after) s)
   \<and> (collect_labels template \<noteq> [] \<and> map (fitz_open fs) before = map Inr docs
      \<and> list_all (\<lambda>doc. ocr_labels_return reader doc (collect_labels template)) docs
      \<and> fitz_open fs stuck = Inr stuck_doc
      \<and> \<not> ocr_labels_return reader stuck_doc (collect_labels template) \<longrightarrow>
      (\<exists>e'. snd (ocr_run_extraction L True reader fs template (before @ stuck # after) s)
               = Failed e')
      \<and> extraction_results (fst (ocr_run_extraction L True reader fs template (before @ stuck # after) s))
          = claimed_ocr_rows reader fs (collect_labels template) before docs
      \<and> table_rows (fst (ocr_run_extraction L True reader fs template (before @ stuck # after) s))
          = map (row_cells (''PDF Filename'' # column_headers (collect_labels template)))
              (claimed_ocr_rows reader fs (collect_labels template) before docs)
      \<and> length (extraction_results
            (fst (ocr_run_extraction L True reader fs template (before @ stuck # after) s)))
          = length before
      \<and> ocr_run_extraction L True reader fs template (before @ stuck # after') s
          = ocr_run_extraction L True reader fs template (before @ stuck # after) s)
   \<and> (collect_labels template \<noteq> [] \<and> paths \<noteq> [] \<and> map (fitz_open fs) paths = map Inr pdocs
      \<and> list_all (\<lambda>doc. ocr_labels_return reader doc (collect_labels template)) pdocs \<longrightarrow>
      snd (ocr_run_extraction L True reader fs template paths s)
          = Complete (length paths)
              (extracted_count (fst (ocr_run_extraction L True reader fs template paths s)))
      \<and> extraction_results (fst (ocr_run_extraction L True reader fs template paths s))
          = claimed_ocr_rows reader fs (collect_labels template) paths pdocs
      \<and> table_rows (fst (ocr_run_extraction L True reader fs template paths s))
          = map (row_cells (''PDF Filename'' # column_headers (collect_labels template)))
              (claimed_ocr_rows reader fs (collect_labels template) paths pdocs)
      \<and> length (extraction_results (fst (ocr_run_extraction L True reader fs template paths s)))
          = length paths)
   \<and> (collect_labels template \<noteq> [] \<and> list_all (opens fs) before \<and> fitz_open fs bad = Inl e \<longrightarrow>
      (\<exists>s' e'. ocr_run_extraction L True reader fs template (before @ bad # after) s
                    = (s', Failed e')
            \<and> length (extraction_results s') \<le> length before))"
proof (intro conjI impI)
  assume h: "collect_labels template \<noteq> [] \<and> map (fitz_open fs) before = map Inr docs
      \<and> fitz_open fs bad = Inl e"
  then have l: "collect_labels template \<noteq> []" and d: "map (fitz_open fs) before = map Inr docs"
    and f: "fitz_open fs bad = Inl e" by simp_all
  from opened_documents [OF d] have n: "length docs = length before" by simp
  note r = run_extraction_exact_stop [OF l d f]
  show "snd (run_extraction L fs template (before @ bad # after) s) = Failed e" by (rule r(1))
  show "extraction_results (fst (run_extraction L fs template (before @ bad # after) s))
          = claimed_rows L fs (collect_labels template) before docs" by (rule r(2))
  show "table_rows (fst (run_extraction L fs template (before @ bad # after) s))
          = map (row_cells (''PDF Filename'' # column_headers (collect_labels template)))
              (claimed_rows L fs (collect_labels template) before docs)" by (rule r(3))
  show "length (extraction_results (fst (run_extraction L fs template (before @ bad # after) s)))
          = length before"
    by (simp add: r(2) claimed_rows_def n)
  show "run_extraction L fs template (before @ bad # after') s
          = run_extraction L fs template (before @ bad # after) s" by (rule r(4))
next
  assume h: "collect_labels template \<noteq> [] \<and> paths \<noteq> [] \<and> map (fitz_open fs) paths = map Inr pdocs"
  then have l: "collect_labels template \<noteq> []" and p: "paths \<noteq> []"
    and d: "map (fitz_open fs) paths = map Inr pdocs" by simp_all
  from opened_documents [OF d] have n: "length pdocs = length paths" by simp
  note r = run_extraction_exact_complete [OF l p d]
  show "snd (run_extraction L fs template paths s)
          = Complete (length paths) (extracted_count (fst (run_extraction L fs template paths s)))"
    by (rule r(1))
  show "extraction_results (fst (run_extraction L fs template paths s))
          = claimed_rows L fs (collect_labels template) paths pdocs" by (rule r(2))
  show "table_rows (fst (run_extraction L fs template paths s))
          = map (row_cells (''PDF Filename'' # column_headers (collect_labels template)))
              (claimed_rows L fs (collect_labels template) paths pdocs)" by (rule r(3))
  show "length (extraction_results (fst (run_extraction L fs template paths s))) = length paths"
    by (simp add: r(2) claimed_rows_def n)
next
  assume h: "collect_labels template \<noteq> [] \<and> map (fitz_open fs) before = map Inr docs
      \<and> list_all (\<lambda>doc. ocr_labels_return reader doc (collect_labels template)) docs
      \<and> fitz_open fs bad = Inl e"
  then have l: "collect_labels template \<noteq> []" and d: "map (fitz_open fs) before = map Inr docs"
    and g: "list_all (\<lambda>doc. ocr_labels_return reader doc (collect_labels template)) docs"
    and f: "fitz_open fs bad = Inl e" by simp_all
  from opened_documents [OF d] have n: "length docs = length before" by simp
  note r = ocr_run_extraction_exact_stop [OF l d g f]
  show "snd (ocr_run_extraction L True reader fs template (before @ bad # after) s) = Failed e"
    by (rule r(1))
  show "extraction_results (fst (ocr_run_extraction L True reader fs template (before @ bad # after) s))
          = claimed_ocr_rows reader fs (collect_labels template) before docs" by (rule r(2))
  show "table_rows (fst (ocr_run_extraction L True reader fs template (before @ bad # after) s))
          = map (row_cells (''PDF Filename'' # column_headers (collect_labels template)))
              (claimed_ocr_rows reader fs (collect_labels template) before docs)" by (rule r(3))
  show "length (extraction_results
            (fst (ocr_run_extraction L True reader fs template (before @ bad # after) s)))
          = length before"
    by (simp add: r(2) claimed_ocr_rows_def n)
  show "ocr_run_extraction L True reader fs template (before @ bad # after') s
          = ocr_run_extraction L True reader fs template (before @ bad # after) s" by (rule r(4))
next
  assume h: "collect_labels template \<noteq> [] \<and> map (fitz_open fs) before = map Inr docs
      \<and> list_all (\<lambda>doc. ocr_labels_return reader doc (collect_labels template)) docs
      \<and> fitz_open fs stuck = Inr stuck_doc
      \<and> \<not> ocr_labels_return reader stuck_doc (collect_labels template)"
  then have l: "collect_labels template \<noteq> []" and d: "map (fitz_open fs) before = map Inr docs"
    and g: "list_all (\<lambda>doc. ocr_labels_return reader doc (collect_labels template)) docs"
    and f: "fitz_open fs stuck = Inr stuck_doc"
    and b: "\<not> ocr_labels_return reader stuck_doc (collect_labels template)" by simp_all
  from opened_documents [OF d] have n: "length docs = length before" by simp
  note r = ocr_run_extraction_exact_raise [OF l d g f b]
  show "\<exists>e'. snd (ocr_run_extraction L True reader fs template (before @ stuck # after) s)
               = Failed e'"
    by (rule r(1))
  show "extraction_results (fst (ocr_run_extraction L True reader fs template (before @ stuck # after) s))
          = claimed_ocr_rows reader fs (collect_labels template) before docs" by (rule r(2))
  show "table_rows (fst (ocr_run_extraction L True reader fs template (before @ stuck # after) s))
          = map (row_cells (''PDF Filename'' # column_headers (collect_labels template)))
              (claimed_ocr_rows reader fs (collect_labels template) before docs)" by (rule r(3))
  show "length (extraction_results
            (fst (ocr_run_extraction L True reader fs template (before @ stuck # after) s)))
          = length before"
    by (simp add: r(2) claimed_ocr_rows_def n)
  show "ocr_run_extraction L True reader fs template (before @ stuck # after') s
          = ocr_run_extraction L True reader fs template (before @ stuck # after) s" by (rule r(4))
next
  assume h: "collect_labels template \<noteq> [] \<and> paths \<noteq> [] \<and> map (fitz_open fs) paths = map Inr pdocs
      \<and> list_all (\<lambda>doc. ocr_labels_return reader doc (collect_labels template)) pdocs"
  then have l: "collect_labels template \<noteq> []" and p: "paths \<noteq> []"
    and d: "map (fitz_open fs) paths = map Inr pdocs"
    and g: "list_all (\<lambda>doc. ocr_labels_return reader doc (collect_labels template)) pdocs"
    by simp_all
  from opened_documents [OF d] have n: "length pdocs = length paths" by simp
  note r = ocr_run_extraction_exact_complete [OF l p d g]
  show "snd (ocr_run_extraction L True reader fs template paths s)
          = Complete (length paths)
              (extracted_count (fst (ocr_run_extraction L True reader fs template paths s)))"
    by (rule r(1))
  show "extraction_results (fst (ocr_run_extraction L True reader fs template paths s))
          = claimed_ocr_rows reader fs (collect_labels template) paths pdocs" by (rule r(2))
  show "table_rows (fst (ocr_run_extraction L True reader fs template paths s))
          = map (row_cells (''PDF Filename'' # column_headers (collect_labels template)))
              (claimed_ocr_rows reader fs (collect_labels template) paths pdocs)" by (rule r(3))
  show "length (extraction_results (fst (ocr_run_extraction L True reader fs template paths s)))
          = length paths"
    by (simp add: r(2) claimed_ocr_rows_def n)
next
  assume h: "collect_labels template \<noteq> [] \<and> list_all (opens fs) before \<and> fitz_open fs bad = Inl e"
  then have l: "collect_labels template \<noteq> []" and b: "list_all (opens fs) before"
    and f: "fitz_open fs bad = Inl e" by simp_all
  from ocr_run_extraction_stops [OF l b f]
  show "\<exists>s' e'. ocr_run_extraction L True reader fs template (before @ bad # after) s
                    = (s', Failed e')
            \<and> length (extraction_results s') \<le> length before"
    by blast
qed

theorem run_stops_at_unopened_document_witness:
  "collect_labels sample_template \<noteq> []
   \<and> map (fitz_open sample_files) [''in/a.pdf''] = map Inr [statement_doc]
   \<and> fitz_open sample_files ''in/b.pdf'' = Inl (Exn ''cannot open file'')
   \<and> claimed_rows fitz_std sample_files (collect_labels sample_template) [''in/a.pdf'']
        [statement_doc] = [statement_row]
   \<and> (snd (run_extraction fitz_std sample_files sample_template
              ([''in/a.pdf''] @ ''in/b.pdf'' # [''in/c.pdf'']) fresh_run)
        = Failed (Exn ''cannot open file'')
      \<and> extraction_results (fst (run_extraction fitz_std sample_files sample_template
              ([''in/a.pdf''] @ ''in/b.pdf'' # [''in/c.pdf'']) fresh_run))
          = claimed_rows fitz_std sample_files (collect_labels sample_template) [''in/a.pdf'']
              [statement_doc]
      \<and> table_rows (fst (run_extraction fitz_std sample_files sample_template
              ([''in/a.pdf''] @ ''in/b.pdf'' # [''in/c.pdf'']) fresh_run))
          = map (row_cells (''PDF Filename'' # column_headers (collect_labels sample_template)))
              (claimed_rows fitz_std sample_files (collect_labels sample_template) [''in/a.pdf'']
                 [statement_doc])
      \<and> length (extraction_results (fst (run_extraction fitz_std sample_files sample_template
              ([''in/a.pdf''] @ ''in/b.pdf'' # [''in/c.pdf'']) fresh_run)))
          = length [''in/a.pdf'']
      \<and> run_extraction fitz_std sample_files sample_template
              ([''in/a.pdf''] @ ''in/b.pdf'' # []) fresh_run
          = run_extraction fitz_std sample_files sample_template
              ([''in/a.pdf''] @ ''in/b.pdf'' # [''in/c.pdf'']) fresh_run)
   \<and> [''in/a.pdf'', ''in/c.pdf''] \<noteq> []
   \<and> map (fitz_open sample_files) [''in/a.pdf'', ''in/c.pdf''] = map Inr [statement_doc, statement_doc]
   \<and> (snd (run_extraction fitz_std sample_files sample_template [''in/a.pdf'', ''in/c.pdf''] fresh_run)
        = Complete (length [''in/a.pdf'', ''in/c.pdf''])
            (extracted_count (fst (run_extraction fitz_std sample_files sample_template
               [''in/a.pdf'', ''in/c.pdf''] fresh_run)))
      \<and> extraction_results (fst (run_extraction fitz_std sample_files sample_template
              [''in/a.pdf'', ''in/c.pdf''] fresh_run))
          = claimed_rows fitz_std sample_files (collect_labels sample_template)
              [''in/a.pdf'', ''in/c.pdf''] [statement_doc, statement_doc]
      \<and> table_rows (fst (run_extraction fitz_std sample_files sample_template
              [''in/a.pdf'', ''in/c.pdf''] fresh_run))
          = map (row_cells (''PDF Filename'' # column_headers (collect_labels sample_template)))
              (claimed_rows fitz_std sample_files (collect_labels sample_template)
                 [''in/a.pdf'', ''in/c.pdf''] [statement_doc, statement_doc])
      \<and> length (extraction_results (fst (run_extraction fitz_std sample_files sample_template
              [''in/a.pdf'', ''in/c.pdf''] fresh_run)))
          = length [''in/a.pdf'', ''in/c.pdf''])
   \<and> list_all (\<lambda>doc. ocr_labels_return True doc (collect_labels sample_template)) [statement_doc]
   \<and> (snd (ocr_run_extraction fitz_std True True sample_files sample_template
              ([''in/a.pdf''] @ ''in/b.pdf'' # [''in/c.pdf'']) fresh_run)
        = Failed (Exn ''cannot open file'')
      \<and> extraction_results (fst (ocr_run_extraction fitz_std True True sample_files sample_template
              ([''in/a.pdf''] @ ''in/b.pdf'' # [''in/c.pdf'']) fresh_run))
          = claimed_ocr_rows True sample_files (collect_labels sample_template) [''in/a.pdf'']
              [statement_doc]
      \<and> table_rows (fst (ocr_run_extraction fitz_std True True sample_files sample_template
              ([''in/a.pdf''] @ ''in/b.pdf'' # [''in/c.pdf'']) fresh_run))
          = map (row_cells (''PDF Filename'' # column_headers (collect_labels sample_template)))
              (claimed_ocr_rows True sample_files (collect_labels sample_template) [''in/a.pdf'']
                 [statement_doc])
      \<and> length (extraction_results (fst (ocr_run_extraction fitz_std True True sample_files
              sample_template ([''in/a.pdf''] @ ''in/b.pdf'' # [''in/c.pdf'']) fresh_run)))
          = length [''in/a.pdf'']
      \<and> ocr_run_extraction fitz_std True True sample_files sample_template
              ([''in/a.pdf''] @ ''in/b.pdf'' # []) fresh_run
          = ocr_run_extraction fitz_std True True sample_files sample_template
              ([''in/a.pdf''] @ ''in/b.pdf'' # [''in/c.pdf'']) fresh_run)
   \<and> collect_labels nameless_template \<noteq> []
   \<and> map (fitz_open sample_files) [] = map Inr []
   \<and> fitz_open sample_files ''in/a.pdf'' = Inr statement_doc
   \<and> \<not> ocr_labels_return True statement_doc (collect_labels nameless_template)
   \<and> ((\<exists>e'. snd (ocr_run_extraction fitz_std True True sample_files nameless_template
                    ([] @ ''in/a.pdf'' # [''in/b.pdf'', ''in/c.pdf'']) fresh_run) = Failed e')
      \<and> extraction_results (fst (ocr_run_extraction fitz_std True True sample_files nameless_template
              ([] @ ''in/a.pdf'' # [''in/b.pdf'', ''in/c.pdf'']) fresh_run))
          = claimed_ocr_rows True sample_files (collect_labels nameless_template) [] []
      \<and> table_rows (fst (ocr_run_extraction fitz_std True True sample_files nameless_template
              ([] @ ''in/a.pdf'' # [''in/b.pdf'', ''in/c.pdf'']) fresh_run))
          = map (row_cells (''PDF Filename'' # column_headers (collect_labels nameless_template)))
              (claimed_ocr_rows True sample_files (collect_labels nameless_template) [] [])
      \<and> length (extraction_results (fst (ocr_run_extraction fitz_std True True sample_files
              nameless_template ([] @ ''in/a.pdf'' # [''in/b.pdf'', ''in/c.pdf'']) fresh_run)))
          = length ([] :: string list)
      \<and> ocr_run_extraction fitz_std True True sample_files nameless_template
              ([] @ ''in/a.pdf'' # []) fresh_run
          = ocr_run_extraction fitz_std True True sample_files nameless_template
              ([] @ ''in/a.pdf'' # [''in/b.pdf'', ''in/c.pdf'']) fresh_run)
   \<and> list_all (\<lambda>doc. ocr_labels_return True doc (collect_labels sample_template))
        [statement_doc, statement_doc]
   \<and> (snd (ocr_run_extraction fitz_std True True sample_files sample_template
              [''in/a.pdf'', ''in/c.pdf''] fresh_run)
        = Complete (length [''in/a.pdf'', ''in/c.pdf''])
            (extracted_count (fst (ocr_run_extraction fitz_std True True sample_files
               sample_template [''in/a.pdf'', ''in/c.pdf''] fresh_run)))
      \<and> extraction_results (fst (ocr_run_extraction fitz_std True True sample_files sample_template
              [''in/a.pdf'', ''in/c.pdf''] fresh_run))
          = claimed_ocr_rows True sample_files (collect_labels sample_template)
              [''in/a.pdf'', ''in/c.pdf''] [statement_doc, statement_doc]
      \<and> table_rows (fst (ocr_run_extraction fitz_std True True sample_files sample_template
              [''in/a.pdf'', ''in/c.pdf''] fresh_run))
          = map (row_cells (''PDF Filename'' # column_headers (collect_labels sample_template)))
              (claimed_ocr_rows True sample_files (collect_labels sample_template)
                 [''in/a.pdf'', ''in/c.pdf''] [statement_doc, statement_doc])
      \<and> length (extraction_results (fst (ocr_run_extraction fitz_std True True sample_files
              sample_template [''in/a.pdf'', ''in/c.pdf''] fresh_run)))
          = length [''in/a.pdf'', ''in/c.pdf''])
   \<and> opens sample_files ''in/a.pdf''
   \<and> (\<exists>s' e'. ocr_run_extraction fitz_std True True sample_files sample_template
                  ([''in/a.pdf''] @ ''in/b.pdf'' # [''in/c.pdf'']) fresh_run = (s', Failed e')
            \<and> length (extraction_results s') \<le> length [''in/a.pdf''])"
proof -
  have l: "collect_labels sample_template \<noteq> []" by (simp add: sample_labels)
  have l': "collect_labels nameless_template \<noteq> []" by (simp add: nameless_labels)
  have n: "[''in/a.pdf'', ''in/c.pdf''] \<noteq> []" by simp
  have g1: "list_all (\<lambda>doc. ocr_labels_return True doc (collect_labels sample_template))
              [statement_doc]"
    by (simp add: sample_labels_return)
  have g2: "list_all (\<lambda>doc. ocr_labels_return True doc (collect_labels sample_template))
              [statement_doc, statement_doc]"
    by (simp add: sample_labels_return)
  have g0: "list_all (\<lambda>doc. ocr_labels_return True doc (collect_labels nameless_template)) []"
    by simp
  have a: "list_all (opens sample_files) [''in/a.pdf'']" by (simp add: sample_opens)
  note b = nameless_labels_raise [of True statement_doc]
  from l sample_documents(1) sample_opens(4)
  have h1: "collect_labels sample_template \<noteq> []
      \<and> map (fitz_open sample_files) [''in/a.pdf''] = map Inr [statement_doc]
      \<and> fitz_open sample_files ''in/b.pdf'' = Inl (Exn ''cannot open file'')"
    by blast
  from l n sample_documents(2)
  have h2: "collect_labels sample_template \<noteq> [] \<and> [''in/a.pdf'', ''in/c.pdf''] \<noteq> []
      \<and> map (fitz_open sample_files) [''in/a.pdf'', ''in/c.pdf'']
          = map Inr [statement_doc, statement_doc]"
    by blast
  from l sample_documents(1) g1 sample_opens(4)
  have h3: "collect_labels sample_template \<noteq> []
      \<and> map (fitz_open sample_files) [''in/a.pdf''] = map Inr [statement_doc]
      \<and> list_all (\<lambda>doc. ocr_labels_return True doc (collect_labels sample_template)) [statement_doc]
      \<and> fitz_open sample_files ''in/b.pdf'' = Inl (Exn ''cannot open file'')"
    by blast
  from l' sample_documents(3) g0 sample_opens(5) b
  have h4: "collect_labels nameless_template \<noteq> []
      \<and> map (fitz_open sample_files) [] = map Inr []
      \<and> list_all (\<lambda>doc. ocr_labels_return True doc (collect_labels nameless_template)) []
      \<and> fitz_open sample_files ''in/a.pdf'' = Inr statement_doc
      \<and> \<not> ocr_labels_return True statement_doc (collect_labels nameless_template)"
    by blast
  from l n sample_documents(2) g2
  have h5: "collect_labels sample_template \<noteq> [] \<and> [''in/a.pdf'', ''in/c.pdf''] \<noteq> []
      \<and> map (fitz_open sample_files) [''in/a.pdf'', ''in/c.pdf'']
          = map Inr [statement_doc, statement_doc]
      \<and> list_all (\<lambda>doc. ocr_labels_return True doc (collect_labels sample_template))
          [statement_doc, statement_doc]"
    by blast
  from l a sample_opens(4)
  have h6: "collect_labels sample_template \<noteq> [] \<and> list_all (opens sample_files) [''in/a.pdf'']
      \<and> fitz_open sample_files ''in/b.pdf'' = Inl (Exn ''cannot open file'')"
    by blast
  note T = run_stops_at_unopened_document
    [where template = sample_template and fs = sample_files and before = "[''in/a.pdf'']"
       and docs = "[statement_doc]" and bad = "''in/b.pdf''" and e = "Exn ''cannot open file''"
       and L = fitz_std and after = "[''in/c.pdf'']" and after' = "[]" and s = fresh_run
       and reader = True and paths = "[''in/a.pdf'', ''in/c.pdf'']"
       and pdocs = "[statement_doc, statement_doc]"]
  note T' = run_stops_at_unopened_document
    [where template = nameless_template and fs = sample_files and before = "[]"
       and docs = "[]" and stuck = "''in/a.pdf''" and stuck_doc = statement_doc
       and L = fitz_std and after = "[''in/b.pdf'', ''in/c.pdf'']" and after' = "[]"
       and s = fresh_run and reader = True]
  note c1 = T [THEN conjunct1, THEN mp, OF h1]
  note c2 = T [THEN conjunct2, THEN conjunct1, THEN mp, OF h2]
  note c3 = T [THEN conjunct2, THEN conjunct2, THEN conjunct1, THEN mp, OF h3]
  note c4 = T' [THEN conjunct2, THEN conjunct2, THEN conjunct2, THEN conjunct1, THEN mp, OF h4]
  note c5 = T [THEN conjunct2, THEN conjunct2, THEN conjunct2, THEN conjunct2, THEN conjunct1,
      THEN mp, OF h5]
  note c6 = T [THEN conjunct2, THEN conjunct2, THEN conjunct2, THEN conjunct2, THEN conjunct2,
      THEN mp, OF h6]
  from l sample_documents sample_opens(1) sample_opens(4) sample_opens(5) sample_row n g1 g2 l' b
    c1 c2 c3 c4 c5 c6
  show ?thesis by blast
qed

text \<open>
  C6 as stated fails: of three documents of which the second cannot be opened and the
  third can, the run keeps the row of the first only and ends with the failure message.
\<close>

theorem second_document_fails_counterexample:
  "opens sample_files ''in/a.pdf'' \<and> \<not> opens sample_files ''in/b.pdf''
   \<and> opens sample_files ''in/c.pdf''
   \<and> sample_paths = [''in/a.pdf'', ''in/b.pdf'', ''in/c.pdf'']
   \<and> extraction_results
        (fst (run_extraction fitz_std sample_files sample_template sample_paths fresh_run))
      = [statement_row]
   \<and> length (extraction_results
        (fst (run_extraction fitz_std sample_files sample_template sample_paths fresh_run))) = 1
   \<and> snd (run_extraction fitz_std sample_files sample_template sample_paths fresh_run)
      = Failed (Exn ''cannot open file'')"
proof -
  have p: "sample_paths = [''in/a.pdf'', ''in/b.pdf'', ''in/c.pdf'']"
    by (simp add: sample_paths_def)
  have f: "snd (run_extraction fitz_std sample_files sample_template sample_paths fresh_run)
      = Failed (Exn ''cannot open file'')"
    by (simp add: sample_run)
  have n: "length (extraction_results
        (fst (run_extraction fitz_std sample_files sample_template sample_paths fresh_run))) = 1"
    by (simp add: sample_run_results)
  from sample_opens(1,2,3) p sample_run_results n f show ?thesis by blast
qed

text \<open>
  C9. For a label whose anchor list or value list is empty, and in the native matcher
  also when the stripped name of the primary anchor is empty, the matcher returns no
  match on every document, so that no page decides anything, and raises nothing. The
  run then records empty strings in the two columns of the label, in the native and in
  the OCR run, and every row of a native run has empty strings there.
\<close>

theorem malformed_label_is_skipped:
  "(anchors = [] \<or> vals = [] \<or> stripped_name (hd anchors) = [] \<longrightarrow>
      find_box_on_pages L doc anchors vals = None)
   \<and> (anchors = [] \<or> vals = [] \<longrightarrow> find_box_with_ocr reader doc anchors vals lbox = Inr None)
   \<and> (label_anchors label = [] \<or> label_values label = [] \<longrightarrow>
        record_label L pdf_path pdf_filename doc label (row, s) =
          (AList.update (label_name label @ ''_Value'') []
             (AList.update (label_name label @ ''_Anchor'') [] row), s)
        \<and> ocr_record_labels L reader pdf_path pdf_filename doc (label # rest) (row, s) =
            ocr_record_labels L reader pdf_path pdf_filename doc rest
              (AList.update (label_name label @ ''_Value'') []
                 (AList.update (label_name label @ ''_Anchor'') [] row), s))
   \<and> (label \<in> set (collect_labels template)
        \<and> (label_anchors label = [] \<or> label_values label = []) \<and> paths \<noteq> []
        \<and> result \<in> set (extraction_results (fst (run_extraction L fs template paths s0))) \<longrightarrow>
        map_of result (label_name label @ ''_Anchor'') = Some []
        \<and> map_of result (label_name label @ ''_Value'') = Some [])"
proof (intro conjI impI)
  assume "anchors = [] \<or> vals = [] \<or> stripped_name (hd anchors) = []"
  then show "find_box_on_pages L doc anchors vals = None"
    by (auto simp: find_box_on_pages_def split: list.splits)
next
  assume "anchors = [] \<or> vals = []"
  then show "find_box_with_ocr reader doc anchors vals lbox = Inr None"
    by (auto simp: find_box_with_ocr_def)
next
  assume "label_anchors label = [] \<or> label_values label = []"
  then show "record_label L pdf_path pdf_filename doc label (row, s) =
          (AList.update (label_name label @ ''_Value'') []
             (AList.update (label_name label @ ''_Anchor'') [] row), s)"
    by (rule record_label_malformed)
next
  assume "label_anchors label = [] \<or> label_values label = []"
  then have "find_box_with_ocr reader doc (label_anchors label) (label_values label)
               (Some (label_box label)) = Inr None"
    by (auto simp: find_box_with_ocr_def)
  then show "ocr_record_labels L reader pdf_path pdf_filename doc (label # rest) (row, s) =
            ocr_record_labels L reader pdf_path pdf_filename doc rest
              (AList.update (label_name label @ ''_Value'') []
                 (AList.update (label_name label @ ''_Anchor'') [] row), s)"
    by simp
next
  assume h: "label \<in> set (collect_labels template)
        \<and> (label_anchors label = [] \<or> label_values label = []) \<and> paths \<noteq> []
        \<and> result \<in> set (extraction_results (fst (run_extraction L fs template paths s0)))"
  let ?labels = "collect_labels template"
  let ?cols = "''PDF Filename'' # column_headers ?labels"
  from h have mem: "label \<in> set ?labels" and mal: "label_anchors label = [] \<or> label_values label = []"
    and ne: "paths \<noteq> []" by simp_all
  from mem have lne: "?labels \<noteq> []" by auto
  have "fst (run_extraction L fs template paths s0) = fst (extract_paths L fs ?labels ?cols paths fresh_run)"
    using ne lne by (simp add: run_extraction_def Let_def split: prod.splits option.splits)
  with h have "result \<in> set (extraction_results (fst (extract_paths L fs ?labels ?cols paths fresh_run)))"
    by simp
  from extract_paths_rows [OF this] obtain p d s1 where
    r: "result = fst (fold (record_label L p (basename fs p) d) ?labels
                       ([(''PDF Filename'', basename fs p)], s1))"
    by (auto simp: fresh_run_def)
  from fold_record_label_malformed [OF mem collect_labels_distinct mal,
      of L p "basename fs p" d "[(''PDF Filename'', basename fs p)]" s1] r
  show "map_of result (label_name label @ ''_Anchor'') = Some []"
    and "map_of result (label_name label @ ''_Value'') = Some []"
    by simp_all
qed

theorem malformed_label_is_skipped_witness:
  "label_anchors owner_entry = []
   \<and> find_box_on_pages fitz_std statement_doc (label_anchors owner_entry) (label_values owner_entry)
       = None
   \<and> find_box_with_ocr True receipt_doc (label_anchors owner_entry) (label_values owner_entry)
       (Some (label_box owner_entry)) = Inr None
   \<and> stripped_name (hd [blank_anchor]) = []
   \<and> find_box_on_pages fitz_std statement_doc [blank_anchor] [balance_value] = None
   \<and> record_label fitz_std ''in/a.pdf'' ''a.pdf'' statement_doc owner_entry ([], fresh_run) =
        (AList.update (label_name owner_entry @ ''_Value'') []
           (AList.update (label_name owner_entry @ ''_Anchor'') [] []), fresh_run)
   \<and> ocr_record_labels fitz_std True ''in/a.pdf'' ''a.pdf'' receipt_doc (owner_entry # [])
        ([], fresh_run) =
        ocr_record_labels fitz_std True ''in/a.pdf'' ''a.pdf'' receipt_doc []
          (AList.update (label_name owner_entry @ ''_Value'') []
             (AList.update (label_name owner_entry @ ''_Anchor'') [] []), fresh_run)
   \<and> owner_entry \<in> set (collect_labels sample_template) \<and> sample_paths \<noteq> []
   \<and> statement_row \<in> set (extraction_results
        (fst (run_extraction fitz_std sample_files sample_template sample_paths fresh_run)))
   \<and> map_of statement_row (label_name owner_entry @ ''_Anchor'') = Some []
   \<and> map_of statement_row (label_name owner_entry @ ''_Value'') = Some []"
proof -
  have a: "label_anchors owner_entry = []" by (simp add: owner_entry_def)
  then have a1: "label_anchors owner_entry = [] \<or> label_values owner_entry = []
                 \<or> stripped_name (hd (label_anchors owner_entry)) = []"
    and a2: "label_anchors owner_entry = [] \<or> label_values owner_entry = []" by simp_all
  have b0: "stripped_name (hd [blank_anchor]) = []" by (simp add: stripped_fixture)
  then have b: "[blank_anchor] = [] \<or> [balance_value] = [] \<or> stripped_name (hd [blank_anchor]) = []"
    by simp
  have mem: "owner_entry \<in> set (collect_labels sample_template)" by (simp add: sample_labels)
  have ne: "sample_paths \<noteq> []" by (simp add: sample_paths_def)
  have row: "statement_row \<in> set (extraction_results
        (fst (run_extraction fitz_std sample_files sample_template sample_paths fresh_run)))"
    by (simp add: sample_run_results)
  note T = malformed_label_is_skipped
    [where anchors = "label_anchors owner_entry" and vals = "label_values owner_entry"
       and L = fitz_std and doc = statement_doc and reader = True
       and lbox = "Some (label_box owner_entry)" and label = owner_entry
       and pdf_path = "''in/a.pdf''" and pdf_filename = "''a.pdf''" and row = "[]"
       and s = fresh_run and rest = "[]" and template = sample_template and paths = sample_paths
       and result = statement_row and fs = sample_files and ?s0.0 = fresh_run]
  note U = malformed_label_is_skipped
    [where anchors = "[blank_anchor]" and vals = "[balance_value]" and L = fitz_std
       and doc = statement_doc]
  note V = malformed_label_is_skipped
    [where anchors = "label_anchors owner_entry" and vals = "label_values owner_entry"
       and reader = True and doc = receipt_doc and lbox = "Some (label_box owner_entry)"
       and label = owner_entry and L = fitz_std and pdf_path = "''in/a.pdf''"
       and pdf_filename = "''a.pdf''" and row = "[]" and s = fresh_run and rest = "[]"]
  note c1 = T [THEN conjunct1, THEN mp, OF a1]
  note c2 = V [THEN conjunct2, THEN conjunct1, THEN mp, OF a2]
  note c1' = U [THEN conjunct1, THEN mp, OF b]
  note c3 = T [THEN conjunct2, THEN conjunct2, THEN conjunct1, THEN mp, OF a2, THEN conjunct1]
  note c3' = V [THEN conjunct2, THEN conjunct2, THEN conjunct1, THEN mp, OF a2, THEN conjunct2]
  have h4: "owner_entry \<in> set (collect_labels sample_template)
        \<and> (label_anchors owner_entry = [] \<or> label_values owner_entry = []) \<and> sample_paths \<noteq> []
        \<and> statement_row \<in> set (extraction_results
             (fst (run_extraction fitz_std sample_files sample_template sample_paths fresh_run)))"
    using mem a2 ne row by blast
  note c4 = T [THEN conjunct2, THEN conjunct2, THEN conjunct2, THEN mp, OF h4]
  from a c1 c2 b0 c1' c3 c3' mem ne row c4 show ?thesis by blast
qed

end
